theory Spec2Isabelle
  imports Complex_Main
begin

section \<open>Numbers and errors\<close>

text \<open>
  Python ints are unbounded and are modelled as \<open>int\<close>. A Python float is modelled
  as a real number. The arithmetic of the bitrate allocation and of the downscale decision
  is modelled with the rounding of IEEE doubles (section Double precision); the time
  strings, the formatting and the size check are modelled in exact real arithmetic.
  Exceptions raised by the modelled functions are values of \<open>py_error\<close>.
\<close>

datatype py_error = ZeroDivisionError | ValueError

text \<open>Python's \<^verbatim>\<open>int(x)\<close> on a float drops the fractional part (truncation toward zero).\<close>

definition py_int :: "real \<Rightarrow> int" where
  "py_int x = (if 0 \<le> x then \<lfloor>x\<rfloor> else \<lceil>x\<rceil>)"

text \<open>
  Rounding to the nearest integer, an exact tie going to the even neighbour: the rounding
  of IEEE arithmetic and of fixed-point formatting.
\<close>

definition round_half_even :: "real \<Rightarrow> int" where
  "round_half_even x =
    (let f = \<lfloor>x\<rfloor>; d = x - of_int f
     in if d < 1 / 2 then f
        else if 1 / 2 < d then f + 1
        else if even f then f else f + 1)"

section \<open>Double precision\<close>

text \<open>
  The arithmetic of the bitrate allocation and of the downscale decision is modelled in
  IEEE double precision: a float is a real number, and every operation returns the exact
  result rounded to the nearest double, a tie going to the even significand
  (\<open>fl\<close>). A double has a significand of 53 bits; \<open>float_exponent x\<close> is the binary
  exponent of \<open>x\<close>. The exponent range is not bounded: overflow to infinity, subnormal
  numbers, infinities and NaN are outside the model.
\<close>

definition float_exponent :: "real \<Rightarrow> int" where
  "float_exponent x = \<lfloor>log 2 \<bar>x\<bar>\<rfloor>"

definition fl :: "real \<Rightarrow> real" where
  "fl x =
    (if x = 0 then 0
     else of_int (round_half_even (x / 2 powi (float_exponent x - 52))) *
          2 powi (float_exponent x - 52))"

text \<open>
  The float operators \<^verbatim>\<open>*\<close>, \<^verbatim>\<open>/\<close>, \<^verbatim>\<open>-\<close>, \<^verbatim>\<open>math.sqrt\<close> and the conversion
  of an int to a float. The callers of \<open>fdiv\<close> test the divisor for zero, and the
  caller of \<open>fsqrt\<close> the argument for a negative value, since those raise.
\<close>

definition fmul :: "real \<Rightarrow> real \<Rightarrow> real" where
  "fmul x y = fl (x * y)"

definition fdiv :: "real \<Rightarrow> real \<Rightarrow> real" where
  "fdiv x y = fl (x / y)"

definition fsub :: "real \<Rightarrow> real \<Rightarrow> real" where
  "fsub x y = fl (x - y)"

definition fsqrt :: "real \<Rightarrow> real" where
  "fsqrt x = fl (sqrt x)"

definition float_of_int :: "int \<Rightarrow> real" where
  "float_of_int i = fl (of_int i)"

section \<open>Bitrate allocation\<close>

text \<open>
  \<^verbatim>\<open>compute_target_bitrates\<close> (src/app.py, lines 167-182), operator by operator in
  double precision. A product of an int and a float converts the int first
  (\<^verbatim>\<open>max_audio_kbps * 1000\<close> is an int product, then a float product with
  \<^verbatim>\<open>clip_seconds\<close>); \<^verbatim>\<open>0.1\<close> is the double nearest to one tenth. The two divisions
  by \<^verbatim>\<open>clip_seconds\<close> raise \<^verbatim>\<open>ZeroDivisionError\<close> when it is zero; the first one is
  reached after \<^verbatim>\<open>target_bits\<close> and \<^verbatim>\<open>audio_bits_guess\<close>, which cannot fail.
  The result is the pair \<^verbatim>\<open>(video_kbps, audio_kbps)\<close>.
\<close>

definition compute_target_bitrates ::
  "real \<Rightarrow> real \<Rightarrow> int \<Rightarrow> int \<Rightarrow> real \<Rightarrow> py_error + (int \<times> int)" where
  "compute_target_bitrates clip_seconds target_size_mb min_audio_kbps max_audio_kbps
      container_overhead_ratio =
    (let target_bits =
           fmul (fmul (fmul (fmul target_size_mb 1024) 1024) 8) container_overhead_ratio;
         audio_bits_guess =
           max (min (fmul target_bits (fl (1 / 10)))
                    (fmul (float_of_int (max_audio_kbps * 1000)) clip_seconds))
               (fmul (float_of_int (min_audio_kbps * 1000)) clip_seconds)
     in if clip_seconds = 0 then Inl ZeroDivisionError
        else
          let audio_kbps =
                max (min (py_int (fdiv (fdiv audio_bits_guess 1000) clip_seconds))
                         max_audio_kbps)
                    min_audio_kbps;
              video_bits_available =
                max (fsub target_bits (fmul (float_of_int (audio_kbps * 1000)) clip_seconds))
                    (1000 * 1000);
              video_kbps = max (py_int (fdiv (fdiv video_bits_available 1000) clip_seconds)) 100
          in Inr (video_kbps, audio_kbps))"

text \<open>The default of \<^verbatim>\<open>container_overhead_ratio\<close>: the double nearest to 0.98.\<close>

definition default_overhead_ratio :: real where
  "default_overhead_ratio = fl (98 / 100)"

text \<open>
  The allocation as the specification words it (section 4.3, steps 1 to 5), in the same
  double arithmetic, with the conversion to an integer left as the parameter \<open>rnd\<close>, so
  that the same text can be read with rounding to nearest and with truncation. The
  result is \<open>(video_kbps, audio_kbps)\<close>.
\<close>

definition clamp :: "'a::linorder \<Rightarrow> 'a \<Rightarrow> 'a \<Rightarrow> 'a" where
  "clamp x lo hi = max lo (min hi x)"

definition allocate ::
  "(real \<Rightarrow> int) \<Rightarrow> real \<Rightarrow> real \<Rightarrow> int \<Rightarrow> int \<Rightarrow> real \<Rightarrow> int \<times> int" where
  "allocate rnd clip_seconds target_size_mb min_audio_kbps max_audio_kbps overhead_ratio =
    (let target_bits = fmul (fmul target_size_mb 8388608) overhead_ratio;
         audio_bits_guess =
           clamp (fmul target_bits (fl (10 / 100)))
                 (fmul (float_of_int (min_audio_kbps * 1000)) clip_seconds)
                 (fmul (float_of_int (max_audio_kbps * 1000)) clip_seconds);
         audio_kbps =
           clamp (rnd (fdiv (fdiv audio_bits_guess 1000) clip_seconds))
                 min_audio_kbps max_audio_kbps;
         video_bits_available =
           max (fsub target_bits (fmul (float_of_int (audio_kbps * 1000)) clip_seconds)) 1000000;
         video_kbps = max (rnd (fdiv (fdiv video_bits_available 1000) clip_seconds)) 100
     in (video_kbps, audio_kbps))"

section \<open>Strings and number formatting\<close>

text \<open>
  Python strings are modelled as \<open>string\<close>, one \<open>char\<close> per character (the ASCII range).
  \<open>str_nat\<close> is \<^verbatim>\<open>str(n)\<close> for a non-negative integer, \<open>str_int\<close> is \<^verbatim>\<open>str(i)\<close>.
\<close>

definition digit_char :: "nat \<Rightarrow> char" where
  "digit_char d = ''0123456789'' ! d"

definition is_digit :: "char \<Rightarrow> bool" where
  "is_digit c = (48 \<le> (of_char c :: nat) \<and> (of_char c :: nat) \<le> 57)"

definition digit_val :: "char \<Rightarrow> nat" where
  "digit_val c = of_char c - 48"

fun str_nat :: "nat \<Rightarrow> string" where
  "str_nat n = (if n < 10 then [digit_char n] else str_nat (n div 10) @ [digit_char (n mod 10)])"

declare str_nat.simps [simp del]

definition str_int :: "int \<Rightarrow> string" where
  "str_int i = (if i < 0 then CHR ''-'' # str_nat (nat (- i)) else str_nat (nat i))"

definition digits_val :: "string \<Rightarrow> nat" where
  "digits_val s = foldl (\<lambda>a c. 10 * a + digit_val c) 0 s"

text \<open>
  The format specification \<^verbatim>\<open>{i:0Wd}\<close>: the decimal digits of \<open>i\<close>, padded with zeros
  between the sign and the digits up to the width \<open>W\<close>.
\<close>

definition format_d :: "nat \<Rightarrow> int \<Rightarrow> string" where
  "format_d width i =
    (let digits = str_nat (nat \<bar>i\<bar>);
         sign = (if i < 0 then [CHR ''-''] else [])
     in sign @ replicate (width - length sign - length digits) CHR ''0'' @ digits)"

text \<open>
  The format specifications \<^verbatim>\<open>{x:.Pf}\<close> (\<open>width = 0\<close>) and \<^verbatim>\<open>{x:0W.Pf}\<close>: sign,
  zero padding up to the width, integer digits and, for \<open>P > 0\<close>, the point and exactly
  \<open>P\<close> decimals.
\<close>

definition format_f :: "nat \<Rightarrow> nat \<Rightarrow> real \<Rightarrow> string" where
  "format_f width prec x =
    (let n = nat (round_half_even (\<bar>x\<bar> * 10 ^ prec));
         frac = str_nat (n mod 10 ^ prec);
         digits = str_nat (n div 10 ^ prec) @
                  (if prec = 0 then []
                   else CHR ''.'' # replicate (prec - length frac) CHR ''0'' @ frac);
         sign = (if x < 0 then [CHR ''-''] else [])
     in sign @ replicate (width - length sign - length digits) CHR ''0'' @ digits)"

text \<open>
  \<^verbatim>\<open>str.strip()\<close> removes leading and trailing whitespace; \<^verbatim>\<open>str.split(":")\<close> cuts
  at every colon and always returns at least one part.
\<close>

definition is_space :: "char \<Rightarrow> bool" where
  "is_space c = (let n = (of_char c :: nat) in (9 \<le> n \<and> n \<le> 13) \<or> (28 \<le> n \<and> n \<le> 32))"

definition py_strip :: "string \<Rightarrow> string" where
  "py_strip s = rev (dropWhile is_space (rev (dropWhile is_space s)))"

fun split_colon :: "string \<Rightarrow> string list" where
  "split_colon [] = [[]]"
| "split_colon (c # cs) =
     (if c = CHR '':'' then [] # split_colon cs
      else (case split_colon cs of [] \<Rightarrow> [[c]] | p # ps \<Rightarrow> (c # p) # ps))"

text \<open>
  \<^verbatim>\<open>float(s)\<close> on a string: surrounding whitespace is ignored, then an optional sign, then
  digits with an optional point, at least one digit in all. The model covers these plain
  decimal literals; the other spellings Python accepts (an exponent, underscores between
  digits, \<^verbatim>\<open>inf\<close>, \<^verbatim>\<open>nan\<close>) are treated like every other string and rejected with
  \<^verbatim>\<open>ValueError\<close>.
\<close>

definition py_float_unsigned :: "string \<Rightarrow> py_error + real" where
  "py_float_unsigned u =
    (let ip = takeWhile is_digit u; rest = dropWhile is_digit u
     in case rest of
          [] \<Rightarrow> if ip = [] then Inl ValueError else Inr (of_nat (digits_val ip))
        | c # fr \<Rightarrow>
            if c = CHR ''.'' \<and> list_all is_digit fr \<and> (ip \<noteq> [] \<or> fr \<noteq> [])
            then Inr (of_nat (digits_val ip) + of_nat (digits_val fr) / 10 ^ length fr)
            else Inl ValueError)"

definition py_float :: "string \<Rightarrow> py_error + real" where
  "py_float s =
    (case py_strip s of
       [] \<Rightarrow> Inl ValueError
     | c # r \<Rightarrow>
         if c = CHR ''-'' then map_sum id uminus (py_float_unsigned r)
         else if c = CHR ''+'' then py_float_unsigned r
         else py_float_unsigned (c # r))"

section \<open>Time strings\<close>

text \<open>
  \<^verbatim>\<open>parse_time_to_seconds\<close> (src/app.py, lines 78-94). A failing \<^verbatim>\<open>float\<close> and a
  wrong number of parts both raise \<^verbatim>\<open>ValueError\<close>.
\<close>

definition parse_time_to_seconds :: "string \<Rightarrow> py_error + real" where
  "parse_time_to_seconds text0 =
    (let text = py_strip text0
     in if text = [] then Inr 0
        else if CHR '':'' \<in> set text then
          (let parts = map py_strip (split_colon text)
           in if length parts = 3 then
                (case py_float (parts ! 0) of Inl e \<Rightarrow> Inl e | Inr h \<Rightarrow>
                 case py_float (parts ! 1) of Inl e \<Rightarrow> Inl e | Inr m \<Rightarrow>
                 case py_float (parts ! 2) of Inl e \<Rightarrow> Inl e | Inr s \<Rightarrow>
                   Inr (h * 3600 + m * 60 + s))
              else if length parts = 2 then
                (case py_float (parts ! 0) of Inl e \<Rightarrow> Inl e | Inr m \<Rightarrow>
                 case py_float (parts ! 1) of Inl e \<Rightarrow> Inl e | Inr s \<Rightarrow>
                   Inr (m * 60 + s))
              else Inl ValueError)
        else py_float text)"

text \<open>
  \<^verbatim>\<open>format_seconds_to_time\<close> (src/app.py, lines 97-105). The float operators
  \<^verbatim>\<open>x // y\<close> and \<^verbatim>\<open>x % y\<close> are floor division and its remainder; both are used with
  the non-zero constants 3600 and 60 only.
\<close>

definition py_floordiv :: "real \<Rightarrow> real \<Rightarrow> real" where
  "py_floordiv x y = of_int \<lfloor>x / y\<rfloor>"

definition py_mod :: "real \<Rightarrow> real \<Rightarrow> real" where
  "py_mod x y = x - y * of_int \<lfloor>x / y\<rfloor>"

definition format_seconds_to_time :: "real \<Rightarrow> string" where
  "format_seconds_to_time value0 =
    (let val = (if value0 < 0 then 0 else value0);
         hours = py_int (py_floordiv val 3600);
         minutes = py_int (py_floordiv (py_mod val 3600) 60);
         seconds = py_mod val 60
     in if hours > 0 then
          format_d 2 hours @ '':'' @ format_d 2 minutes @ '':'' @ format_f 6 3 seconds
        else format_d 2 minutes @ '':'' @ format_f 6 3 seconds)"

section \<open>Downscale decision\<close>

text \<open>
  \<^verbatim>\<open>choose_scaling_for_bitrate\<close> (src/app.py, lines 185-200), operator by operator in
  double precision. \<^verbatim>\<open>not width\<close> holds for \<^verbatim>\<open>None\<close> and for 0, \<^verbatim>\<open>not fps\<close>
  for \<^verbatim>\<open>None\<close> and for 0.0. The division raises \<^verbatim>\<open>ZeroDivisionError\<close> on a zero
  divisor and \<^verbatim>\<open>math.sqrt\<close> raises \<^verbatim>\<open>ValueError\<close> on a negative argument;
  \<^verbatim>\<open>0.06\<close> is the double nearest to six hundredths. The floor division by 2 and the
  product with 2 of lines 196-197 are exact on doubles. \<open>choose_scaling_dims\<close> is the
  function up to the two new dimensions; \<open>choose_scaling_for_bitrate\<close> renders them as
  the filter text.
\<close>

definition choose_scaling_dims ::
  "int option \<Rightarrow> int option \<Rightarrow> real option \<Rightarrow> int \<Rightarrow> py_error + (int \<times> int) option" where
  "choose_scaling_dims width height fps video_kbps =
    (case (width, height, fps) of
       (Some w, Some h, Some f) \<Rightarrow>
         if w = 0 \<or> h = 0 \<or> f = 0 \<or> f \<le> 0 then Inr None
         else if fmul (float_of_int (w * h)) f = 0 then Inl ZeroDivisionError
         else
           let bits_per_pixel =
                 fdiv (float_of_int (video_kbps * 1000)) (fmul (float_of_int (w * h)) f);
               min_bpp = fl (6 / 100)
           in if bits_per_pixel \<ge> min_bpp then Inr None
              else if fdiv bits_per_pixel min_bpp < 0 then Inl ValueError
              else
                let scale_factor = fsqrt (fdiv bits_per_pixel min_bpp);
                    new_w = max 160
                      (py_int (py_floordiv (fmul (float_of_int w) scale_factor) 2 * 2));
                    new_h = max 160
                      (py_int (py_floordiv (fmul (float_of_int h) scale_factor) 2 * 2))
                in if new_w < w \<and> new_h < h then Inr (Some (new_w, new_h)) else Inr None
     | _ \<Rightarrow> Inr None)"

definition scale_filter_text :: "int \<times> int \<Rightarrow> string" where
  "scale_filter_text d = ''scale='' @ str_int (fst d) @ '':'' @ str_int (snd d) @ '':flags=lanczos''"

definition choose_scaling_for_bitrate ::
  "int option \<Rightarrow> int option \<Rightarrow> real option \<Rightarrow> int \<Rightarrow> py_error + string option" where
  "choose_scaling_for_bitrate width height fps video_kbps =
    map_sum id (map_option scale_filter_text) (choose_scaling_dims width height fps video_kbps)"

text \<open>
  The quantities of the specification (section 4.4), in the same double arithmetic: the
  pixel density, the scale factor for a density, and a dimension scaled by a factor,
  floored to an even number and kept at 160 or more.
\<close>

definition bits_per_pixel :: "int \<Rightarrow> int \<Rightarrow> real \<Rightarrow> int \<Rightarrow> real" where
  "bits_per_pixel width height frame_rate video_kbps =
     fdiv (float_of_int (video_kbps * 1000)) (fmul (float_of_int (width * height)) frame_rate)"

definition scale_factor_for :: "real \<Rightarrow> real" where
  "scale_factor_for density = fsqrt (fdiv density (fl (6 / 100)))"

definition scaled_dimension :: "int \<Rightarrow> real \<Rightarrow> int" where
  "scaled_dimension d scale_factor =
     max 160 (\<lfloor>fmul (float_of_int d) scale_factor / 2\<rfloor> * 2)"

text \<open>The resolution a call ends up with: the new dimensions, or the original ones.\<close>

definition target_resolution :: "int \<Rightarrow> int \<Rightarrow> (int \<times> int) option \<Rightarrow> int \<times> int" where
  "target_resolution w h plan = (case plan of None \<Rightarrow> (w, h) | Some d \<Rightarrow> d)"

section \<open>Encode commands\<close>

text \<open>
  A \<^verbatim>\<open>pathlib\<close> path is modelled by the three parts the library splits it into: the
  directory prefix (with its trailing separator), the stem of the file name and its last
  suffix. \<^verbatim>\<open>str(p)\<close> is their concatenation, \<^verbatim>\<open>p.name\<close> the stem and the suffix,
  and \<^verbatim>\<open>p.with_suffix(s)\<close> replaces the suffix; it raises \<^verbatim>\<open>ValueError\<close> on a path
  with an empty name.
\<close>

record path =
  path_parent :: string
  path_stem :: string
  path_suffix :: string

definition path_str :: "path \<Rightarrow> string" where
  "path_str p = path_parent p @ path_stem p @ path_suffix p"

definition path_name :: "path \<Rightarrow> string" where
  "path_name p = path_stem p @ path_suffix p"

definition with_suffix :: "path \<Rightarrow> string \<Rightarrow> py_error + path" where
  "with_suffix p s = (if path_name p = [] then Inl ValueError else Inr (p\<lparr>path_suffix := s\<rparr>))"

text \<open>
  \<^verbatim>\<open>build_two_pass_commands\<close> (src/app.py, lines 203-272). \<open>range_args\<close> is the local
  list of that name (lines 214-218), \<open>vf_args\<close> the local \<^verbatim>\<open>vf\<close> (line 213, empty for
  \<^verbatim>\<open>None\<close> and for the empty text). \<open>nt\<close> is \<^verbatim>\<open>os.name == "nt"\<close>.
\<close>

definition range_args :: "real option \<Rightarrow> real option \<Rightarrow> string list" where
  "range_args ss duration =
    (case ss of None \<Rightarrow> [] | Some s \<Rightarrow> [''-ss'', format_f 0 3 s]) @
    (case duration of None \<Rightarrow> [] | Some d \<Rightarrow> [''-t'', format_f 0 3 d])"

definition vf_args :: "string option \<Rightarrow> string list" where
  "vf_args scale_filter =
    (case scale_filter of None \<Rightarrow> [] | Some sf \<Rightarrow> if sf = [] then [] else [''-vf'', sf])"

definition build_two_pass_commands ::
  "bool \<Rightarrow> path \<Rightarrow> path \<Rightarrow> real option \<Rightarrow> real option \<Rightarrow> int \<Rightarrow> int \<Rightarrow> string option
     \<Rightarrow> py_error + (string list \<times> string list)" where
  "build_two_pass_commands nt src dst ss duration video_kbps audio_kbps scale_filter =
    (case with_suffix dst ''.log'' of
       Inl e \<Rightarrow> Inl e
     | Inr log_path \<Rightarrow>
         let logfile = path_str log_path;
             pass1 =
               [''ffmpeg'', ''-y''] @ range_args ss duration @ [''-i'', path_str src] @
               vf_args scale_filter @
               [''-c:v'', ''libx264'', ''-b:v'', str_int video_kbps @ ''k'', ''-pass'', ''1'',
                ''-preset'', ''medium'', ''-pix_fmt'', ''yuv420p'', ''-an'', ''-f'', ''mp4'',
                ''-passlogfile'', logfile, (if nt then ''NUL'' else ''/dev/null'')];
             pass2 =
               [''ffmpeg'', ''-y''] @ range_args ss duration @ [''-i'', path_str src] @
               vf_args scale_filter @
               [''-c:v'', ''libx264'', ''-b:v'', str_int video_kbps @ ''k'', ''-pass'', ''2'',
                ''-preset'', ''medium'', ''-pix_fmt'', ''yuv420p'', ''-c:a'', ''aac'', ''-b:a'',
                str_int audio_kbps @ ''k'', ''-movflags'', ''+faststart'',
                ''-passlogfile'', logfile, path_str dst]
         in Inr (pass1, pass2))"

text \<open>
  \<^verbatim>\<open>human_readable_size\<close> (src/app.py, lines 275-282); the loop divides by 1024 at most
  three times (\<open>sz\<close> is the local \<^verbatim>\<open>size\<close>).
\<close>

function human_readable_loop :: "real \<Rightarrow> nat \<Rightarrow> real \<times> nat" where
  "human_readable_loop sz unit_idx =
    (if sz \<ge> 1024 \<and> unit_idx < 3 then human_readable_loop (sz / 1024) (unit_idx + 1)
     else (sz, unit_idx))"
  by pat_completeness auto
termination
  by (relation "measure (\<lambda>(sz, unit_idx). 3 - unit_idx)") auto

declare human_readable_loop.simps [simp del]

definition human_readable_size :: "nat \<Rightarrow> string" where
  "human_readable_size bytes_size =
    (let (sz, unit_idx) = human_readable_loop (of_nat bytes_size) 0
     in format_f 0 2 sz @ '' '' @ [''B'', ''KB'', ''MB'', ''GB''] ! unit_idx)"

section \<open>Export\<close>

text \<open>
  \<^verbatim>\<open>VideoClipperApp.on_export\<close> (src/app.py, lines 452-545). What the handler reads from
  its surroundings is collected in \<open>export_env\<close>: the three entry fields, whether the
  source exists and the tools are found, the results of the two probes, the downloads
  directory (with its trailing separator), the platform, the behaviour of the external
  process for a given argument list (exit code, standard output, standard error), and the
  state of the file system after the second pass. What it does is the list of its
  \<open>event\<close>s in order: the transcoder runs, the dialogs, the status line and the file
  operations; together with the exception that ends it, if any. The refreshes of the
  window and the runs of the probe tool are not recorded.
\<close>

datatype event =
    RunCommand "string list"
  | ShowError string string
  | ShowInfo string string
  | SetStatus string
  | Mkdir string
  | Unlink string

record export_env =
  src_path :: path
  src_exists :: bool
  tools_found :: bool
  start_var :: string
  end_var :: string
  size_mb_var :: string
  probe_duration :: "real option"
  probe_resolution_fps :: "int option \<times> int option \<times> real option"
  downloads_dir :: string
  os_nt :: bool
  run_command :: "string list \<Rightarrow> int \<times> string \<times> string"
  file_exists :: "string \<Rightarrow> bool"
  unlink_fails :: "string \<Rightarrow> bool"
  stat_size :: "nat option"

text \<open>Python's \<^verbatim>\<open>a or b\<close> on two strings: the first one unless it is empty.\<close>

definition str_or :: "string \<Rightarrow> string \<Rightarrow> string" where
  "str_or a b = (if a \<noteq> [] then a else b)"

text \<open>
  Lines 516-519: \<^verbatim>\<open>pass2[insert_idx:insert_idx] = ["-ac", "1"]\<close> with
  \<^verbatim>\<open>insert_idx = len(pass2) - 1\<close> puts the two arguments before the last one.
\<close>

definition insert_mono :: "string list \<Rightarrow> string list" where
  "insert_mono pass2 =
    (let insert_idx = length pass2 - 1
     in take insert_idx pass2 @ [''-ac'', ''1''] @ drop insert_idx pass2)"

text \<open>
  Lines 526-532: the two statistics files are removed when they exist; an exception
  inside the loop ends it and is ignored.
\<close>

definition clean_pass_logs :: "export_env \<Rightarrow> path \<Rightarrow> event list" where
  "clean_pass_logs env dst =
    (case with_suffix dst ''.log'' of
       Inl e \<Rightarrow> []
     | Inr p1 \<Rightarrow>
         let rest =
               (case with_suffix dst ''.log.mbtree'' of
                  Inl e \<Rightarrow> []
                | Inr p2 \<Rightarrow> if file_exists env (path_str p2) then [Unlink (path_str p2)] else [])
         in if file_exists env (path_str p1)
            then Unlink (path_str p1) # (if unlink_fails env (path_str p1) then [] else rest)
            else rest)"

definition encoding_status :: string where
  "encoding_status =
     ''Encoding (two-pass)'' @ [CHR 0xE2, CHR 0x80, CHR 0xA6] @ '' this may take a moment'' @
     [CHR 0xE2, CHR 0x80, CHR 0xA6]"

definition size_note :: string where
  "size_note =
     ''Size differs from target by more than ~8%. This can happen for very short clips or complex content.''"

text \<open>
  Lines 511-519: the two argument lists are built with the start and the clip length,
  and the second one gets the mono option when the audio bitrate is 64 or less.
\<close>

definition export_commands ::
  "bool \<Rightarrow> path \<Rightarrow> path \<Rightarrow> real \<Rightarrow> real \<Rightarrow> int \<Rightarrow> int \<Rightarrow> string option
     \<Rightarrow> py_error + (string list \<times> string list)" where
  "export_commands nt src dst start_s clip_seconds video_kbps audio_kbps scale_filter =
    (case build_two_pass_commands nt src dst (Some start_s) (Some clip_seconds)
            video_kbps audio_kbps scale_filter of
       Inl e \<Rightarrow> Inl e
     | Inr (pass1, pass2) \<Rightarrow>
         Inr (pass1, if audio_kbps \<le> 64 then insert_mono pass2 else pass2))"

text \<open>
  Lines 520-545: the first pass, then (only after exit code 0) the second pass, the
  removal of the statistics files, and the check of the size of the output. A failing
  \<^verbatim>\<open>stat\<close> of the output is caught and leaves the status \<^verbatim>\<open>Done\<close>.
\<close>

definition run_two_passes ::
  "export_env \<Rightarrow> path \<Rightarrow> real \<Rightarrow> string list \<Rightarrow> string list \<Rightarrow> event list" where
  "run_two_passes env dst target_mb pass1 pass2 =
    (case run_command env pass1 of (code1, out1, err1) \<Rightarrow>
     if code1 \<noteq> 0 then
       [RunCommand pass1, ShowError ''ffmpeg error (pass 1)'' (str_or err1 out1)]
     else
     case run_command env pass2 of (code2, out2, err2) \<Rightarrow>
     let ran = [RunCommand pass1, RunCommand pass2] @ clean_pass_logs env dst
     in
     if code2 \<noteq> 0 then
       ran @ [ShowError ''ffmpeg error (pass 2)'' (str_or err2 out2)]
     else
     case stat_size env of
       None \<Rightarrow> ran @ [SetStatus ''Done'']
     | Some final_size \<Rightarrow>
         let target_bytes = py_int (target_mb * 1024 * 1024)
         in ran @
            [SetStatus (''Done: '' @ path_name dst @ '' ('' @ human_readable_size final_size @ '')'')] @
            (if \<bar>of_int (int final_size - target_bytes)\<bar> / of_int (max target_bytes 1)
                  > (8 / 100 :: real)
             then [ShowInfo ''Note'' size_note] else []))"

text \<open>
  Lines 499-545, from the probe of the resolution on: the values \<open>start_s\<close>, \<open>end_s\<close>,
  \<open>target_mb\<close> and \<open>clip_seconds\<close> are those the first part of the handler has computed.
  \<open>export_dst\<close> is the destination of lines 503-506.
\<close>

definition export_dst :: "export_env \<Rightarrow> real \<Rightarrow> real option \<Rightarrow> real \<Rightarrow> path" where
  "export_dst env start_s end_s target_mb =
    \<lparr>path_parent = downloads_dir env,
     path_stem = path_stem (src_path env) @ ''_trim_'' @ str_int (py_int start_s) @ ''-'' @
       (case end_s of Some e \<Rightarrow> str_int (py_int e) | None \<Rightarrow> ''end'') @
       ''_'' @ str_int (py_int target_mb) @ ''MB'',
     path_suffix = ''.mp4''\<rparr>"

definition export_encode ::
  "export_env \<Rightarrow> real \<Rightarrow> real option \<Rightarrow> real \<Rightarrow> real \<Rightarrow> event list \<times> py_error option" where
  "export_encode env start_s end_s target_mb clip_seconds =
    (case probe_resolution_fps env of (video_w, video_h, fps) \<Rightarrow>
     case compute_target_bitrates clip_seconds target_mb 48 160 default_overhead_ratio of
       Inl e \<Rightarrow> ([], Some e)
     | Inr (video_kbps, audio_kbps) \<Rightarrow>
     case choose_scaling_for_bitrate video_w video_h fps video_kbps of
       Inl e \<Rightarrow> ([], Some e)
     | Inr scale_filter \<Rightarrow>
     let dst = export_dst env start_s end_s target_mb;
         started = [Mkdir (downloads_dir env), SetStatus encoding_status]
     in
     case export_commands (os_nt env) (src_path env) dst start_s clip_seconds
            video_kbps audio_kbps scale_filter of
       Inl e \<Rightarrow> (started, Some e)
     | Inr (pass1, pass2) \<Rightarrow>
         (started @ run_two_passes env dst target_mb pass1 pass2, None))"

text \<open>
  Lines 452-498: the checks of the source, the tools and the three fields. Every failure
  shows an error dialog and ends the handler. Both probes of the duration are taken to
  give the same answer, a positive number or nothing.
\<close>

definition on_export :: "export_env \<Rightarrow> event list \<times> py_error option" where
  "on_export env =
    (if \<not> src_exists env then
       ([ShowError ''Error'' ''Please select a valid source MP4 file.''], None)
     else if \<not> tools_found env then
       ([ShowError ''Error'' ''ffmpeg/ffprobe not found on PATH. Install ffmpeg and try again.''],
        None)
     else
     case (if py_strip (start_var env) \<noteq> [] then parse_time_to_seconds (start_var env)
           else Inr 0) of
       Inl e \<Rightarrow> ([ShowError ''Error'' ''Invalid Start time format.''], None)
     | Inr start_s \<Rightarrow>
     case (if py_strip (end_var env) \<noteq> []
           then map_sum id Some (parse_time_to_seconds (py_strip (end_var env)))
           else Inr (probe_duration env)) of
       Inl e \<Rightarrow> ([ShowError ''Error'' ''Invalid End time format.''], None)
     | Inr end_s \<Rightarrow>
     if (case end_s of Some e \<Rightarrow> e < start_s | None \<Rightarrow> False) then
       ([ShowError ''Error'' ''End must be after Start.''], None)
     else
     case (case py_float (size_mb_var env) of
             Inl e \<Rightarrow> Inl e
           | Inr t \<Rightarrow> if t \<le> 0 then Inl ValueError else Inr t) of
       Inl e \<Rightarrow> ([ShowError ''Error'' ''Target size must be a positive number.''], None)
     | Inr target_mb \<Rightarrow>
     (case end_s of
        Some e \<Rightarrow> export_encode env start_s end_s target_mb (max (1 / 10) (e - start_s))
      | None \<Rightarrow>
          (case probe_duration env of
             None \<Rightarrow> ([ShowError ''Error'' ''Could not determine video duration.''], None)
           | Some video_dur \<Rightarrow>
               export_encode env start_s end_s target_mb (max (1 / 10) (video_dur - start_s)))))"

section \<open>Observations on argument lists and events\<close>

text \<open>
  \<open>has_option k v args\<close>: the option \<open>k\<close> occurs in \<open>args\<close> directly followed by the
  value \<open>v\<close>. The mono downmix is the option \<^verbatim>\<open>-ac\<close> with the value \<^verbatim>\<open>1\<close>.
\<close>

fun has_option :: "string \<Rightarrow> string \<Rightarrow> string list \<Rightarrow> bool" where
  "has_option k v (a # b # rest) = ((a = k \<and> b = v) \<or> has_option k v (b # rest))"
| "has_option k v [a] = False"
| "has_option k v [] = False"

definition mono_downmix :: "string list \<Rightarrow> bool" where
  "mono_downmix args = has_option ''-ac'' ''1'' args"

text \<open>The external commands run, in order; the error dialogs; the notes.\<close>

fun commands_run :: "event list \<Rightarrow> string list list" where
  "commands_run [] = []"
| "commands_run (RunCommand c # es) = c # commands_run es"
| "commands_run (e # es) = commands_run es"

fun error_details :: "event list \<Rightarrow> string list" where
  "error_details [] = []"
| "error_details (ShowError title detail # es) = detail # error_details es"
| "error_details (e # es) = error_details es"

fun info_notes :: "event list \<Rightarrow> string list" where
  "info_notes [] = []"
| "info_notes (ShowInfo title detail # es) = detail # info_notes es"
| "info_notes (e # es) = info_notes es"

fun statuses :: "event list \<Rightarrow> string list" where
  "statuses [] = []"
| "statuses (SetStatus s # es) = s # statuses es"
| "statuses (e # es) = statuses es"

text \<open>The deviation of the specification (section 4.6), on sizes in bytes.\<close>

definition deviation_ratio :: "nat \<Rightarrow> int \<Rightarrow> real" where
  "deviation_ratio actual target_bytes =
     \<bar>of_nat actual - of_int target_bytes\<bar> / of_int (max target_bytes 1)"

text \<open>
  A sample surrounding for concrete runs: a 1920x1080 source at 30 frames per second,
  one minute long, on a POSIX system, with a transcoder whose exit code, output and error
  text are fixed, and an output file of the given size.
\<close>

definition sample_env :: "int \<Rightarrow> string \<Rightarrow> string \<Rightarrow> nat option \<Rightarrow> export_env" where
  "sample_env code out err sz =
    \<lparr>src_path = \<lparr>path_parent = ''/videos/'', path_stem = ''clip'', path_suffix = ''.mp4''\<rparr>,
     src_exists = True,
     tools_found = True,
     start_var = ''0'',
     end_var = ''01:00.000'',
     size_mb_var = ''10'',
     probe_duration = Some 60,
     probe_resolution_fps = (Some 1920, Some 1080, Some 30),
     downloads_dir = ''/home/user/Downloads/'',
     os_nt = False,
     run_command = (\<lambda>cmd. (code, out, err)),
     file_exists = (\<lambda>p. False),
     unlink_fails = (\<lambda>p. False),
     stat_size = sz\<rparr>"

text \<open>
  The destination and the two argument lists that the handler is expected to build in
  the sample surrounding (start 0, end 01:00.000, target 10 MB): 1233 kbit/s of video,
  137 kbit/s of audio and a downscale to 1102x620.
\<close>

definition sample_dst :: path where
  "sample_dst =
    \<lparr>path_parent = ''/home/user/Downloads/'', path_stem = ''clip_trim_0-60_10MB'',
     path_suffix = ''.mp4''\<rparr>"

definition sample_pass1 :: "string list" where
  "sample_pass1 =
    [''ffmpeg'', ''-y'', ''-ss'', ''0.000'', ''-t'', ''60.000'', ''-i'', ''/videos/clip.mp4'',
     ''-vf'', ''scale=1102:620:flags=lanczos'', ''-c:v'', ''libx264'', ''-b:v'', ''1233k'',
     ''-pass'', ''1'', ''-preset'', ''medium'', ''-pix_fmt'', ''yuv420p'', ''-an'',
     ''-f'', ''mp4'', ''-passlogfile'', ''/home/user/Downloads/clip_trim_0-60_10MB.log'',
     ''/dev/null'']"

definition sample_pass2 :: "string list" where
  "sample_pass2 =
    [''ffmpeg'', ''-y'', ''-ss'', ''0.000'', ''-t'', ''60.000'', ''-i'', ''/videos/clip.mp4'',
     ''-vf'', ''scale=1102:620:flags=lanczos'', ''-c:v'', ''libx264'', ''-b:v'', ''1233k'',
     ''-pass'', ''2'', ''-preset'', ''medium'', ''-pix_fmt'', ''yuv420p'', ''-c:a'', ''aac'',
     ''-b:a'', ''137k'', ''-movflags'', ''+faststart'', ''-passlogfile'',
     ''/home/user/Downloads/clip_trim_0-60_10MB.log'',
     ''/home/user/Downloads/clip_trim_0-60_10MB.mp4'']"

section \<open>Properties of the string functions\<close>

lemma digit_cases:
  assumes "d < (10::nat)"
  shows "d = 0 \<or> d = 1 \<or> d = 2 \<or> d = 3 \<or> d = 4 \<or> d = 5 \<or> d = 6 \<or> d = 7 \<or> d = 8 \<or> d = 9"
  using assms by arith

lemma digit_val_digit_char: "d < 10 \<Longrightarrow> digit_val (digit_char d) = d"
  using digit_cases [of d] by (auto simp: digit_val_def digit_char_def)

lemma is_digit_digit_char: "d < 10 \<Longrightarrow> is_digit (digit_char d)"
  using digit_cases [of d] by (auto simp: is_digit_def digit_char_def)

lemma is_digit_not_special:
  assumes "is_digit c"
  shows "\<not> is_space c" and "c \<noteq> CHR '':''" and "c \<noteq> CHR ''.''" and "c \<noteq> CHR ''-''"
    and "c \<noteq> CHR ''+''"
  using assms by (auto simp: is_digit_def is_space_def Let_def)

lemma is_digit_zero: "is_digit CHR ''0''"
  by (simp add: is_digit_def)

lemma digit_val_zero: "digit_val CHR ''0'' = 0"
  by (simp add: digit_val_def)

lemma str_nat_digits: "list_all is_digit (str_nat n)"
proof (induction n rule: str_nat.induct)
  case (1 n)
  show ?case
  proof (cases "n < 10")
    case True
    then show ?thesis by (simp add: str_nat.simps [of n] is_digit_digit_char)
  next
    case False
    with 1 show ?thesis by (simp add: str_nat.simps [of n] is_digit_digit_char)
  qed
qed

lemma str_nat_nonempty: "str_nat n \<noteq> []"
  by (simp add: str_nat.simps [of n])

lemma digits_val_snoc: "digits_val (xs @ [c]) = 10 * digits_val xs + digit_val c"
  by (simp add: digits_val_def)

lemma digits_val_str_nat: "digits_val (str_nat n) = n"
proof (induction n rule: str_nat.induct)
  case (1 n)
  show ?case
  proof (cases "n < 10")
    case True
    then show ?thesis
      by (simp add: str_nat.simps [of n] digits_val_def digit_val_digit_char)
  next
    case False
    with 1 have "digits_val (str_nat (n div 10)) = n div 10" by simp
    with False show ?thesis
      by (simp add: str_nat.simps [of n] digits_val_snoc digit_val_digit_char)
  qed
qed

lemma digits_val_zeros: "digits_val (replicate k CHR ''0'' @ s) = digits_val s"
  by (induction k) (simp_all add: digits_val_def digit_val_zero)

lemma length_str_nat_le:
  "n < 10 ^ k \<Longrightarrow> 0 < k \<Longrightarrow> length (str_nat n) \<le> k"
proof (induction n arbitrary: k rule: str_nat.induct)
  case (1 n)
  show ?case
  proof (cases "n < 10")
    case True
    with 1(3) show ?thesis by (simp add: str_nat.simps [of n])
  next
    case False
    obtain j where j: "k = Suc j" using 1(3) by (cases k) auto
    have "0 < j"
    proof (rule ccontr)
      assume "\<not> 0 < j"
      with j 1(2) False show False by simp
    qed
    note j = j this
    with 1(2) have "n div 10 < 10 ^ j" by (simp add: less_mult_imp_div_less mult.commute)
    with 1(1) False j have "length (str_nat (n div 10)) \<le> j" by simp
    with False j show ?thesis by (simp add: str_nat.simps [of n])
  qed
qed

lemma py_strip_id:
  assumes "s \<noteq> []" and "\<not> is_space (hd s)" and "\<not> is_space (last s)"
  shows "py_strip s = s"
proof -
  from assms(1,2) have a: "dropWhile is_space s = s" by (cases s) simp_all
  from assms(1,3) have "dropWhile is_space (rev s) = rev s"
    by (cases "rev s") (simp_all add: hd_rev [symmetric])
  with a show ?thesis by (simp add: py_strip_def)
qed

lemma py_float_unsigned_digits:
  assumes "list_all is_digit D" and "D \<noteq> []"
  shows "py_float_unsigned D = Inr (of_nat (digits_val D))"
proof -
  from assms(1) have t: "takeWhile is_digit D = D" and d: "dropWhile is_digit D = []"
    by (simp_all add: list_all_iff)
  show ?thesis
    unfolding py_float_unsigned_def t d Let_def using assms(2) by simp
qed

lemma py_float_unsigned_decimal:
  assumes "list_all is_digit D1" and "D1 \<noteq> []" and "list_all is_digit D2"
  shows "py_float_unsigned (D1 @ CHR ''.'' # D2)
           = Inr (of_nat (digits_val D1) + of_nat (digits_val D2) / 10 ^ length D2)"
proof -
  have nd: "\<not> is_digit CHR ''.''" by (simp add: is_digit_def)
  from assms(1) have d1: "\<And>x. x \<in> set D1 \<Longrightarrow> is_digit x" by (simp add: list_all_iff)
  have t: "takeWhile is_digit (D1 @ CHR ''.'' # D2) = D1"
    using d1 nd by (simp add: takeWhile_append2)
  have d: "dropWhile is_digit (D1 @ CHR ''.'' # D2) = CHR ''.'' # D2"
    using d1 nd by (simp add: dropWhile_append2)
  show ?thesis
    unfolding py_float_unsigned_def t d Let_def using assms(2,3) by simp
qed

lemma py_float_unsigned_to_py_float:
  assumes "s \<noteq> []" and "is_digit (hd s)" and "\<not> is_space (last s)"
  shows "py_float s = py_float_unsigned s"
proof -
  from assms obtain c r where s: "s = c # r" by (cases s) auto
  with assms(2) have c: "is_digit c" by simp
  have "py_strip s = s"
    using assms(1,3) is_digit_not_special(1) [OF c] s by (intro py_strip_id) simp_all
  then show ?thesis
    using is_digit_not_special(4,5) [OF c] s by (simp add: py_float_def)
qed

lemma py_float_digits:
  assumes "list_all is_digit D" and "D \<noteq> []"
  shows "py_float D = Inr (of_nat (digits_val D))"
proof -
  from assms have h: "is_digit (hd D)" and l: "is_digit (last D)"
    by (auto simp: list_all_iff)
  from l have "\<not> is_space (last D)" by (rule is_digit_not_special(1))
  with assms(2) h have "py_float D = py_float_unsigned D"
    by (rule py_float_unsigned_to_py_float)
  with assms show ?thesis by (simp add: py_float_unsigned_digits)
qed

lemma py_float_decimal:
  assumes "list_all is_digit D1" and "D1 \<noteq> []" and "list_all is_digit D2" and "D2 \<noteq> []"
  shows "py_float (D1 @ CHR ''.'' # D2)
           = Inr (of_nat (digits_val D1) + of_nat (digits_val D2) / 10 ^ length D2)"
proof -
  let ?s = "D1 @ CHR ''.'' # D2"
  from assms(1,2) have h: "is_digit (hd ?s)" by (cases D1) simp_all
  from assms(3,4) have "is_digit (last ?s)" by (auto simp: list_all_iff)
  then have "\<not> is_space (last ?s)" by (rule is_digit_not_special(1))
  with h have "py_float ?s = py_float_unsigned ?s"
    by (intro py_float_unsigned_to_py_float) simp_all
  with assms(1-3) show ?thesis by (simp add: py_float_unsigned_decimal)
qed

lemma split_colon_no_colon: "CHR '':'' \<notin> set s \<Longrightarrow> split_colon s = [s]"
  by (induction s) auto

lemma split_colon_append:
  "CHR '':'' \<notin> set a \<Longrightarrow> split_colon (a @ CHR '':'' # b) = a # split_colon b"
  by (induction a) auto

lemma list_all_zeros: "list_all is_digit (replicate k CHR ''0'')"
  by (induction k) (simp_all add: is_digit_zero)

lemma zeros_digits: "list_all is_digit (replicate k CHR ''0'' @ str_nat n)"
  by (simp add: list_all_zeros str_nat_digits)

lemma format_d_nonneg:
  assumes "0 \<le> i"
  shows "list_all is_digit (format_d w i)" and "format_d w i \<noteq> []"
    and "digits_val (format_d w i) = nat i"
  using assms
  by (simp_all add: format_d_def Let_def list_all_zeros str_nat_digits str_nat_nonempty
        digits_val_zeros digits_val_str_nat)

lemma round_half_even_error: "\<bar>of_int (round_half_even y) - y\<bar> \<le> 1 / 2"
  unfolding round_half_even_def Let_def by (auto split: if_splits)

lemma round_half_even_nonneg: "0 \<le> y \<Longrightarrow> 0 \<le> round_half_even y"
  unfolding round_half_even_def Let_def by (auto split: if_splits)

lemma format_f_decimal:
  assumes "0 \<le> x" and "0 < p"
  shows "\<exists>D1 D2. format_f w p x = D1 @ CHR ''.'' # D2 \<and>
           list_all is_digit D1 \<and> D1 \<noteq> [] \<and> list_all is_digit D2 \<and> D2 \<noteq> [] \<and>
           of_nat (digits_val D1) + of_nat (digits_val D2) / 10 ^ length D2
             = (of_int (round_half_even (x * 10 ^ p)) :: real) / 10 ^ p"
proof -
  define n where "n = nat (round_half_even (\<bar>x\<bar> * 10 ^ p))"
  define frac where "frac = str_nat (n mod 10 ^ p)"
  define D2 where "D2 = replicate (p - length frac) CHR ''0'' @ frac"
  define k where "k = w - length ([]::string) - length (str_nat (n div 10 ^ p) @ CHR ''.'' # D2)"
  define D1 where "D1 = replicate k CHR ''0'' @ str_nat (n div 10 ^ p)"
  have p0: "(p = 0) = False" and xs: "(x < 0) = False" using assms by simp_all
  have fmt: "format_f w p x = D1 @ CHR ''.'' # D2"
    unfolding format_f_def Let_def D1_def k_def D2_def frac_def n_def p0 xs if_False
    by (simp only: append_Nil append_assoc append_Cons)
  have "n mod 10 ^ p < 10 ^ p" by simp
  then have "length frac \<le> p"
    unfolding frac_def using assms(2) by (rule length_str_nat_le)
  then have len: "length D2 = p" by (simp add: D2_def)
  have d2: "list_all is_digit D2" unfolding D2_def frac_def by (rule zeros_digits)
  have d1: "list_all is_digit D1" unfolding D1_def by (rule zeros_digits)
  have ne: "D1 \<noteq> []" "D2 \<noteq> []"
    using assms(2) len by (auto simp: D1_def str_nat_nonempty)
  have v1: "digits_val D1 = n div 10 ^ p"
    by (simp add: D1_def digits_val_zeros digits_val_str_nat)
  have v2: "digits_val D2 = n mod 10 ^ p"
    by (simp add: D2_def frac_def digits_val_zeros digits_val_str_nat)
  have "n div 10 ^ p * 10 ^ p + n mod 10 ^ p = n" by (rule div_mult_mod_eq)
  then have "real (n div 10 ^ p * 10 ^ p + n mod 10 ^ p) = real n" by simp
  then have "real (n div 10 ^ p) * 10 ^ p + real (n mod 10 ^ p) = real n"
    by (simp only: of_nat_add of_nat_mult of_nat_power of_nat_numeral)
  then have "real (n div 10 ^ p) + real (n mod 10 ^ p) / 10 ^ p = real n / 10 ^ p"
    by (simp add: field_simps)
  moreover have "real n = of_int (round_half_even (x * 10 ^ p))"
    using assms(1) round_half_even_nonneg [of "x * 10 ^ p"] by (simp add: n_def)
  ultimately have "of_nat (digits_val D1) + of_nat (digits_val D2) / 10 ^ length D2
             = (of_int (round_half_even (x * 10 ^ p)) :: real) / 10 ^ p"
    by (simp add: v1 v2 len)
  with fmt d1 d2 ne show ?thesis by blast
qed

section \<open>Properties of the time strings\<close>

lemma digits_no_colon: "list_all is_digit D \<Longrightarrow> CHR '':'' \<notin> set D"
  using is_digit_not_special(2) by (auto simp: list_all_iff)

lemma py_strip_digit_ends:
  assumes "s \<noteq> []" and "is_digit (hd s)" and "is_digit (last s)"
  shows "py_strip s = s"
  using assms by (intro py_strip_id is_digit_not_special(1))

lemma parse_time_two_parts:
  assumes "list_all is_digit M" and "M \<noteq> []"
    and "list_all is_digit D1" and "D1 \<noteq> []" and "list_all is_digit D2" and "D2 \<noteq> []"
  shows "parse_time_to_seconds (M @ CHR '':'' # D1 @ CHR ''.'' # D2)
           = Inr (of_nat (digits_val M) * 60
                  + (of_nat (digits_val D1) + of_nat (digits_val D2) / 10 ^ length D2))"
proof -
  let ?S = "D1 @ CHR ''.'' # D2"
  let ?t = "M @ CHR '':'' # ?S"
  have hd_t: "is_digit (hd ?t)" using assms(1,2) by (cases M) simp_all
  have last_t: "is_digit (last ?t)" using assms(5,6) by (auto simp: list_all_iff)
  have strip_t: "py_strip ?t = ?t"
    using hd_t last_t by (intro py_strip_digit_ends) simp_all
  have strip_M: "py_strip M = M"
    using assms(1,2) by (intro py_strip_digit_ends) (auto simp: list_all_iff)
  have hd_S: "is_digit (hd ?S)" using assms(3,4) by (cases D1) simp_all
  have strip_S: "py_strip ?S = ?S"
    using hd_S last_t by (intro py_strip_digit_ends) simp_all
  have colon_S: "CHR '':'' \<notin> set ?S"
    using digits_no_colon [OF assms(3)] digits_no_colon [OF assms(5)] by simp
  have split: "split_colon ?t = [M, ?S]"
    using digits_no_colon [OF assms(1)] colon_S
    by (simp add: split_colon_append split_colon_no_colon)
  have parts: "map py_strip (split_colon ?t) = [M, ?S]"
    unfolding split using strip_M strip_S by simp
  have fM: "py_float M = Inr (of_nat (digits_val M))"
    using assms(1,2) by (rule py_float_digits)
  have fS: "py_float ?S = Inr (of_nat (digits_val D1) + of_nat (digits_val D2) / 10 ^ length D2)"
    using assms(3-6) by (rule py_float_decimal)
  have ne: "(?t = []) = False" and mem: "(CHR '':'' \<in> set ?t) = True" by simp_all
  show ?thesis
    unfolding parse_time_to_seconds_def Let_def strip_t parts ne mem
    by (simp add: fM fS)
qed

lemma parse_time_three_parts:
  assumes "list_all is_digit H" and "H \<noteq> []" and "list_all is_digit M" and "M \<noteq> []"
    and "list_all is_digit D1" and "D1 \<noteq> []" and "list_all is_digit D2" and "D2 \<noteq> []"
  shows "parse_time_to_seconds (H @ CHR '':'' # M @ CHR '':'' # D1 @ CHR ''.'' # D2)
           = Inr (of_nat (digits_val H) * 3600 + of_nat (digits_val M) * 60
                  + (of_nat (digits_val D1) + of_nat (digits_val D2) / 10 ^ length D2))"
proof -
  let ?S = "D1 @ CHR ''.'' # D2"
  let ?t = "H @ CHR '':'' # M @ CHR '':'' # ?S"
  have hd_t: "is_digit (hd ?t)" using assms(1,2) by (cases H) simp_all
  have last_t: "is_digit (last ?t)" using assms(7,8) by (auto simp: list_all_iff)
  have strip_t: "py_strip ?t = ?t"
    using hd_t last_t by (intro py_strip_digit_ends) simp_all
  have strip_H: "py_strip H = H"
    using assms(1,2) by (intro py_strip_digit_ends) (auto simp: list_all_iff)
  have strip_M: "py_strip M = M"
    using assms(3,4) by (intro py_strip_digit_ends) (auto simp: list_all_iff)
  have hd_S: "is_digit (hd ?S)" using assms(5,6) by (cases D1) simp_all
  have last_S: "is_digit (last ?S)" using assms(7,8) by (auto simp: list_all_iff)
  have strip_S: "py_strip ?S = ?S"
    using hd_S last_S by (intro py_strip_digit_ends) simp_all
  have colon_S: "CHR '':'' \<notin> set ?S"
    using digits_no_colon [OF assms(5)] digits_no_colon [OF assms(7)] by simp
  have split: "split_colon ?t = [H, M, ?S]"
    using digits_no_colon [OF assms(1)] digits_no_colon [OF assms(3)] colon_S
    by (simp add: split_colon_append split_colon_no_colon)
  have parts: "map py_strip (split_colon ?t) = [H, M, ?S]"
    unfolding split using strip_H strip_M strip_S by simp
  have fH: "py_float H = Inr (of_nat (digits_val H))"
    using assms(1,2) by (rule py_float_digits)
  have fM: "py_float M = Inr (of_nat (digits_val M))"
    using assms(3,4) by (rule py_float_digits)
  have fS: "py_float ?S = Inr (of_nat (digits_val D1) + of_nat (digits_val D2) / 10 ^ length D2)"
    using assms(5-8) by (rule py_float_decimal)
  have ne: "(?t = []) = False" and mem: "(CHR '':'' \<in> set ?t) = True" by simp_all
  show ?thesis
    unfolding parse_time_to_seconds_def Let_def strip_t parts ne mem
    by (simp add: fH fM fS)
qed

lemma py_int_of_int: "py_int (of_int k) = k"
  by (simp add: py_int_def)

lemma time_fields:
  assumes "0 \<le> s"
  shows "0 \<le> py_int (py_floordiv s 3600)"
    and "0 \<le> py_int (py_floordiv (py_mod s 3600) 60)"
    and "0 \<le> py_mod s 60"
    and "of_int (py_int (py_floordiv s 3600)) * 3600
           + of_int (py_int (py_floordiv (py_mod s 3600) 60)) * 60 + py_mod s 60 = s"
proof -
  define h where "h = \<lfloor>s / 3600\<rfloor>"
  define q where "q = \<lfloor>s / 60\<rfloor>"
  have hours: "py_int (py_floordiv s 3600) = h"
    by (simp add: py_floordiv_def py_int_of_int h_def)
  have "(s - 3600 * of_int h) / 60 = s / 60 - of_int (60 * h)" by simp
  then have "\<lfloor>(s - 3600 * of_int h) / 60\<rfloor> = q - 60 * h"
    unfolding q_def by (simp only: floor_diff_of_int)
  then have "py_floordiv (py_mod s 3600) 60 = of_int (q - 60 * h)"
    unfolding py_floordiv_def py_mod_def h_def by (simp only:)
  then have minutes: "py_int (py_floordiv (py_mod s 3600) 60) = q - 60 * h"
    by (simp only: py_int_of_int)
  have seconds: "py_mod s 60 = s - 60 * of_int q"
    by (simp add: py_mod_def q_def)
  have h0: "0 \<le> h" using assms by (simp add: h_def)
  have "of_int h * 60 \<le> s / 60"
  proof -
    have "of_int h \<le> s / 3600" unfolding h_def by (rule of_int_floor_le)
    then show ?thesis by simp
  qed
  then have "of_int (60 * h) \<le> s / 60" by (simp add: mult.commute)
  then have m0: "60 * h \<le> q" unfolding q_def by (simp only: le_floor_iff)
  have "of_int q \<le> s / 60" unfolding q_def by (rule of_int_floor_le)
  then have s0: "0 \<le> s - 60 * of_int q" by simp
  show "0 \<le> py_int (py_floordiv s 3600)" using h0 hours by simp
  show "0 \<le> py_int (py_floordiv (py_mod s 3600) 60)" using m0 minutes by simp
  show "0 \<le> py_mod s 60" using s0 seconds by simp
  show "of_int (py_int (py_floordiv s 3600)) * 3600
           + of_int (py_int (py_floordiv (py_mod s 3600) 60)) * 60 + py_mod s 60 = s"
    unfolding hours minutes seconds by simp
qed

lemma format_seconds_to_time_3723: "format_seconds_to_time (7447 / 2) = ''01:02:03.500''"
  by code_simp

lemma parse_time_to_seconds_3723: "parse_time_to_seconds ''01:02:03.500'' = Inr (7447 / 2)"
  by code_simp

text \<open>
  C3: for every non-negative \<open>s\<close> below 360000 seconds, formatting \<open>s\<close> and parsing the
  text back succeeds and gives a value within 0.001 seconds of \<open>s\<close>. (The text carries the
  seconds rounded to the millisecond, so the difference is the rounding error.)
\<close>

theorem C3_time_round_trip:
  assumes "0 \<le> s" and "s < 360000"
  shows "\<exists>v. parse_time_to_seconds (format_seconds_to_time s) = Inr v \<and> \<bar>v - s\<bar> \<le> 1 / 1000"
proof -
  define h where "h = py_int (py_floordiv s 3600)"
  define m where "m = py_int (py_floordiv (py_mod s 3600) 60)"
  define sec where "sec = py_mod s 60"
  define n where "n = round_half_even (sec * 10 ^ 3)"
  have h0: "0 \<le> h" and m0: "0 \<le> m" and sec0: "0 \<le> sec"
    and sum: "of_int h * 3600 + of_int m * 60 + sec = s"
    unfolding h_def m_def sec_def using time_fields [OF assms(1)] by simp_all
  have clamp0: "(if s < 0 then 0 else s) = s" using assms(1) by simp
  have fmt: "format_seconds_to_time s =
      (if h > 0 then format_d 2 h @ CHR '':'' # format_d 2 m @ CHR '':'' # format_f 6 3 sec
       else format_d 2 m @ CHR '':'' # format_f 6 3 sec)"
    unfolding format_seconds_to_time_def Let_def clamp0 h_def m_def sec_def
    by (simp only: append_Cons append_Nil)
  obtain D1 D2 where S: "format_f 6 3 sec = D1 @ CHR ''.'' # D2"
    and D: "list_all is_digit D1" "D1 \<noteq> []" "list_all is_digit D2" "D2 \<noteq> []"
    and val: "of_nat (digits_val D1) + of_nat (digits_val D2) / 10 ^ length D2
                = (of_int n :: real) / 10 ^ 3"
    unfolding n_def using format_f_decimal [OF sec0, of 3 6] by auto
  have "\<bar>of_int n - sec * 10 ^ 3\<bar> \<le> 1 / 2"
    unfolding n_def by (rule round_half_even_error)
  then have err: "\<bar>of_int n / 10 ^ 3 - sec\<bar> \<le> 1 / 1000"
    by (simp add: abs_if split: if_splits)
  note M = format_d_nonneg [OF m0, of 2]
  note H = format_d_nonneg [OF h0, of 2]
  show ?thesis
  proof (cases "h > 0")
    case True
    then have "parse_time_to_seconds (format_seconds_to_time s)
        = parse_time_to_seconds (format_d 2 h @ CHR '':'' # format_d 2 m @ CHR '':'' # D1 @ CHR ''.'' # D2)"
      by (simp only: fmt S if_True)
    also have "\<dots> = Inr (of_nat (digits_val (format_d 2 h)) * 3600
          + of_nat (digits_val (format_d 2 m)) * 60
          + (of_nat (digits_val D1) + of_nat (digits_val D2) / 10 ^ length D2))"
      using H(1,2) M(1,2) D by (rule parse_time_three_parts)
    also have "\<dots> = Inr (of_int h * 3600 + of_int m * 60 + of_int n / 10 ^ 3)"
      using h0 m0 by (simp only: H(3) M(3) val of_nat_nat)
    finally have p: "parse_time_to_seconds (format_seconds_to_time s)
        = Inr (of_int h * 3600 + of_int m * 60 + of_int n / 10 ^ 3)" .
    have "(of_int h * 3600 + of_int m * 60 + of_int n / 10 ^ 3) - s = of_int n / 10 ^ 3 - sec"
      using sum by simp
    with err have "\<bar>(of_int h * 3600 + of_int m * 60 + of_int n / 10 ^ 3) - s\<bar> \<le> 1 / 1000"
      by (simp only:)
    with p show ?thesis by blast
  next
    case False
    with h0 have hz: "h = 0" by simp
    from False have "parse_time_to_seconds (format_seconds_to_time s)
        = parse_time_to_seconds (format_d 2 m @ CHR '':'' # D1 @ CHR ''.'' # D2)"
      by (simp only: fmt S if_False)
    also have "\<dots> = Inr (of_nat (digits_val (format_d 2 m)) * 60
          + (of_nat (digits_val D1) + of_nat (digits_val D2) / 10 ^ length D2))"
      using M(1,2) D by (rule parse_time_two_parts)
    also have "\<dots> = Inr (of_int m * 60 + of_int n / 10 ^ 3)"
      using m0 by (simp only: M(3) val of_nat_nat)
    finally have p: "parse_time_to_seconds (format_seconds_to_time s)
        = Inr (of_int m * 60 + of_int n / 10 ^ 3)" .
    have "(of_int m * 60 + of_int n / 10 ^ 3) - s = of_int n / 10 ^ 3 - sec"
      using sum hz by simp
    with err have "\<bar>(of_int m * 60 + of_int n / 10 ^ 3) - s\<bar> \<le> 1 / 1000"
      by (simp only:)
    with p show ?thesis by blast
  qed
qed

theorem C3_time_round_trip_witness:
  "(0::real) \<le> 7447 / 2 \<and> (7447 / 2 :: real) < 360000 \<and>
   format_seconds_to_time (7447 / 2) = ''01:02:03.500'' \<and>
   parse_time_to_seconds ''01:02:03.500'' = Inr (7447 / 2) \<and>
   (\<exists>v. parse_time_to_seconds (format_seconds_to_time (7447 / 2)) = Inr v \<and>
        \<bar>v - 7447 / 2\<bar> \<le> 1 / 1000)"
proof -
  have "\<exists>v. parse_time_to_seconds (format_seconds_to_time (7447 / 2)) = Inr v \<and>
        \<bar>v - 7447 / 2\<bar> \<le> 1 / 1000"
    by (rule C3_time_round_trip) simp_all
  then show ?thesis
    using format_seconds_to_time_3723 parse_time_to_seconds_3723 by simp
qed

section \<open>Properties of double precision\<close>

lemma float_exponent_iff:
  assumes "x \<noteq> 0"
  shows "float_exponent x = e \<longleftrightarrow> 2 powi e \<le> \<bar>x\<bar> \<and> \<bar>x\<bar> < 2 powi (e + 1)"
proof -
  from assms have "0 < \<bar>x\<bar>" by simp
  then have "\<lfloor>log 2 \<bar>x\<bar>\<rfloor> = e \<longleftrightarrow>
      2 powr real_of_int e \<le> \<bar>x\<bar> \<and> \<bar>x\<bar> < 2 powr real_of_int (e + 1)"
    by (rule floor_log_eq_powr_iff) simp
  then show ?thesis
    by (simp only: float_exponent_def powr_real_of_int' [of 2, simplified])
qed

lemma powi_le_abs_nonzero:
  assumes "2 powi e \<le> \<bar>x::real\<bar>"
  shows "x \<noteq> 0"
proof
  have p: "(0::real) < 2 powi e" by (rule zero_less_power_int) simp
  assume "x = 0"
  with assms have "(2::real) powi e \<le> 0" by simp
  with p show False by linarith
qed

lemma float_exponent_eqI:
  assumes "2 powi e \<le> \<bar>x\<bar>" and "\<bar>x\<bar> < 2 powi (e + 1)"
  shows "float_exponent x = e"
proof -
  have "x \<noteq> 0" using assms(1) by (rule powi_le_abs_nonzero)
  with assms show ?thesis by (simp add: float_exponent_iff)
qed

lemma float_exponent_bounds:
  assumes "x \<noteq> 0"
  shows "2 powi float_exponent x \<le> \<bar>x\<bar>" and "\<bar>x\<bar> < 2 powi (float_exponent x + 1)"
  using float_exponent_iff [OF assms, of "float_exponent x"] by simp_all

lemma round_half_even_of_int: "round_half_even (of_int k) = k"
  by (simp add: round_half_even_def)

lemma round_half_even_eqI:
  assumes "\<bar>y - of_int m\<bar> < 1 / 2"
  shows "round_half_even y = m"
proof -
  have e: "\<bar>of_int (round_half_even y) - y\<bar> \<le> 1 / 2" by (rule round_half_even_error)
  from assms e have "\<bar>real_of_int (round_half_even y) - of_int m\<bar> < 1" by linarith
  then have "\<bar>real_of_int (round_half_even y - m)\<bar> < 1" by simp
  then have "\<bar>round_half_even y - m\<bar> < 1" by linarith
  then show ?thesis by simp
qed

lemma round_half_even_mono:
  assumes "y1 \<le> y2"
  shows "round_half_even y1 \<le> round_half_even y2"
proof (cases "\<lfloor>y1\<rfloor> = \<lfloor>y2\<rfloor>")
  case True
  with assms show ?thesis
    unfolding round_half_even_def Let_def by (auto split: if_splits)
next
  case False
  with assms have "\<lfloor>y1\<rfloor> < \<lfloor>y2\<rfloor>" using floor_mono [of y1 y2] by linarith
  moreover have "round_half_even y1 \<le> \<lfloor>y1\<rfloor> + 1"
    unfolding round_half_even_def Let_def by (auto split: if_splits)
  moreover have "\<lfloor>y2\<rfloor> \<le> round_half_even y2"
    unfolding round_half_even_def Let_def by (auto split: if_splits)
  ultimately show ?thesis by linarith
qed

lemma powi_split:
  "(2::real) powi e = 2 ^ 52 * 2 powi (e - 52)"
  "(2::real) powi (e + 1) = 2 ^ 53 * 2 powi (e - 52)"
proof -
  have "(2::real) powi (52 + (e - 52)) = 2 powi 52 * 2 powi (e - 52)"
    by (rule power_int_add) simp
  then show "(2::real) powi e = 2 ^ 52 * 2 powi (e - 52)" by simp
  have "(2::real) powi (53 + (e - 52)) = 2 powi 53 * 2 powi (e - 52)"
    by (rule power_int_add) simp
  then show "(2::real) powi (e + 1) = 2 ^ 53 * 2 powi (e - 52)" by (simp add: add.commute)
qed

lemma ulp_pos: "(0::real) < 2 powi k"
  by (rule zero_less_power_int) simp

lemma fl_0: "fl 0 = 0"
  by (simp add: fl_def)

lemma fl_unfold:
  assumes "2 powi e \<le> \<bar>x\<bar>" and "\<bar>x\<bar> < 2 powi (e + 1)"
  shows "fl x = of_int (round_half_even (x / 2 powi (e - 52))) * 2 powi (e - 52)"
proof -
  have e: "float_exponent x = e" using assms by (rule float_exponent_eqI)
  have "x \<noteq> 0" using assms(1) by (rule powi_le_abs_nonzero)
  then show ?thesis by (simp add: fl_def e)
qed

lemma mantissa_range_pos:
  fixes x :: real
  assumes "2 powi e \<le> x" and "x < 2 powi (e + 1)"
  shows "2 ^ 52 \<le> x / 2 powi (e - 52)" and "x / 2 powi (e - 52) < 2 ^ 53"
proof -
  note u = ulp_pos [of "e - 52"]
  from assms(1) have "(2::real) ^ 52 * 2 powi (e - 52) \<le> x" by (simp only: powi_split(1) [symmetric])
  then show "2 ^ 52 \<le> x / 2 powi (e - 52)" using u by (simp add: pos_le_divide_eq)
  from assms(2) have "x < (2::real) ^ 53 * 2 powi (e - 52)" by (simp only: powi_split(2) [symmetric])
  then show "x / 2 powi (e - 52) < 2 ^ 53" using u by (simp add: pos_divide_less_eq)
qed

lemma fl_pos_mantissa:
  assumes "2 powi e \<le> x" and "x < 2 powi (e + 1)"
  shows "fl x = of_int (round_half_even (x / 2 powi (e - 52))) * 2 powi (e - 52)"
    and "2 ^ 52 \<le> round_half_even (x / 2 powi (e - 52))"
    and "round_half_even (x / 2 powi (e - 52)) \<le> 2 ^ 53"
proof -
  have pos: "0 < x" using assms(1) ulp_pos [of e] by linarith
  then have a: "\<bar>x\<bar> = x" by simp
  show "fl x = of_int (round_half_even (x / 2 powi (e - 52))) * 2 powi (e - 52)"
    using assms by (intro fl_unfold) (simp_all add: a)
  note m = mantissa_range_pos [OF assms]
  have "round_half_even (of_int (2 ^ 52)) \<le> round_half_even (x / 2 powi (e - 52))"
    using m(1) by (intro round_half_even_mono) simp
  then show "2 ^ 52 \<le> round_half_even (x / 2 powi (e - 52))"
    by (simp only: round_half_even_of_int)
  have "round_half_even (x / 2 powi (e - 52)) \<le> round_half_even (of_int (2 ^ 53))"
    using m(2) by (intro round_half_even_mono) simp
  then show "round_half_even (x / 2 powi (e - 52)) \<le> 2 ^ 53"
    by (simp only: round_half_even_of_int)
qed

lemma fl_pos_bounds:
  assumes "2 powi e \<le> x" and "x < 2 powi (e + 1)"
  shows "2 powi e \<le> fl x" and "fl x \<le> 2 powi (e + 1)"
proof -
  note m = fl_pos_mantissa [OF assms]
  note u = ulp_pos [of "e - 52"]
  have "real_of_int (2 ^ 52) \<le> of_int (round_half_even (x / 2 powi (e - 52)))"
    using m(2) by (simp only: of_int_le_iff)
  then have "(2::real) ^ 52 * 2 powi (e - 52)
      \<le> of_int (round_half_even (x / 2 powi (e - 52))) * 2 powi (e - 52)"
    using u by (intro mult_right_mono) simp_all
  then show "2 powi e \<le> fl x" by (simp only: m(1) powi_split(1) [symmetric])
  have "real_of_int (round_half_even (x / 2 powi (e - 52))) \<le> of_int (2 ^ 53)"
    using m(3) by (simp only: of_int_le_iff)
  then have "of_int (round_half_even (x / 2 powi (e - 52))) * 2 powi (e - 52)
      \<le> (2::real) ^ 53 * 2 powi (e - 52)"
    using u by (intro mult_right_mono) simp_all
  then show "fl x \<le> 2 powi (e + 1)" by (simp only: m(1) powi_split(2) [symmetric])
qed

lemma round_half_even_minus: "round_half_even (- y) = - round_half_even y"
proof (cases "y = of_int \<lfloor>y\<rfloor>")
  case True
  then obtain k where "y = of_int k" ..
  then have "- y = of_int (- k)" by simp
  then show ?thesis unfolding \<open>y = of_int k\<close> by (simp only: round_half_even_of_int)
next
  case False
  then have lt: "of_int \<lfloor>y\<rfloor> < y" using of_int_floor_le [of y] by linarith
  have up: "y < of_int \<lfloor>y\<rfloor> + 1" by linarith
  have "\<lfloor>- y\<rfloor> = - \<lfloor>y\<rfloor> - 1"
  proof (rule floor_unique)
    have "real_of_int (- \<lfloor>y\<rfloor> - 1) = - real_of_int \<lfloor>y\<rfloor> - 1" by simp
    then show "of_int (- \<lfloor>y\<rfloor> - 1) \<le> - y" using up by linarith
    have "real_of_int (- \<lfloor>y\<rfloor> - 1) + 1 = - real_of_int \<lfloor>y\<rfloor>" by simp
    then show "- y < of_int (- \<lfloor>y\<rfloor> - 1) + 1" using lt by linarith
  qed
  then show ?thesis
    unfolding round_half_even_def Let_def using lt by (auto split: if_splits)
qed

lemma float_exponent_minus: "float_exponent (- x) = float_exponent x"
  by (simp add: float_exponent_def)

lemma fl_minus: "fl (- x) = - fl x"
  by (simp add: fl_def float_exponent_minus round_half_even_minus)

lemma fl_pos: "0 < x \<Longrightarrow> 0 < fl x"
proof -
  assume x: "0 < x"
  then have nz: "x \<noteq> 0" and a: "\<bar>x\<bar> = x" by simp_all
  from float_exponent_bounds [OF nz] a
  have "2 powi float_exponent x \<le> x" and "x < 2 powi (float_exponent x + 1)" by simp_all
  then have "2 powi float_exponent x \<le> fl x" by (rule fl_pos_bounds)
  with ulp_pos [of "float_exponent x"] show "0 < fl x" by linarith
qed

lemma fl_neg: "x < 0 \<Longrightarrow> fl x < 0"
  using fl_pos [of "- x"] by (simp add: fl_minus)

lemma fl_nonneg: "0 \<le> x \<Longrightarrow> 0 \<le> fl x"
  using fl_pos [of x] by (cases "x = 0") (simp_all add: fl_0)

lemma fl_eq_0_iff: "fl x = 0 \<longleftrightarrow> x = 0"
  using fl_pos [of x] fl_neg [of x] by (cases "x = 0"; cases "0 < x") (auto simp: fl_0)

lemma fl_mono_pos:
  assumes "0 < x" and "x \<le> y"
  shows "fl x \<le> fl y"
proof -
  from assms have y: "0 < y" by simp
  let ?ex = "float_exponent x" and ?ey = "float_exponent y"
  have bx: "2 powi ?ex \<le> x" "x < 2 powi (?ex + 1)"
    using float_exponent_bounds [of x] assms(1) by simp_all
  have by': "2 powi ?ey \<le> y" "y < 2 powi (?ey + 1)"
    using float_exponent_bounds [of y] y by simp_all
  have le: "?ex \<le> ?ey"
  proof (rule ccontr)
    assume "\<not> ?ex \<le> ?ey"
    then have "?ey + 1 \<le> ?ex" by simp
    then have "(2::real) powi (?ey + 1) \<le> 2 powi ?ex" by (intro power_int_increasing) simp_all
    with bx(1) by'(2) assms(2) show False by linarith
  qed
  show ?thesis
  proof (cases "?ex = ?ey")
    case True
    have "x / 2 powi (?ex - 52) \<le> y / 2 powi (?ex - 52)"
      using assms(2) ulp_pos [of "?ex - 52"] by (simp add: divide_right_mono)
    then have "round_half_even (x / 2 powi (?ex - 52)) \<le> round_half_even (y / 2 powi (?ex - 52))"
      by (rule round_half_even_mono)
    then have "real_of_int (round_half_even (x / 2 powi (?ex - 52)))
        \<le> of_int (round_half_even (y / 2 powi (?ex - 52)))" by (simp only: of_int_le_iff)
    then have "real_of_int (round_half_even (x / 2 powi (?ex - 52))) * 2 powi (?ex - 52)
        \<le> real_of_int (round_half_even (y / 2 powi (?ex - 52))) * 2 powi (?ex - 52)"
      using ulp_pos [of "?ex - 52"] by (intro mult_right_mono) simp_all
    then show ?thesis
      using fl_pos_mantissa(1) [OF bx] fl_pos_mantissa(1) [OF by'] True by simp
  next
    case False
    with le have "?ex + 1 \<le> ?ey" by simp
    then have "(2::real) powi (?ex + 1) \<le> 2 powi ?ey" by (intro power_int_increasing) simp_all
    with fl_pos_bounds(2) [OF bx] fl_pos_bounds(1) [OF by'] show ?thesis by linarith
  qed
qed

lemma fl_mono:
  assumes "x \<le> y"
  shows "fl x \<le> fl y"
proof (cases "0 < x")
  case True
  then show ?thesis using assms by (rule fl_mono_pos)
next
  case nx: False
  show ?thesis
  proof (cases "y < 0")
    case True
    with assms have "0 < - y" and "- y \<le> - x" by simp_all
    then have "fl (- y) \<le> fl (- x)" by (rule fl_mono_pos)
    then show ?thesis by (simp add: fl_minus)
  next
    case False
    then have "0 \<le> fl y" by (intro fl_nonneg) simp
    moreover have "fl x \<le> 0"
      using nx fl_neg [of x] by (cases "x = 0") (simp_all add: fl_0)
    ultimately show ?thesis by linarith
  qed
qed

lemma fl_eqI:
  assumes "2 powi e \<le> x" and "x < 2 powi (e + 1)"
    and "\<bar>x / 2 powi (e - 52) - of_int m\<bar> < 1 / 2"
  shows "fl x = of_int m * 2 powi (e - 52)"
  using fl_pos_mantissa(1) [OF assms(1,2)] round_half_even_eqI [OF assms(3)] by simp

lemma float_exponent_scale:
  assumes "x \<noteq> 0"
  shows "float_exponent (x * 2 powi k) = float_exponent x + k"
proof (rule float_exponent_eqI)
  note b = float_exponent_bounds [OF assms]
  have p: "(0::real) < 2 powi k" by (rule ulp_pos)
  have a: "\<bar>x * 2 powi k\<bar> = \<bar>x\<bar> * 2 powi k" using p by (simp add: abs_mult)
  have "(2::real) powi (float_exponent x + k) = 2 powi float_exponent x * 2 powi k"
    by (rule power_int_add) simp
  also have "\<dots> \<le> \<bar>x\<bar> * 2 powi k" using b(1) p by (intro mult_right_mono) simp_all
  finally show "2 powi (float_exponent x + k) \<le> \<bar>x * 2 powi k\<bar>" by (simp only: a)
  have "\<bar>x\<bar> * 2 powi k < 2 powi (float_exponent x + 1) * 2 powi k"
    using b(2) p by (intro mult_strict_right_mono) simp_all
  also have "\<dots> = (2::real) powi (float_exponent x + 1 + k)"
    by (rule power_int_add [symmetric]) simp
  finally show "\<bar>x * 2 powi k\<bar> < 2 powi (float_exponent x + k + 1)"
    by (simp only: a) (simp add: add.commute add.left_commute)
qed

lemma fl_scale: "fl (x * 2 powi k) = fl x * 2 powi k"
proof (cases "x = 0")
  case True
  then show ?thesis by (simp add: fl_0)
next
  case False
  have p: "(2::real) powi k \<noteq> 0" using ulp_pos [of k] by simp
  then have nz: "x * 2 powi k \<noteq> 0" using False by simp
  have u: "(2::real) powi (float_exponent x + k - 52) = 2 powi (float_exponent x - 52) * 2 powi k"
  proof -
    have "(2::real) powi ((float_exponent x - 52) + k) = 2 powi (float_exponent x - 52) * 2 powi k"
      by (rule power_int_add) simp
    then show ?thesis by (simp add: algebra_simps)
  qed
  have q: "x * 2 powi k / (2 powi (float_exponent x - 52) * 2 powi k)
             = x / 2 powi (float_exponent x - 52)"
    using p by simp
  show ?thesis
    using False nz
    by (simp only: fl_def float_exponent_scale [OF False] u q if_False mult.assoc)
qed

lemma fl_representable:
  assumes "\<bar>m\<bar> < 2 ^ 53"
  shows "fl (of_int m * 2 powi k) = of_int m * 2 powi k"
proof (cases "m = 0")
  case True
  then show ?thesis by (simp add: fl_0)
next
  case False
  define x where "x = real_of_int m * 2 powi k"
  define e where "e = float_exponent x"
  have pk: "(0::real) < 2 powi k" by (rule ulp_pos)
  have nz: "x \<noteq> 0" using False pk by (simp add: x_def)
  have b: "2 powi e \<le> \<bar>x\<bar>" unfolding e_def using nz by (rule float_exponent_bounds)
  have ax: "\<bar>x\<bar> = real_of_int \<bar>m\<bar> * 2 powi k" using pk by (simp add: x_def abs_mult)
  have "real_of_int \<bar>m\<bar> < real_of_int (2 ^ 53)" using assms by (simp only: of_int_less_iff)
  then have "real_of_int \<bar>m\<bar> < 2 ^ 53" by simp
  then have "real_of_int \<bar>m\<bar> * 2 powi k < 2 ^ 53 * 2 powi k"
    using pk by (intro mult_strict_right_mono)
  also have "\<dots> = (2::real) powi (53 + k)"
  proof -
    have "(2::real) powi (53 + k) = 2 powi 53 * 2 powi k" by (rule power_int_add) simp
    then show ?thesis by simp
  qed
  finally have lt: "(2::real) powi e < 2 powi (53 + k)" using b ax by linarith
  have j: "0 \<le> k - e + 52"
  proof (rule ccontr)
    assume "\<not> 0 \<le> k - e + 52"
    then have "53 + k \<le> e" by simp
    then have "(2::real) powi (53 + k) \<le> 2 powi e" by (intro power_int_increasing) simp_all
    with lt show False by linarith
  qed
  define n where "n = nat (k - e + 52)"
  have kn: "k = (e - 52) + int n" using j by (simp add: n_def)
  have "(2::real) powi ((e - 52) + int n) = 2 powi (e - 52) * 2 powi int n"
    by (rule power_int_add) simp
  then have pk2: "(2::real) powi k = 2 powi (e - 52) * 2 ^ n"
    by (simp only: kn [symmetric] power_int_of_nat)
  have u: "(0::real) < 2 powi (e - 52)" by (rule ulp_pos)
  have xe: "x = real_of_int (m * 2 ^ n) * 2 powi (e - 52)"
    unfolding x_def pk2 by simp
  then have "x / 2 powi (e - 52) = real_of_int (m * 2 ^ n)"
    using u by simp
  then have "round_half_even (x / 2 powi (e - 52)) = m * 2 ^ n"
    by (simp only: round_half_even_of_int)
  then have "fl x = real_of_int (m * 2 ^ n) * 2 powi (e - 52)"
    using nz by (simp only: fl_def e_def [symmetric] if_False)
  then have "fl x = x" by (simp only: xe [symmetric])
  then show ?thesis by (simp only: x_def)
qed

lemma fl_of_int: "\<bar>i\<bar> < 2 ^ 53 \<Longrightarrow> fl (of_int i) = of_int i"
  using fl_representable [of i 0] by simp

lemma fl_idem_pos:
  assumes "0 < x"
  shows "fl (fl x) = fl x"
proof -
  let ?e = "float_exponent x"
  have b: "2 powi ?e \<le> x" "x < 2 powi (?e + 1)"
    using float_exponent_bounds [of x] assms by simp_all
  note m = fl_pos_mantissa [OF b]
  let ?m = "round_half_even (x / 2 powi (?e - 52))"
  show ?thesis
  proof (cases "?m = 2 ^ 53")
    case True
    then have "fl x = 2 ^ 53 * 2 powi (?e - 52)" using m(1) by simp
    then have "fl x = 2 powi (?e + 1)" by (simp only: powi_split(2) [symmetric])
    then have "fl x = real_of_int 1 * 2 powi (?e + 1)" by simp
    moreover have "fl (real_of_int 1 * 2 powi (?e + 1)) = real_of_int 1 * 2 powi (?e + 1)"
      by (rule fl_representable) simp
    ultimately show ?thesis by simp
  next
    case False
    with m(2,3) have "\<bar>?m\<bar> < 2 ^ 53" by simp
    then have "fl (of_int ?m * 2 powi (?e - 52)) = of_int ?m * 2 powi (?e - 52)"
      by (rule fl_representable)
    then show ?thesis by (simp only: m(1) [symmetric])
  qed
qed

lemma fl_idem: "fl (fl x) = fl x"
proof (cases "0 < x")
  case True
  then show ?thesis by (rule fl_idem_pos)
next
  case False
  show ?thesis
  proof (cases "x = 0")
    case True
    then show ?thesis by (simp add: fl_0)
  next
    case nz: False
    with False have "0 < - x" by simp
    then have "fl (fl (- x)) = fl (- x)" by (rule fl_idem_pos)
    then show ?thesis by (simp add: fl_minus)
  qed
qed

lemma round_half_even_tieI:
  assumes "\<bar>y - of_int m\<bar> = 1 / 2" and "even m"
  shows "round_half_even y = m"
proof -
  from assms(1) consider "y = of_int m + 1 / 2" | "y = of_int m - 1 / 2" by linarith
  then show ?thesis
  proof cases
    case 1
    have f: "\<lfloor>y\<rfloor> = m" unfolding 1 by (rule floor_unique) simp_all
    have d: "y - of_int m = 1 / 2" unfolding 1 by simp
    show ?thesis unfolding round_half_even_def Let_def f d using assms(2) by simp
  next
    case 2
    have f: "\<lfloor>y\<rfloor> = m - 1" unfolding 2 by (rule floor_unique) simp_all
    have d: "y - of_int (m - 1) = 1 / 2" unfolding 2 by simp
    show ?thesis unfolding round_half_even_def Let_def f d using assms(2) by simp
  qed
qed

lemma fl_tieI:
  assumes "2 powi e \<le> x" and "x < 2 powi (e + 1)"
    and "\<bar>x / 2 powi (e - 52) - of_int m\<bar> = 1 / 2" and "even m"
  shows "fl x = of_int m * 2 powi (e - 52)"
  using fl_pos_mantissa(1) [OF assms(1,2)] round_half_even_tieI [OF assms(3,4)] by simp

lemma float_of_int_small: "\<bar>i\<bar> < 2 ^ 53 \<Longrightarrow> float_of_int i = of_int i"
  by (simp add: float_of_int_def fl_of_int)

lemma float_of_int_sign:
  "0 < i \<Longrightarrow> 0 < float_of_int i" "i < 0 \<Longrightarrow> float_of_int i < 0"
  "0 \<le> i \<Longrightarrow> 0 \<le> float_of_int i" "float_of_int i = 0 \<longleftrightarrow> i = 0"
  by (simp_all add: float_of_int_def fl_pos fl_neg fl_nonneg fl_eq_0_iff)

lemma float_of_int_mono: "i \<le> j \<Longrightarrow> float_of_int i \<le> float_of_int j"
  by (simp add: float_of_int_def fl_mono)

lemma fsqrt_eqI:
  assumes "0 < m" and "(2 powi e)\<^sup>2 \<le> z" and "z < (2 powi (e + 1))\<^sup>2"
    and "((of_int m - 1 / 2) * 2 powi (e - 52))\<^sup>2 < z"
    and "z < ((of_int m + 1 / 2) * 2 powi (e - 52))\<^sup>2"
  shows "fsqrt z = of_int m * 2 powi (e - 52)"
proof -
  have z0: "0 \<le> z" using assms(2) by (meson order_trans zero_le_power2)
  have u: "(0::real) < 2 powi (e - 52)" by (rule ulp_pos)
  have lo: "2 powi e \<le> sqrt z" using assms(2) by (rule real_le_rsqrt)
  have hi: "sqrt z < 2 powi (e + 1)"
    using z0 ulp_pos [of "e + 1"] assms(3) by (intro real_less_lsqrt) simp_all
  have m1: "(of_int m - 1 / 2) * 2 powi (e - 52) < sqrt z"
    using assms(4) by (rule real_less_rsqrt)
  have "0 \<le> (real_of_int m + 1 / 2) * 2 powi (e - 52)" using assms(1) u by simp
  then have m2: "sqrt z < (of_int m + 1 / 2) * 2 powi (e - 52)"
    using z0 assms(5) by (intro real_less_lsqrt) simp_all
  define U :: real where "U = 2 powi (e - 52)"
  have U: "0 < U" using u by (simp add: U_def)
  have a: "of_int m * U - U / 2 < sqrt z" using m1 by (simp add: U_def algebra_simps)
  have b: "sqrt z < of_int m * U + U / 2" using m2 by (simp add: U_def algebra_simps)
  have "sqrt z / U - of_int m = (sqrt z - of_int m * U) / U" using U by (simp add: field_simps)
  moreover have "\<bar>(sqrt z - of_int m * U) / U\<bar> < 1 / 2"
  proof -
    have "\<bar>sqrt z - of_int m * U\<bar> < U / 2" using a b by linarith
    then have "\<bar>sqrt z - of_int m * U\<bar> / U < (U / 2) / U"
      using U by (simp add: divide_strict_right_mono)
    then show ?thesis using U by simp
  qed
  ultimately have "\<bar>sqrt z / 2 powi (e - 52) - of_int m\<bar> < 1 / 2"
    by (simp add: U_def)
  with lo hi show ?thesis unfolding fsqrt_def by (rule fl_eqI)
qed

section \<open>Properties of the allocation\<close>

lemma clamp_py: "max (min x hi) lo = clamp x lo hi"
  by (simp add: clamp_def max.commute min.commute)

lemma fl_scale_numerals:
  "fl (x * 1024) = fl x * 1024" "fl (x * 8) = fl x * 8" "fl (x * 8388608) = fl x * 8388608"
  using fl_scale [of x 10] fl_scale [of x 3] fl_scale [of x 23] by simp_all

lemma fmul_powers_of_two: "fmul (fmul (fmul t 1024) 1024) 8 = fmul t 8388608"
proof -
  have "fmul (fmul (fmul t 1024) 1024) 8 = fl t * 1024 * 1024 * 8"
    by (simp only: fmul_def fl_scale_numerals fl_idem)
  moreover have "fmul t 8388608 = fl t * 8388608"
    by (simp only: fmul_def fl_scale_numerals)
  ultimately show ?thesis by simp
qed

lemma compute_target_bitrates_allocate:
  "compute_target_bitrates c t mn mx r =
     (if c = 0 then Inl ZeroDivisionError else Inr (allocate py_int c t mn mx r))"
proof -
  have tenth: "(1::real) / 10 = 10 / 100" by simp
  have mbit: "(1000::real) * 1000 = 1000000" by simp
  show ?thesis
    unfolding compute_target_bitrates_def allocate_def clamp_py fmul_powers_of_two tenth mbit
    by (simp only: Let_def if_True if_False split: if_splits)
qed

lemma allocate_shape:
  "\<exists>x y. allocate rnd c t mn mx r = (max x 100, clamp y mn mx)"
  unfolding allocate_def Let_def by (intro exI) (rule refl)

lemma compute_target_bitrates_bounds:
  assumes "compute_target_bitrates c t mn mx r = Inr (v, a)"
  shows "100 \<le> v" and "mn \<le> a" and "mn \<le> mx \<Longrightarrow> a \<le> mx"
proof -
  have va: "allocate py_int c t mn mx r = (v, a)"
    using assms by (cases "c = 0") (simp_all add: compute_target_bitrates_allocate)
  obtain x y where "allocate py_int c t mn mx r = (max x 100, clamp y mn mx)"
    using allocate_shape by blast
  with va have v: "v = max x 100" and a: "a = clamp y mn mx" by simp_all
  show "100 \<le> v" using v by simp
  show "mn \<le> a" using a by (simp add: clamp_def)
  show "mn \<le> mx \<Longrightarrow> a \<le> mx" using a by (simp add: clamp_def)
qed

lemma allocate_steps:
  assumes "tb = fmul (fmul t 8388608) r"
    and "g = clamp (fmul tb (fl (10 / 100))) (fmul (float_of_int (mn * 1000)) c)
               (fmul (float_of_int (mx * 1000)) c)"
    and "a = clamp (rnd (fdiv (fdiv g 1000) c)) mn mx"
    and "vb = max (fsub tb (fmul (float_of_int (a * 1000)) c)) 1000000"
    and "v = max (rnd (fdiv (fdiv vb 1000) c)) 100"
  shows "allocate rnd c t mn mx r = (v, a)"
  unfolding allocate_def Let_def assms by (rule refl)

subsection \<open>Sample allocations\<close>

text \<open>
  The constants \<^verbatim>\<open>0.1\<close>, \<^verbatim>\<open>0.98\<close> and \<^verbatim>\<open>0.06\<close> as doubles, and the allocation
  evaluated operation by operation for a one-second clip of 1 MB, a one-minute clip of
  10 MB and a clip of 47.99 seconds of 10 MB. In the last one the audio guess divided by
  the clip length is the double just below 160, so the audio bitrate is 159 where
  exact arithmetic would give 160.
\<close>

lemma double_tenth: "fl (1 / 10) = 3602879701896397 / 36028797018963968"
proof -
  have "fl (1 / 10) = of_int 7205759403792794 * 2 powi ((- 4) - 52)"
    by (rule fl_eqI) simp_all
  then show ?thesis by simp
qed

lemma double_overhead: "fl (49 / 50) = 2206763817411543 / 2251799813685248"
proof -
  have "fl (49 / 50) = of_int 8827055269646172 * 2 powi ((- 1) - 52)"
    by (rule fl_eqI) simp_all
  then show ?thesis by simp
qed

lemma double_min_bpp: "fl (3 / 50) = 1080863910568919 / 18014398509481984"
proof -
  have "fl (3 / 50) = of_int 8646911284551352 * 2 powi ((- 5) - 52)"
    by (rule fl_eqI) simp_all
  then show ?thesis by simp
qed

lemma alloc_1_1_megabits: "fmul 1 8388608 = 8388608"
proof -
  have "fl (1 * 8388608) = of_int 4503599627370496 * 2 powi (23 - 52)"
    by (rule fl_eqI) simp_all
  then show ?thesis by (simp add: fmul_def)
qed

lemma alloc_1_1_target_bits:
  "fmul 8388608 (2206763817411543 / 2251799813685248)
   = 2206763817411543 / 268435456"
proof -
  have "fl (8388608 * (2206763817411543 / 2251799813685248))
          = of_int 8827055269646172 * 2 powi (22 - 52)"
    by (rule fl_eqI) simp_all
  then show ?thesis by (simp add: fmul_def)
qed

lemma alloc_1_1_tenth:
  "fmul (2206763817411543 / 268435456) (3602879701896397 / 36028797018963968)
   = 3530822107858469 / 4294967296"
proof -
  have "fl ((2206763817411543 / 268435456) * (3602879701896397 / 36028797018963968))
          = of_int 7061644215716938 * 2 powi (19 - 52)"
    by (rule fl_eqI) simp_all
  then show ?thesis by (simp add: fmul_def)
qed

lemma alloc_1_1_audio_ceiling: "fmul 160000 1 = 160000"
proof -
  have "fl (160000 * 1) = of_int 5497558138880000 * 2 powi (17 - 52)"
    by (rule fl_eqI) simp_all
  then show ?thesis by (simp add: fmul_def)
qed

lemma alloc_1_1_audio_floor: "fmul 48000 1 = 48000"
proof -
  have "fl (48000 * 1) = of_int 6597069766656000 * 2 powi (15 - 52)"
    by (rule fl_eqI) simp_all
  then show ?thesis by (simp add: fmul_def)
qed

lemma alloc_1_1_audio_kbits: "fdiv 160000 1000 = 160"
proof -
  have "fl (160000 / 1000) = of_int 5629499534213120 * 2 powi (7 - 52)"
    by (rule fl_eqI) simp_all
  then show ?thesis by (simp add: fdiv_def)
qed

lemma alloc_1_1_audio_rate: "fdiv 160 1 = 160"
proof -
  have "fl (160 / 1) = of_int 5629499534213120 * 2 powi (7 - 52)"
    by (rule fl_eqI) simp_all
  then show ?thesis by (simp add: fdiv_def)
qed

lemma alloc_1_1_video_bits:
  "fsub (2206763817411543 / 268435456) 160000
   = 2163814144451543 / 268435456"
proof -
  have "fl ((2206763817411543 / 268435456) - 160000)
          = of_int 8655256577806172 * 2 powi (22 - 52)"
    by (rule fl_eqI) simp_all
  then show ?thesis by (simp add: fsub_def)
qed

lemma alloc_1_1_video_kbits:
  "fdiv (2163814144451543 / 268435456) 1000
   = 553936420979595 / 68719476736"
proof -
  have "fl ((2163814144451543 / 268435456) / 1000) = of_int 8862982735673520 * 2 powi (12 - 52)"
    by (rule fl_eqI) simp_all
  then show ?thesis by (simp add: fdiv_def)
qed

lemma alloc_1_1_video_rate:
  "fdiv (553936420979595 / 68719476736) 1
   = 553936420979595 / 68719476736"
proof -
  have "fl ((553936420979595 / 68719476736) / 1) = of_int 8862982735673520 * 2 powi (12 - 52)"
    by (rule fl_eqI) simp_all
  then show ?thesis by (simp add: fdiv_def)
qed

lemma allocate_py_int_1_1:
  "allocate py_int 1 1 48 160 default_overhead_ratio = (8060, 160)"
  by (rule allocate_steps
        [where tb = "2206763817411543 / 268435456"
           and g = "160000"
           and vb = "2163814144451543 / 268435456"])
     (simp_all add:
       default_overhead_ratio_def clamp_def py_int_def float_of_int_small double_tenth
       double_overhead alloc_1_1_megabits alloc_1_1_target_bits alloc_1_1_tenth
       alloc_1_1_audio_ceiling alloc_1_1_audio_floor alloc_1_1_audio_kbits
       alloc_1_1_audio_rate alloc_1_1_video_bits alloc_1_1_video_kbits alloc_1_1_video_rate)

lemma allocate_round_1_1:
  "allocate round 1 1 48 160 default_overhead_ratio = (8061, 160)"
  by (rule allocate_steps
        [where tb = "2206763817411543 / 268435456"
           and g = "160000"
           and vb = "2163814144451543 / 268435456"])
     (simp_all add:
       default_overhead_ratio_def clamp_def round_def float_of_int_small double_tenth
       double_overhead alloc_1_1_megabits alloc_1_1_target_bits alloc_1_1_tenth
       alloc_1_1_audio_ceiling alloc_1_1_audio_floor alloc_1_1_audio_kbits
       alloc_1_1_audio_rate alloc_1_1_video_bits alloc_1_1_video_kbits alloc_1_1_video_rate)

lemma alloc_60_10_megabits: "fmul 10 8388608 = 83886080"
proof -
  have "fl (10 * 8388608) = of_int 5629499534213120 * 2 powi (26 - 52)"
    by (rule fl_eqI) simp_all
  then show ?thesis by (simp add: fmul_def)
qed

lemma alloc_60_10_target_bits:
  "fmul 83886080 (2206763817411543 / 2251799813685248)
   = 2758454771764429 / 33554432"
proof -
  have "fl (83886080 * (2206763817411543 / 2251799813685248))
          = of_int 5516909543528858 * 2 powi (26 - 52)"
    by (rule fl_tieI) simp_all
  then show ?thesis by (simp add: fmul_def)
qed

lemma alloc_60_10_tenth:
  "fmul (2758454771764429 / 33554432) (3602879701896397 / 36028797018963968)
   = 8827055269646173 / 1073741824"
proof -
  have "fl ((2758454771764429 / 33554432) * (3602879701896397 / 36028797018963968))
          = of_int 8827055269646173 * 2 powi (22 - 52)"
    by (rule fl_eqI) simp_all
  then show ?thesis by (simp add: fmul_def)
qed

lemma alloc_60_10_audio_ceiling: "fmul 160000 60 = 9600000"
proof -
  have "fl (160000 * 60) = of_int 5153960755200000 * 2 powi (23 - 52)"
    by (rule fl_eqI) simp_all
  then show ?thesis by (simp add: fmul_def)
qed

lemma alloc_60_10_audio_floor: "fmul 48000 60 = 2880000"
proof -
  have "fl (48000 * 60) = of_int 6184752906240000 * 2 powi (21 - 52)"
    by (rule fl_eqI) simp_all
  then show ?thesis by (simp add: fmul_def)
qed

lemma alloc_60_10_audio_kbits:
  "fdiv (8827055269646173 / 1073741824) 1000
   = 4519452298058841 / 549755813888"
proof -
  have "fl ((8827055269646173 / 1073741824) / 1000)
          = of_int 4519452298058841 * 2 powi (13 - 52)"
    by (rule fl_eqI) simp_all
  then show ?thesis by (simp add: fdiv_def)
qed

lemma alloc_60_10_audio_rate:
  "fdiv (4519452298058841 / 549755813888) 60
   = 2410374558964715 / 17592186044416"
proof -
  have "fl ((4519452298058841 / 549755813888) / 60) = of_int 4820749117929430 * 2 powi (7 - 52)"
    by (rule fl_eqI) simp_all
  then show ?thesis by (simp add: fdiv_def)
qed

lemma alloc_60_10_audio_bits: "fmul 137000 60 = 8220000"
proof -
  have "fl (137000 * 60) = of_int 8826157793280000 * 2 powi (22 - 52)"
    by (rule fl_eqI) simp_all
  then show ?thesis by (simp add: fmul_def)
qed

lemma alloc_60_10_video_bits:
  "fsub (2758454771764429 / 33554432) 8220000
   = 2482637340724429 / 33554432"
proof -
  have "fl ((2758454771764429 / 33554432) - 8220000)
          = of_int 4965274681448858 * 2 powi (26 - 52)"
    by (rule fl_eqI) simp_all
  then show ?thesis by (simp add: fsub_def)
qed

lemma alloc_60_10_video_kbits:
  "fdiv (2482637340724429 / 33554432) 1000
   = 5084441273803631 / 68719476736"
proof -
  have "fl ((2482637340724429 / 33554432) / 1000) = of_int 5084441273803631 * 2 powi (16 - 52)"
    by (rule fl_eqI) simp_all
  then show ?thesis by (simp add: fdiv_def)
qed

lemma alloc_60_10_video_rate:
  "fdiv (5084441273803631 / 68719476736) 60
   = 1355851006347635 / 1099511627776"
proof -
  have "fl ((5084441273803631 / 68719476736) / 60) = of_int 5423404025390540 * 2 powi (10 - 52)"
    by (rule fl_eqI) simp_all
  then show ?thesis by (simp add: fdiv_def)
qed

lemma allocate_py_int_60_10:
  "allocate py_int 60 10 48 160 default_overhead_ratio = (1233, 137)"
  by (rule allocate_steps
        [where tb = "2758454771764429 / 33554432"
           and g = "8827055269646173 / 1073741824"
           and vb = "2482637340724429 / 33554432"])
     (simp_all add:
       default_overhead_ratio_def clamp_def py_int_def float_of_int_small double_tenth
       double_overhead alloc_60_10_megabits alloc_60_10_target_bits alloc_60_10_tenth
       alloc_60_10_audio_ceiling alloc_60_10_audio_floor alloc_60_10_audio_kbits
       alloc_60_10_audio_rate alloc_60_10_audio_bits alloc_60_10_video_bits
       alloc_60_10_video_kbits alloc_60_10_video_rate)

lemma double_4799: "fl (4799 / 100) = 6753992066172191 / 140737488355328"
proof -
  have "fl (4799 / 100) = of_int 6753992066172191 * 2 powi (5 - 52)"
    by (rule fl_eqI) simp_all
  then show ?thesis by simp
qed

lemma alloc_4799_10_audio_ceiling: "fmul 160000 (6753992066172191 / 140737488355328) = 7678400"
proof -
  have "fl (160000 * (6753992066172191 / 140737488355328))
          = of_int 8244619221401600 * 2 powi (22 - 52)"
    by (rule fl_eqI) simp_all
  then show ?thesis by (simp add: fmul_def)
qed

lemma alloc_4799_10_audio_floor: "fmul 48000 (6753992066172191 / 140737488355328) = 2303520"
proof -
  have "fl (48000 * (6753992066172191 / 140737488355328))
          = of_int 4946771532840960 * 2 powi (21 - 52)"
    by (rule fl_eqI) simp_all
  then show ?thesis by (simp add: fmul_def)
qed

lemma alloc_4799_10_audio_kbits: "fdiv 7678400 1000 = 4221245041357619 / 549755813888"
proof -
  have "fl (7678400 / 1000) = of_int 8442490082715238 * 2 powi (12 - 52)"
    by (rule fl_eqI) simp_all
  then show ?thesis by (simp add: fdiv_def)
qed

lemma alloc_4799_10_audio_rate:
  "fdiv (4221245041357619 / 549755813888) (6753992066172191 / 140737488355328)
   = 5629499534213119 / 35184372088832"
proof -
  have "fl ((4221245041357619 / 549755813888) / (6753992066172191 / 140737488355328))
          = of_int 5629499534213119 * 2 powi (7 - 52)"
    by (rule fl_eqI) simp_all
  then show ?thesis by (simp add: fdiv_def)
qed

lemma alloc_4799_10_audio_bits: "fmul 159000 (6753992066172191 / 140737488355328) = 7630410"
proof -
  have "fl (159000 * (6753992066172191 / 140737488355328))
          = of_int 8193090351267840 * 2 powi (22 - 52)"
    by (rule fl_eqI) simp_all
  then show ?thesis by (simp add: fmul_def)
qed

lemma alloc_4799_10_video_bits:
  "fsub (2758454771764429 / 33554432) 7630410
   = 2502420698287309 / 33554432"
proof -
  have "fl ((2758454771764429 / 33554432) - 7630410)
          = of_int 5004841396574618 * 2 powi (26 - 52)"
    by (rule fl_eqI) simp_all
  then show ?thesis by (simp add: fsub_def)
qed

lemma alloc_4799_10_video_kbits:
  "fdiv (2502420698287309 / 33554432) 1000
   = 5124957590092409 / 68719476736"
proof -
  have "fl ((2502420698287309 / 33554432) / 1000) = of_int 5124957590092409 * 2 powi (16 - 52)"
    by (rule fl_eqI) simp_all
  then show ?thesis by (simp add: fdiv_def)
qed

lemma alloc_4799_10_video_rate:
  "fdiv (5124957590092409 / 68719476736) (6753992066172191 / 140737488355328)
   = 6834700682765455 / 4398046511104"
proof -
  have "fl ((5124957590092409 / 68719476736) / (6753992066172191 / 140737488355328))
          = of_int 6834700682765455 * 2 powi (10 - 52)"
    by (rule fl_eqI) simp_all
  then show ?thesis by (simp add: fdiv_def)
qed

lemma allocate_py_int_4799_10:
  "allocate py_int (fl (4799 / 100)) 10 48 160 default_overhead_ratio = (1554, 159)"
  by (rule allocate_steps
        [where tb = "2758454771764429 / 33554432"
           and g = "7678400"
           and vb = "2502420698287309 / 33554432"])
     (simp_all add:
       default_overhead_ratio_def clamp_def py_int_def float_of_int_small double_tenth
       double_overhead double_4799 alloc_60_10_megabits alloc_60_10_target_bits
       alloc_60_10_tenth alloc_4799_10_audio_ceiling alloc_4799_10_audio_floor
       alloc_4799_10_audio_kbits alloc_4799_10_audio_rate alloc_4799_10_audio_bits
       alloc_4799_10_video_bits alloc_4799_10_video_kbits alloc_4799_10_video_rate)

lemma compute_target_bitrates_1_1:
  "compute_target_bitrates 1 1 48 160 default_overhead_ratio = Inr (8060, 160)"
  unfolding compute_target_bitrates_allocate allocate_py_int_1_1 by simp

lemma compute_target_bitrates_60_10:
  "compute_target_bitrates 60 10 48 160 default_overhead_ratio = Inr (1233, 137)"
  unfolding compute_target_bitrates_allocate allocate_py_int_60_10 by simp

subsection \<open>The five steps of the allocation\<close>

text \<open>
  C1 (as stated, with rounding to the nearest integer) fails: a one-second clip with a
  target of 1 MB has 8060835.84 bits left for video, and the code returns 8060 kbit/s
  where rounding to nearest gives 8061.
\<close>

theorem C1_rounding_counterexample:
  "compute_target_bitrates 1 1 48 160 default_overhead_ratio = Inr (8060, 160) \<and>
   allocate round 1 1 48 160 default_overhead_ratio = (8061, 160) \<and>
   compute_target_bitrates 1 1 48 160 default_overhead_ratio
     \<noteq> Inr (allocate round 1 1 48 160 default_overhead_ratio)"
  unfolding compute_target_bitrates_1_1 allocate_round_1_1 by simp

text \<open>
  C1 (amended): for every \<open>clip_seconds > 0\<close> and \<open>target_size_mb > 0\<close> the code computes
  exactly the five steps of the specification (target bits with the 0.98 overhead ratio,
  the clamped audio guess, the clamped audio bitrate, the video bits with their floor of
  1,000,000 and the video bitrate with its floor of 100), every operation in double
  precision, where the conversion to an integer is Python's \<^verbatim>\<open>int\<close>: it drops the
  fractional part instead of rounding to nearest.
\<close>

theorem C1_allocate_truncating:
  assumes "0 < clip_seconds" and "0 < target_size_mb"
  shows "compute_target_bitrates clip_seconds target_size_mb min_audio_kbps max_audio_kbps
           default_overhead_ratio
         = Inr (allocate py_int clip_seconds target_size_mb min_audio_kbps max_audio_kbps
                  default_overhead_ratio)"
proof -
  from assms(1) have "clip_seconds \<noteq> 0" by simp
  then show ?thesis
    by (simp only: compute_target_bitrates_allocate if_False)
qed

theorem C1_allocate_truncating_witness:
  "(0::real) < fl (4799 / 100) \<and> (0::real) < 10 \<and>
   compute_target_bitrates (fl (4799 / 100)) 10 48 160 default_overhead_ratio
     = Inr (1554, 159)"
proof -
  have c: "(0::real) < fl (4799 / 100)" by (simp add: double_4799)
  have "compute_target_bitrates (fl (4799 / 100)) 10 48 160 default_overhead_ratio
          = Inr (allocate py_int (fl (4799 / 100)) 10 48 160 default_overhead_ratio)"
    using c by (intro C1_allocate_truncating) simp_all
  then have "compute_target_bitrates (fl (4799 / 100)) 10 48 160 default_overhead_ratio
          = Inr (1554, 159)"
    by (simp only: allocate_py_int_4799_10)
  with c show ?thesis by simp
qed

subsection \<open>Bounds of the plan\<close>

text \<open>
  C2: for every \<open>clip_seconds > 0\<close> and \<open>target_size_mb > 0\<close>, and every valid pair of
  audio bounds (\<open>min_audio_kbps \<le> max_audio_kbps\<close>, the defaults 48 and 160 among them),
  the call returns a plan whose audio bitrate lies in \<open>[min_audio_kbps, max_audio_kbps]\<close>
  and whose video bitrate is at least 100, whatever the overhead ratio.
\<close>

theorem C2_bitrate_bounds:
  assumes "0 < clip_seconds" and "0 < target_size_mb"
    and "min_audio_kbps \<le> max_audio_kbps"
  shows "\<exists>video_kbps audio_kbps.
           compute_target_bitrates clip_seconds target_size_mb min_audio_kbps max_audio_kbps
             overhead = Inr (video_kbps, audio_kbps) \<and>
           min_audio_kbps \<le> audio_kbps \<and> audio_kbps \<le> max_audio_kbps \<and>
           100 \<le> video_kbps"
proof -
  obtain v a where
    va: "allocate py_int clip_seconds target_size_mb min_audio_kbps max_audio_kbps overhead
           = (v, a)"
    by (cases "allocate py_int clip_seconds target_size_mb min_audio_kbps max_audio_kbps
                 overhead")
  have r: "compute_target_bitrates clip_seconds target_size_mb min_audio_kbps max_audio_kbps
             overhead = Inr (v, a)"
    using assms(1) va by (simp add: compute_target_bitrates_allocate)
  have "100 \<le> v" and "min_audio_kbps \<le> a" and "a \<le> max_audio_kbps"
    using compute_target_bitrates_bounds [OF r] assms(3) by simp_all
  with r show ?thesis by blast
qed

theorem C2_bitrate_bounds_witness:
  "(0::real) < 60 \<and> (0::real) < 10 \<and> (48::int) \<le> 160 \<and>
   (\<exists>video_kbps audio_kbps.
      compute_target_bitrates 60 10 48 160 default_overhead_ratio
        = Inr (video_kbps, audio_kbps) \<and>
      48 \<le> audio_kbps \<and> audio_kbps \<le> 160 \<and> 100 \<le> video_kbps)"
proof -
  have "\<exists>video_kbps audio_kbps.
      compute_target_bitrates 60 10 48 160 default_overhead_ratio
        = Inr (video_kbps, audio_kbps) \<and>
      48 \<le> audio_kbps \<and> audio_kbps \<le> 160 \<and> 100 \<le> video_kbps"
    by (rule C2_bitrate_bounds) simp_all
  then show ?thesis by simp
qed

section \<open>Properties of the downscale decision\<close>

lemma min_bpp_pos: "0 < fl (6 / 100)"
  by (rule fl_pos) simp

lemma choose_scaling_dims_absent:
  "choose_scaling_dims None height fps k = Inr None"
  "choose_scaling_dims width None fps k = Inr None"
  "choose_scaling_dims width height None k = Inr None"
  by (simp_all add: choose_scaling_dims_def split: option.splits)

lemma choose_scaling_dims_falsy:
  "choose_scaling_dims (Some 0) height fps k = Inr None"
  "choose_scaling_dims width (Some 0) fps k = Inr None"
  "f \<le> 0 \<Longrightarrow> choose_scaling_dims width height (Some f) k = Inr None"
  by (simp_all add: choose_scaling_dims_def split: option.splits)

lemma even_floor_dimension:
  "py_int (py_floordiv x 2 * 2) = \<lfloor>x / 2\<rfloor> * 2"
proof -
  have "py_floordiv x 2 * 2 = of_int (\<lfloor>x / 2\<rfloor> * 2)" by (simp add: py_floordiv_def)
  then show ?thesis by (simp only: py_int_of_int)
qed

lemma divisor_nonzero:
  assumes "w \<noteq> 0" and "h \<noteq> 0" and "0 < f"
  shows "fmul (float_of_int (w * h)) f \<noteq> 0"
  using assms by (simp add: fmul_def fl_eq_0_iff float_of_int_sign(4))

lemma divisor_pos:
  assumes "0 < w" and "0 < h" and "0 < f"
  shows "0 < fmul (float_of_int (w * h)) f"
proof -
  have "0 < w * h" using assms by simp
  then have "0 < float_of_int (w * h)" by (rule float_of_int_sign)
  then show ?thesis unfolding fmul_def using assms(3) by (intro fl_pos) simp
qed

lemma fdiv_min_bpp_neg: "fdiv b (fl (6 / 100)) < 0 \<longleftrightarrow> b < 0"
proof -
  note p = min_bpp_pos
  show ?thesis
  proof
    assume "fdiv b (fl (6 / 100)) < 0"
    then have "\<not> 0 \<le> b / fl (6 / 100)"
      unfolding fdiv_def using fl_nonneg [of "b / fl (6 / 100)"] by linarith
    then show "b < 0" using p by (simp add: not_le divide_less_0_iff)
  next
    assume "b < 0"
    then have "b / fl (6 / 100) < 0" using p by (simp add: divide_less_0_iff)
    then show "fdiv b (fl (6 / 100)) < 0" unfolding fdiv_def by (rule fl_neg)
  qed
qed

lemma choose_scaling_dims_present:
  assumes "w \<noteq> 0" and "h \<noteq> 0" and "0 < f"
  shows "choose_scaling_dims (Some w) (Some h) (Some f) k =
    (if bits_per_pixel w h f k \<ge> fl (6 / 100) then Inr None
     else if bits_per_pixel w h f k < 0 then Inl ValueError
     else if scaled_dimension w (scale_factor_for (bits_per_pixel w h f k)) < w \<and>
             scaled_dimension h (scale_factor_for (bits_per_pixel w h f k)) < h
          then Inr (Some (scaled_dimension w (scale_factor_for (bits_per_pixel w h f k)),
                          scaled_dimension h (scale_factor_for (bits_per_pixel w h f k))))
          else Inr None)"
proof -
  have guard: "(w = 0 \<or> h = 0 \<or> f = 0 \<or> f \<le> 0) = False" using assms by simp
  have divisor: "(fmul (float_of_int (w * h)) f = 0) = False"
    using divisor_nonzero [OF assms] by simp
  have bpp: "fdiv (float_of_int (k * 1000)) (fmul (float_of_int (w * h)) f)
               = bits_per_pixel w h f k"
    by (simp add: bits_per_pixel_def)
  have sf: "\<And>b. fsqrt (fdiv b (fl (6 / 100))) = scale_factor_for b"
    by (simp add: scale_factor_for_def)
  show ?thesis
    unfolding choose_scaling_dims_def prod.case option.case guard divisor if_False Let_def bpp
      fdiv_min_bpp_neg sf even_floor_dimension scaled_dimension_def
    by (rule refl)
qed

lemma scaled_dimension_props: "160 \<le> scaled_dimension d s" "even (scaled_dimension d s)"
  by (simp_all add: scaled_dimension_def max_def)

lemma scaled_dimension_mono:
  assumes "0 \<le> d" and "s1 \<le> s2"
  shows "scaled_dimension d s1 \<le> scaled_dimension d s2"
proof -
  have "0 \<le> float_of_int d" using assms(1) by (rule float_of_int_sign)
  then have "float_of_int d * s1 \<le> float_of_int d * s2"
    using assms(2) by (rule mult_left_mono [rotated])
  then have "fmul (float_of_int d) s1 \<le> fmul (float_of_int d) s2"
    unfolding fmul_def by (rule fl_mono)
  then have "fmul (float_of_int d) s1 / 2 \<le> fmul (float_of_int d) s2 / 2" by simp
  then have "\<lfloor>fmul (float_of_int d) s1 / 2\<rfloor> \<le> \<lfloor>fmul (float_of_int d) s2 / 2\<rfloor>"
    by (rule floor_mono)
  then show ?thesis by (simp add: scaled_dimension_def)
qed

lemma scale_factor_for_mono:
  assumes "b1 \<le> b2"
  shows "scale_factor_for b1 \<le> scale_factor_for b2"
proof -
  have "b1 / fl (6 / 100) \<le> b2 / fl (6 / 100)"
    using assms min_bpp_pos by (simp add: divide_right_mono)
  then have "fdiv b1 (fl (6 / 100)) \<le> fdiv b2 (fl (6 / 100))"
    unfolding fdiv_def by (rule fl_mono)
  then have "sqrt (fdiv b1 (fl (6 / 100))) \<le> sqrt (fdiv b2 (fl (6 / 100)))" by simp
  then show ?thesis unfolding scale_factor_for_def fsqrt_def by (rule fl_mono)
qed

lemma bits_per_pixel_mono:
  assumes "0 < w" and "0 < h" and "0 < f" and "k1 \<le> k2"
  shows "bits_per_pixel w h f k1 \<le> bits_per_pixel w h f k2"
proof -
  note d = divisor_pos [OF assms(1-3)]
  have "float_of_int (k1 * 1000) \<le> float_of_int (k2 * 1000)"
    using assms(4) by (intro float_of_int_mono) simp
  then have "float_of_int (k1 * 1000) / fmul (float_of_int (w * h)) f
      \<le> float_of_int (k2 * 1000) / fmul (float_of_int (w * h)) f"
    using d by (simp add: divide_right_mono)
  then show ?thesis unfolding bits_per_pixel_def fdiv_def by (rule fl_mono)
qed

lemma bits_per_pixel_nonneg:
  assumes "0 < w" and "0 < h" and "0 < f" and "0 \<le> k"
  shows "0 \<le> bits_per_pixel w h f k"
proof -
  note d = divisor_pos [OF assms(1-3)]
  have "0 \<le> float_of_int (k * 1000)" using assms(4) by (intro float_of_int_sign) simp
  then have "0 \<le> float_of_int (k * 1000) / fmul (float_of_int (w * h)) f"
    using d by simp
  then show ?thesis unfolding bits_per_pixel_def fdiv_def by (rule fl_nonneg)
qed

lemma choose_scaling_dims_Some:
  assumes "choose_scaling_dims width height fps k = Inr (Some (a, b))"
  shows "\<exists>w h f. width = Some w \<and> height = Some h \<and> fps = Some f \<and> w \<noteq> 0 \<and> h \<noteq> 0 \<and> 0 < f \<and>
           0 \<le> bits_per_pixel w h f k \<and> bits_per_pixel w h f k < fl (6 / 100) \<and>
           a = scaled_dimension w (scale_factor_for (bits_per_pixel w h f k)) \<and>
           b = scaled_dimension h (scale_factor_for (bits_per_pixel w h f k)) \<and>
           a < w \<and> b < h"
proof -
  obtain w where w: "width = Some w"
    using assms by (cases width) (simp_all add: choose_scaling_dims_absent)
  obtain h where h: "height = Some h"
    using assms by (cases height) (simp_all add: choose_scaling_dims_absent)
  obtain f where f: "fps = Some f"
    using assms by (cases fps) (simp_all add: choose_scaling_dims_absent)
  have w0: "w \<noteq> 0" using assms w by (auto simp: choose_scaling_dims_falsy)
  have h0: "h \<noteq> 0" using assms h by (auto simp: choose_scaling_dims_falsy)
  have f0: "0 < f"
    using assms f choose_scaling_dims_falsy(3) [of f width height k] by (cases "f \<le> 0") auto
  show ?thesis
    using assms unfolding w h f choose_scaling_dims_present [OF w0 h0 f0]
    by (auto simp: w0 h0 f0 split: if_splits)
qed

subsection \<open>Sample decisions\<close>

text \<open>
  The decision for a 1920x1080 source at 30 frames per second, evaluated operation by
  operation at 300, 600, 1233, 2312 and 8000 kbit/s. At 2312 kbit/s the product of the
  height and the scale factor is the double just below 850, so the new height is 848
  where exact arithmetic would give 850.
\<close>

lemma p1080_pixels_per_second: "fmul 2073600 30 = 62208000"
proof -
  have "fl (2073600 * 30) = of_int 8349416423424000 * 2 powi (25 - 52)"
    by (rule fl_eqI) simp_all
  then show ?thesis by (simp add: fmul_def)
qed

lemma p1080_300_density: "fdiv 300000 62208000 = 5559999539963575 / 1152921504606846976"
proof -
  have "fl (300000 / 62208000) = of_int 5559999539963575 * 2 powi ((- 8) - 52)"
    by (rule fl_eqI) simp_all
  then show ?thesis by (simp add: fdiv_def)
qed

lemma p1080_300_ratio:
  "fdiv (5559999539963575 / 1152921504606846976) (1080863910568919 / 18014398509481984)
   = 2895833093731029 / 36028797018963968"
proof -
  have "fl ((5559999539963575 / 1152921504606846976)
            / (1080863910568919 / 18014398509481984))
          = of_int 5791666187462058 * 2 powi ((- 4) - 52)"
    by (rule fl_eqI) simp_all
  then show ?thesis by (simp add: fdiv_def)
qed

lemma p1080_300_scale_factor:
  "fsqrt (2895833093731029 / 36028797018963968)
   = 638398211391561 / 2251799813685248"
proof -
  have "fsqrt (2895833093731029 / 36028797018963968)
          = of_int 5107185691132488 * 2 powi ((- 2) - 52)"
    by (rule fsqrt_eqI) (simp_all add: power2_eq_square)
  then show ?thesis by simp
qed

lemma p1080_300_width:
  "fmul 1920 (638398211391561 / 2251799813685248)
   = 1196996646359177 / 2199023255552"
proof -
  have "fl (1920 * (638398211391561 / 2251799813685248))
          = of_int 4787986585436708 * 2 powi (9 - 52)"
    by (rule fl_tieI) simp_all
  then show ?thesis by (simp add: fmul_def)
qed

lemma p1080_300_height:
  "fmul 1080 (638398211391561 / 2251799813685248)
   = 673310613577037 / 2199023255552"
proof -
  have "fl (1080 * (638398211391561 / 2251799813685248))
          = of_int 5386484908616296 * 2 powi (8 - 52)"
    by (rule fl_eqI) simp_all
  then show ?thesis by (simp add: fmul_def)
qed

lemma bits_per_pixel_1080p_300:
  "bits_per_pixel 1920 1080 30 300
   = 5559999539963575 / 1152921504606846976"
  by (simp add: bits_per_pixel_def float_of_int_small p1080_pixels_per_second p1080_300_density)

lemma scale_factor_for_1080p_300:
  "scale_factor_for (5559999539963575 / 1152921504606846976)
     = 638398211391561 / 2251799813685248"
  by (simp add: scale_factor_for_def double_min_bpp p1080_300_ratio p1080_300_scale_factor)

lemma scaled_width_1080p_300:
  "scaled_dimension 1920 (638398211391561 / 2251799813685248) = 544"
  by (simp add: scaled_dimension_def float_of_int_small p1080_300_width)

lemma scaled_height_1080p_300:
  "scaled_dimension 1080 (638398211391561 / 2251799813685248) = 306"
  by (simp add: scaled_dimension_def float_of_int_small p1080_300_height)

lemma choose_scaling_dims_1080p_300:
  "choose_scaling_dims (Some 1920) (Some 1080) (Some 30) 300 = Inr (Some (544, 306))"
proof -
  have "choose_scaling_dims (Some 1920) (Some 1080) (Some 30) 300 =
    (if bits_per_pixel 1920 1080 30 300 \<ge> fl (6 / 100) then Inr None
     else if bits_per_pixel 1920 1080 30 300 < 0 then Inl ValueError
     else if scaled_dimension 1920
               (scale_factor_for (bits_per_pixel 1920 1080 30 300)) < 1920 \<and>
             scaled_dimension 1080
               (scale_factor_for (bits_per_pixel 1920 1080 30 300)) < 1080
          then Inr (Some (scaled_dimension 1920
               (scale_factor_for (bits_per_pixel 1920 1080 30 300)),
                          scaled_dimension 1080
               (scale_factor_for (bits_per_pixel 1920 1080 30 300))))
          else Inr None)"
    by (rule choose_scaling_dims_present) simp_all
  then show ?thesis
    unfolding bits_per_pixel_1080p_300 scale_factor_for_1080p_300
      scaled_width_1080p_300 scaled_height_1080p_300
    by (simp add: double_min_bpp)
qed

lemma p1080_600_density: "fdiv 600000 62208000 = 5559999539963575 / 576460752303423488"
proof -
  have "fl (600000 / 62208000) = of_int 5559999539963575 * 2 powi ((- 7) - 52)"
    by (rule fl_eqI) simp_all
  then show ?thesis by (simp add: fdiv_def)
qed

lemma p1080_600_ratio:
  "fdiv (5559999539963575 / 576460752303423488) (1080863910568919 / 18014398509481984)
   = 2895833093731029 / 18014398509481984"
proof -
  have "fl ((5559999539963575 / 576460752303423488)
            / (1080863910568919 / 18014398509481984))
          = of_int 5791666187462058 * 2 powi ((- 3) - 52)"
    by (rule fl_eqI) simp_all
  then show ?thesis by (simp add: fdiv_def)
qed

lemma p1080_600_scale_factor:
  "fsqrt (2895833093731029 / 18014398509481984)
   = 7222651269957373 / 18014398509481984"
proof -
  have "fsqrt (2895833093731029 / 18014398509481984)
          = of_int 7222651269957373 * 2 powi ((- 2) - 52)"
    by (rule fsqrt_eqI) (simp_all add: power2_eq_square)
  then show ?thesis by simp
qed

lemma p1080_600_width:
  "fmul 1920 (7222651269957373 / 18014398509481984)
   = 6771235565585037 / 8796093022208"
proof -
  have "fl (1920 * (7222651269957373 / 18014398509481984))
          = of_int 6771235565585037 * 2 powi (9 - 52)"
    by (rule fl_eqI) simp_all
  then show ?thesis by (simp add: fmul_def)
qed

lemma p1080_600_height:
  "fmul 1080 (7222651269957373 / 18014398509481984)
   = 7617640011283167 / 17592186044416"
proof -
  have "fl (1080 * (7222651269957373 / 18014398509481984))
          = of_int 7617640011283167 * 2 powi (8 - 52)"
    by (rule fl_eqI) simp_all
  then show ?thesis by (simp add: fmul_def)
qed

lemma bits_per_pixel_1080p_600:
  "bits_per_pixel 1920 1080 30 600
   = 5559999539963575 / 576460752303423488"
  by (simp add: bits_per_pixel_def float_of_int_small p1080_pixels_per_second p1080_600_density)

lemma scale_factor_for_1080p_600:
  "scale_factor_for (5559999539963575 / 576460752303423488)
     = 7222651269957373 / 18014398509481984"
  by (simp add: scale_factor_for_def double_min_bpp p1080_600_ratio p1080_600_scale_factor)

lemma scaled_width_1080p_600:
  "scaled_dimension 1920 (7222651269957373 / 18014398509481984) = 768"
  by (simp add: scaled_dimension_def float_of_int_small p1080_600_width)

lemma scaled_height_1080p_600:
  "scaled_dimension 1080 (7222651269957373 / 18014398509481984) = 432"
  by (simp add: scaled_dimension_def float_of_int_small p1080_600_height)

lemma choose_scaling_dims_1080p_600:
  "choose_scaling_dims (Some 1920) (Some 1080) (Some 30) 600 = Inr (Some (768, 432))"
proof -
  have "choose_scaling_dims (Some 1920) (Some 1080) (Some 30) 600 =
    (if bits_per_pixel 1920 1080 30 600 \<ge> fl (6 / 100) then Inr None
     else if bits_per_pixel 1920 1080 30 600 < 0 then Inl ValueError
     else if scaled_dimension 1920
               (scale_factor_for (bits_per_pixel 1920 1080 30 600)) < 1920 \<and>
             scaled_dimension 1080
               (scale_factor_for (bits_per_pixel 1920 1080 30 600)) < 1080
          then Inr (Some (scaled_dimension 1920
               (scale_factor_for (bits_per_pixel 1920 1080 30 600)),
                          scaled_dimension 1080
               (scale_factor_for (bits_per_pixel 1920 1080 30 600))))
          else Inr None)"
    by (rule choose_scaling_dims_present) simp_all
  then show ?thesis
    unfolding bits_per_pixel_1080p_600 scale_factor_for_1080p_600
      scaled_width_1080p_600 scaled_height_1080p_600
    by (simp add: double_min_bpp)
qed

lemma p1080_1233_density: "fdiv 1233000 62208000 = 2856449763656287 / 144115188075855872"
proof -
  have "fl (1233000 / 62208000) = of_int 5712899527312574 * 2 powi ((- 6) - 52)"
    by (rule fl_eqI) simp_all
  then show ?thesis by (simp add: fdiv_def)
qed

lemma p1080_1233_ratio:
  "fdiv (2856449763656287 / 144115188075855872) (1080863910568919 / 18014398509481984)
   = 5950937007617265 / 18014398509481984"
proof -
  have "fl ((2856449763656287 / 144115188075855872)
            / (1080863910568919 / 18014398509481984))
          = of_int 5950937007617265 * 2 powi ((- 2) - 52)"
    by (rule fl_eqI) simp_all
  then show ?thesis by (simp add: fdiv_def)
qed

lemma p1080_1233_scale_factor:
  "fsqrt (5950937007617265 / 18014398509481984)
   = 647116654017197 / 1125899906842624"
proof -
  have "fsqrt (5950937007617265 / 18014398509481984)
          = of_int 5176933232137576 * 2 powi ((- 1) - 52)"
    by (rule fsqrt_eqI) (simp_all add: power2_eq_square)
  then show ?thesis by simp
qed

lemma p1080_1233_width:
  "fmul 1920 (647116654017197 / 1125899906842624)
   = 2426687452564489 / 2199023255552"
proof -
  have "fl (1920 * (647116654017197 / 1125899906842624))
          = of_int 4853374905128978 * 2 powi (10 - 52)"
    by (rule fl_tieI) simp_all
  then show ?thesis by (simp add: fmul_def)
qed

lemma p1080_1233_height:
  "fmul 1080 (647116654017197 / 1125899906842624)
   = 1365011692067525 / 2199023255552"
proof -
  have "fl (1080 * (647116654017197 / 1125899906842624))
          = of_int 5460046768270100 * 2 powi (9 - 52)"
    by (rule fl_eqI) simp_all
  then show ?thesis by (simp add: fmul_def)
qed

lemma bits_per_pixel_1080p_1233:
  "bits_per_pixel 1920 1080 30 1233
   = 2856449763656287 / 144115188075855872"
  by (simp add: bits_per_pixel_def float_of_int_small p1080_pixels_per_second p1080_1233_density)

lemma scale_factor_for_1080p_1233:
  "scale_factor_for (2856449763656287 / 144115188075855872)
     = 647116654017197 / 1125899906842624"
  by (simp add: scale_factor_for_def double_min_bpp p1080_1233_ratio p1080_1233_scale_factor)

lemma scaled_width_1080p_1233:
  "scaled_dimension 1920 (647116654017197 / 1125899906842624) = 1102"
  by (simp add: scaled_dimension_def float_of_int_small p1080_1233_width)

lemma scaled_height_1080p_1233:
  "scaled_dimension 1080 (647116654017197 / 1125899906842624) = 620"
  by (simp add: scaled_dimension_def float_of_int_small p1080_1233_height)

lemma choose_scaling_dims_1080p_1233:
  "choose_scaling_dims (Some 1920) (Some 1080) (Some 30) 1233 = Inr (Some (1102, 620))"
proof -
  have "choose_scaling_dims (Some 1920) (Some 1080) (Some 30) 1233 =
    (if bits_per_pixel 1920 1080 30 1233 \<ge> fl (6 / 100) then Inr None
     else if bits_per_pixel 1920 1080 30 1233 < 0 then Inl ValueError
     else if scaled_dimension 1920
               (scale_factor_for (bits_per_pixel 1920 1080 30 1233)) < 1920 \<and>
             scaled_dimension 1080
               (scale_factor_for (bits_per_pixel 1920 1080 30 1233)) < 1080
          then Inr (Some (scaled_dimension 1920
               (scale_factor_for (bits_per_pixel 1920 1080 30 1233)),
                          scaled_dimension 1080
               (scale_factor_for (bits_per_pixel 1920 1080 30 1233))))
          else Inr None)"
    by (rule choose_scaling_dims_present) simp_all
  then show ?thesis
    unfolding bits_per_pixel_1080p_1233 scale_factor_for_1080p_1233
      scaled_width_1080p_1233 scaled_height_1080p_1233
    by (simp add: double_min_bpp)
qed

lemma p1080_2312_density: "fdiv 2312000 62208000 = 5356132890164911 / 144115188075855872"
proof -
  have "fl (2312000 / 62208000) = of_int 5356132890164911 * 2 powi ((- 5) - 52)"
    by (rule fl_eqI) simp_all
  then show ?thesis by (simp add: fdiv_def)
qed

lemma p1080_2312_ratio:
  "fdiv (5356132890164911 / 144115188075855872) (1080863910568919 / 18014398509481984)
   = 2789652546960891 / 4503599627370496"
proof -
  have "fl ((5356132890164911 / 144115188075855872)
            / (1080863910568919 / 18014398509481984))
          = of_int 5579305093921782 * 2 powi ((- 1) - 52)"
    by (rule fl_eqI) simp_all
  then show ?thesis by (simp add: fdiv_def)
qed

lemma p1080_2312_scale_factor:
  "fsqrt (2789652546960891 / 4503599627370496)
   = 3544499706726779 / 4503599627370496"
proof -
  have "fsqrt (2789652546960891 / 4503599627370496)
          = of_int 7088999413453558 * 2 powi ((- 1) - 52)"
    by (rule fsqrt_eqI) (simp_all add: power2_eq_square)
  then show ?thesis by simp
qed

lemma p1080_2312_width:
  "fmul 1920 (3544499706726779 / 4503599627370496)
   = 6645936950112711 / 4398046511104"
proof -
  have "fl (1920 * (3544499706726779 / 4503599627370496))
          = of_int 6645936950112711 * 2 powi (10 - 52)"
    by (rule fl_eqI) simp_all
  then show ?thesis by (simp add: fmul_def)
qed

lemma p1080_2312_height:
  "fmul 1080 (3544499706726779 / 4503599627370496)
   = 7476679068876799 / 8796093022208"
proof -
  have "fl (1080 * (3544499706726779 / 4503599627370496))
          = of_int 7476679068876799 * 2 powi (9 - 52)"
    by (rule fl_eqI) simp_all
  then show ?thesis by (simp add: fmul_def)
qed

lemma bits_per_pixel_1080p_2312:
  "bits_per_pixel 1920 1080 30 2312
   = 5356132890164911 / 144115188075855872"
  by (simp add: bits_per_pixel_def float_of_int_small p1080_pixels_per_second p1080_2312_density)

lemma scale_factor_for_1080p_2312:
  "scale_factor_for (5356132890164911 / 144115188075855872)
     = 3544499706726779 / 4503599627370496"
  by (simp add: scale_factor_for_def double_min_bpp p1080_2312_ratio p1080_2312_scale_factor)

lemma scaled_width_1080p_2312:
  "scaled_dimension 1920 (3544499706726779 / 4503599627370496) = 1510"
  by (simp add: scaled_dimension_def float_of_int_small p1080_2312_width)

lemma scaled_height_1080p_2312:
  "scaled_dimension 1080 (3544499706726779 / 4503599627370496) = 848"
  by (simp add: scaled_dimension_def float_of_int_small p1080_2312_height)

lemma choose_scaling_dims_1080p_2312:
  "choose_scaling_dims (Some 1920) (Some 1080) (Some 30) 2312 = Inr (Some (1510, 848))"
proof -
  have "choose_scaling_dims (Some 1920) (Some 1080) (Some 30) 2312 =
    (if bits_per_pixel 1920 1080 30 2312 \<ge> fl (6 / 100) then Inr None
     else if bits_per_pixel 1920 1080 30 2312 < 0 then Inl ValueError
     else if scaled_dimension 1920
               (scale_factor_for (bits_per_pixel 1920 1080 30 2312)) < 1920 \<and>
             scaled_dimension 1080
               (scale_factor_for (bits_per_pixel 1920 1080 30 2312)) < 1080
          then Inr (Some (scaled_dimension 1920
               (scale_factor_for (bits_per_pixel 1920 1080 30 2312)),
                          scaled_dimension 1080
               (scale_factor_for (bits_per_pixel 1920 1080 30 2312))))
          else Inr None)"
    by (rule choose_scaling_dims_present) simp_all
  then show ?thesis
    unfolding bits_per_pixel_1080p_2312 scale_factor_for_1080p_2312
      scaled_width_1080p_2312 scaled_height_1080p_2312
    by (simp add: double_min_bpp)
qed

lemma p1080_8000_density: "fdiv 8000000 62208000 = 2316666474984823 / 18014398509481984"
proof -
  have "fl (8000000 / 62208000) = of_int 4633332949969646 * 2 powi ((- 3) - 52)"
    by (rule fl_eqI) simp_all
  then show ?thesis by (simp add: fdiv_def)
qed

lemma bits_per_pixel_1080p_8000:
  "bits_per_pixel 1920 1080 30 8000
   = 2316666474984823 / 18014398509481984"
  by (simp add: bits_per_pixel_def float_of_int_small p1080_pixels_per_second p1080_8000_density)

lemma choose_scaling_dims_1080p_8000:
  "choose_scaling_dims (Some 1920) (Some 1080) (Some 30) 8000 = Inr None"
proof -
  have "fl (6 / 100) \<le> bits_per_pixel 1920 1080 30 8000"
    unfolding bits_per_pixel_1080p_8000 by (simp add: double_min_bpp)
  then show ?thesis by (simp add: choose_scaling_dims_present)
qed

lemma choose_scaling_dims_negative_density:
  assumes "w \<noteq> 0" and "h \<noteq> 0" and "0 < f" and "bits_per_pixel w h f k < 0"
  shows "choose_scaling_dims (Some w) (Some h) (Some f) k = Inl ValueError"
proof -
  have "\<not> fl (6 / 100) \<le> bits_per_pixel w h f k" using assms(4) min_bpp_pos by simp
  then show ?thesis using assms by (simp add: choose_scaling_dims_present)
qed

subsection \<open>The decision\<close>

text \<open>
  C4: the call returns absent whenever any of width, height, frame rate is absent (or is
  zero) or the frame rate is not positive. Otherwise, for a width and a height above 0
  and a bitrate that is not negative (the export passes the video bitrate of the
  allocation, at least 100), with
  \<open>bits_per_pixel = video_kbps*1000 / (width*height*frame_rate)\<close>: it returns absent when
  \<open>bits_per_pixel \<ge> 0.06\<close>; otherwise it computes
  \<open>new_w = max(160, floor(width*scale_factor/2)*2)\<close> and \<open>new_h\<close> likewise, with
  \<open>scale_factor = sqrt(bits_per_pixel/0.06)\<close>, and returns them if both are strictly
  smaller than the originals and absent otherwise. Any returned dimensions are even and
  at least 160. Every operation is in double precision.
\<close>

theorem C4_advise:
  "(width = None \<or> height = None \<or> fps = None \<or> width = Some 0 \<or> height = Some 0 \<or>
      (\<exists>f. fps = Some f \<and> f \<le> 0)
      \<longrightarrow> choose_scaling_dims width height fps video_kbps = Inr None) \<and>
   (0 < w \<and> 0 < h \<and> 0 < f \<and> 0 \<le> video_kbps \<longrightarrow>
      choose_scaling_dims (Some w) (Some h) (Some f) video_kbps =
        (if bits_per_pixel w h f video_kbps \<ge> fl (6 / 100) then Inr None
         else let scale_factor = scale_factor_for (bits_per_pixel w h f video_kbps);
                  new_w = scaled_dimension w scale_factor;
                  new_h = scaled_dimension h scale_factor
              in if new_w < w \<and> new_h < h then Inr (Some (new_w, new_h)) else Inr None)) \<and>
   (\<forall>a b. choose_scaling_dims width height fps video_kbps = Inr (Some (a, b))
      \<longrightarrow> even a \<and> even b \<and> 160 \<le> a \<and> 160 \<le> b)"
proof (intro conjI impI allI)
  assume "width = None \<or> height = None \<or> fps = None \<or> width = Some 0 \<or> height = Some 0 \<or>
      (\<exists>f. fps = Some f \<and> f \<le> 0)"
  then show "choose_scaling_dims width height fps video_kbps = Inr None"
    by (auto simp: choose_scaling_dims_absent choose_scaling_dims_falsy)
next
  assume d: "0 < w \<and> 0 < h \<and> 0 < f \<and> 0 \<le> video_kbps"
  then have "0 \<le> bits_per_pixel w h f video_kbps" by (simp add: bits_per_pixel_nonneg)
  then have n: "\<not> bits_per_pixel w h f video_kbps < 0" by simp
  have "w \<noteq> 0" and "h \<noteq> 0" and "0 < f" using d by simp_all
  then show "choose_scaling_dims (Some w) (Some h) (Some f) video_kbps =
        (if bits_per_pixel w h f video_kbps \<ge> fl (6 / 100) then Inr None
         else let scale_factor = scale_factor_for (bits_per_pixel w h f video_kbps);
                  new_w = scaled_dimension w scale_factor;
                  new_h = scaled_dimension h scale_factor
              in if new_w < w \<and> new_h < h then Inr (Some (new_w, new_h)) else Inr None)"
    using n by (simp add: choose_scaling_dims_present Let_def)
next
  fix a b
  assume r: "choose_scaling_dims width height fps video_kbps = Inr (Some (a, b))"
  from choose_scaling_dims_Some [OF r] obtain w' h' s where
    "a = scaled_dimension w' s" and "b = scaled_dimension h' s" by blast
  then have "even a \<and> even b \<and> 160 \<le> a \<and> 160 \<le> b"
    by (simp add: scaled_dimension_props)
  then show "even a" and "even b" and "160 \<le> a" and "160 \<le> b" by simp_all
qed

theorem C4_advise_witness:
  "choose_scaling_dims None (Some 1080) (Some 30) 300 = Inr None \<and>
   choose_scaling_dims (Some 1920) (Some 1080) (Some 30) 8000 = Inr None \<and>
   choose_scaling_dims (Some 1920) (Some 1080) (Some 30) 2312 = Inr (Some (1510, 848)) \<and>
   even (1510::int) \<and> even (848::int) \<and> (160::int) \<le> 1510 \<and> (160::int) \<le> 848"
proof -
  have absent: "choose_scaling_dims None (Some 1080) (Some 30) 300 = Inr None"
    using C4_advise [where width = None and height = "Some 1080" and fps = "Some 30"
        and video_kbps = 300]
    by simp
  have "choose_scaling_dims (Some 1920) (Some 1080) (Some 30) 8000 =
      (if bits_per_pixel 1920 1080 30 8000 \<ge> fl (6 / 100) then Inr None
       else let scale_factor = scale_factor_for (bits_per_pixel 1920 1080 30 8000);
                new_w = scaled_dimension 1920 scale_factor;
                new_h = scaled_dimension 1080 scale_factor
            in if new_w < 1920 \<and> new_h < 1080 then Inr (Some (new_w, new_h)) else Inr None)"
    using C4_advise [where w = 1920 and h = 1080 and f = 30 and video_kbps = 8000]
    by simp
  then have dense: "choose_scaling_dims (Some 1920) (Some 1080) (Some 30) 8000 = Inr None"
    unfolding bits_per_pixel_1080p_8000 by (simp add: double_min_bpp)
  have "choose_scaling_dims (Some 1920) (Some 1080) (Some 30) 2312 =
      (if bits_per_pixel 1920 1080 30 2312 \<ge> fl (6 / 100) then Inr None
       else let scale_factor = scale_factor_for (bits_per_pixel 1920 1080 30 2312);
                new_w = scaled_dimension 1920 scale_factor;
                new_h = scaled_dimension 1080 scale_factor
            in if new_w < 1920 \<and> new_h < 1080 then Inr (Some (new_w, new_h)) else Inr None)"
    using C4_advise [where w = 1920 and h = 1080 and f = 30 and video_kbps = 2312]
    by simp
  then have scaled: "choose_scaling_dims (Some 1920) (Some 1080) (Some 30) 2312
      = Inr (Some (1510, 848))"
    unfolding Let_def bits_per_pixel_1080p_2312 scale_factor_for_1080p_2312
      scaled_width_1080p_2312 scaled_height_1080p_2312
    by (simp add: double_min_bpp)
  then have "even (1510::int) \<and> even (848::int) \<and> (160::int) \<le> 1510 \<and> (160::int) \<le> 848"
    using C4_advise [where width = "Some 1920" and height = "Some 1080" and fps = "Some 30"
        and video_kbps = 2312]
    by blast
  with absent dense scaled show ?thesis by blast
qed

subsection \<open>Monotonicity and division\<close>

text \<open>
  C5: for a present width and height and a frame rate above 0, and bitrates \<open>k1 \<le> k2\<close>,
  whenever the two calls return, the resolution chosen at \<open>k1\<close> (the original one when the
  result is absent) is not larger than the one chosen at \<open>k2\<close>, in either dimension; and
  for positive width and height and \<open>k1 \<ge> 0\<close> both calls do return.
\<close>

theorem C5_downscale_monotone:
  assumes "0 < f" and "k1 \<le> k2"
  shows "(\<forall>r1 r2. choose_scaling_dims (Some w) (Some h) (Some f) k1 = Inr r1 \<and>
                 choose_scaling_dims (Some w) (Some h) (Some f) k2 = Inr r2
            \<longrightarrow> fst (target_resolution w h r1) \<le> fst (target_resolution w h r2) \<and>
                snd (target_resolution w h r1) \<le> snd (target_resolution w h r2)) \<and>
         (0 < w \<and> 0 < h \<and> 0 \<le> k1
            \<longrightarrow> (\<exists>r1 r2. choose_scaling_dims (Some w) (Some h) (Some f) k1 = Inr r1 \<and>
                         choose_scaling_dims (Some w) (Some h) (Some f) k2 = Inr r2))"
proof (rule conjI)
  show "\<forall>r1 r2. choose_scaling_dims (Some w) (Some h) (Some f) k1 = Inr r1 \<and>
                 choose_scaling_dims (Some w) (Some h) (Some f) k2 = Inr r2
            \<longrightarrow> fst (target_resolution w h r1) \<le> fst (target_resolution w h r2) \<and>
                snd (target_resolution w h r1) \<le> snd (target_resolution w h r2)"
  proof (intro allI impI)
  fix r1 r2
  assume both: "choose_scaling_dims (Some w) (Some h) (Some f) k1 = Inr r1 \<and>
                choose_scaling_dims (Some w) (Some h) (Some f) k2 = Inr r2"
  then have c1: "choose_scaling_dims (Some w) (Some h) (Some f) k1 = Inr r1"
    and c2: "choose_scaling_dims (Some w) (Some h) (Some f) k2 = Inr r2" by simp_all
  have smaller: "fst (target_resolution w h r1) \<le> w \<and> snd (target_resolution w h r1) \<le> h"
  proof (cases r1)
    case None
    then show ?thesis by (simp add: target_resolution_def)
  next
    case (Some d)
    then obtain a b where "r1 = Some (a, b)" by (cases d) simp
    with choose_scaling_dims_Some [of "Some w" "Some h" "Some f" k1 a b] c1
    show ?thesis by (auto simp: target_resolution_def)
  qed
  show "fst (target_resolution w h r1) \<le> fst (target_resolution w h r2) \<and>
        snd (target_resolution w h r1) \<le> snd (target_resolution w h r2)"
  proof (cases r2)
    case None
    with smaller show ?thesis by (simp add: target_resolution_def)
  next
    case (Some d)
    then obtain a2 b2 where r2: "r2 = Some (a2, b2)" by (cases d) simp
    let ?s2 = "scale_factor_for (bits_per_pixel w h f k2)"
    let ?s1 = "scale_factor_for (bits_per_pixel w h f k1)"
    from choose_scaling_dims_Some [of "Some w" "Some h" "Some f" k2 a2 b2] c2 r2
    have b2: "bits_per_pixel w h f k2 < fl (6 / 100)"
      and a2: "a2 = scaled_dimension w ?s2" "a2 < w"
      and b2': "b2 = scaled_dimension h ?s2" "b2 < h"
      by auto
    have "160 \<le> a2" and "160 \<le> b2" using a2(1) b2'(1) by (simp_all add: scaled_dimension_props)
    with a2(2) b2'(2) have w0: "0 < w" and h0: "0 < h" by simp_all
    have le: "bits_per_pixel w h f k1 \<le> bits_per_pixel w h f k2"
      using w0 h0 assms by (rule bits_per_pixel_mono)
    with b2 have b1: "bits_per_pixel w h f k1 < fl (6 / 100)" by simp
    have nn: "\<not> bits_per_pixel w h f k1 < 0"
    proof
      assume "bits_per_pixel w h f k1 < 0"
      then have "choose_scaling_dims (Some w) (Some h) (Some f) k1 = Inl ValueError"
        using w0 h0 assms(1) b1 by (simp add: choose_scaling_dims_present)
      with c1 show False by simp
    qed
    have "?s1 \<le> ?s2" using le by (rule scale_factor_for_mono)
    then have mw: "scaled_dimension w ?s1 \<le> scaled_dimension w ?s2"
      and mh: "scaled_dimension h ?s1 \<le> scaled_dimension h ?s2"
      using w0 h0 by (simp_all add: scaled_dimension_mono)
    with a2 b2' have lt: "scaled_dimension w ?s1 < w \<and> scaled_dimension h ?s1 < h" by simp
    have "choose_scaling_dims (Some w) (Some h) (Some f) k1
            = Inr (Some (scaled_dimension w ?s1, scaled_dimension h ?s1))"
      using w0 h0 assms(1) b1 nn lt by (simp add: choose_scaling_dims_present)
    with c1 have "r1 = Some (scaled_dimension w ?s1, scaled_dimension h ?s1)" by simp
    with r2 a2(1) b2'(1) mw mh show ?thesis by (simp add: target_resolution_def)
  qed
  qed
next
  show "0 < w \<and> 0 < h \<and> 0 \<le> k1
            \<longrightarrow> (\<exists>r1 r2. choose_scaling_dims (Some w) (Some h) (Some f) k1 = Inr r1 \<and>
                         choose_scaling_dims (Some w) (Some h) (Some f) k2 = Inr r2)"
  proof (rule impI)
  assume pos: "0 < w \<and> 0 < h \<and> 0 \<le> k1"
  then have n1: "0 \<le> bits_per_pixel w h f k1" and n2: "0 \<le> bits_per_pixel w h f k2"
    using assms by (simp_all add: bits_per_pixel_nonneg)
  have "\<exists>r. choose_scaling_dims (Some w) (Some h) (Some f) k1 = Inr r"
    using pos assms(1) n1 by (simp add: choose_scaling_dims_present)
  moreover have "\<exists>r. choose_scaling_dims (Some w) (Some h) (Some f) k2 = Inr r"
    using pos assms(1) n2 by (simp add: choose_scaling_dims_present)
  ultimately show "\<exists>r1 r2. choose_scaling_dims (Some w) (Some h) (Some f) k1 = Inr r1 \<and>
                         choose_scaling_dims (Some w) (Some h) (Some f) k2 = Inr r2"
    by blast
  qed
qed

theorem C5_downscale_monotone_witness:
  "(0::real) < 30 \<and> (300::int) \<le> 600 \<and>
   choose_scaling_dims (Some 1920) (Some 1080) (Some 30) 300 = Inr (Some (544, 306)) \<and>
   choose_scaling_dims (Some 1920) (Some 1080) (Some 30) 600 = Inr (Some (768, 432)) \<and>
   fst (target_resolution 1920 1080 (Some (544, 306)))
     \<le> fst (target_resolution 1920 1080 (Some (768, 432))) \<and>
   snd (target_resolution 1920 1080 (Some (544, 306)))
     \<le> snd (target_resolution 1920 1080 (Some (768, 432)))"
proof -
  have f: "(0::real) < 30" and k: "(300::int) \<le> 600" by simp_all
  from C5_downscale_monotone [OF f k, of 1920 1080]
  have "fst (target_resolution 1920 1080 (Some (544, 306)))
          \<le> fst (target_resolution 1920 1080 (Some (768, 432))) \<and>
        snd (target_resolution 1920 1080 (Some (544, 306)))
          \<le> snd (target_resolution 1920 1080 (Some (768, 432)))"
    using choose_scaling_dims_1080p_300 choose_scaling_dims_1080p_600 by blast
  then show ?thesis
    using f k choose_scaling_dims_1080p_300 choose_scaling_dims_1080p_600 by blast
qed

text \<open>
  C10: the call never raises a division error, whatever its input; in particular, when
  the width or the height is 0 (present, not absent), it returns absent before the pixel
  density is computed.
\<close>

theorem C10_no_division_error:
  "choose_scaling_dims width height fps video_kbps \<noteq> Inl ZeroDivisionError \<and>
   (width = Some 0 \<or> height = Some 0
      \<longrightarrow> choose_scaling_dims width height fps video_kbps = Inr None)"
proof (rule conjI)
  show "choose_scaling_dims width height fps video_kbps \<noteq> Inl ZeroDivisionError"
  proof (cases "\<exists>w h f. width = Some w \<and> height = Some h \<and> fps = Some f \<and>
                  w \<noteq> 0 \<and> h \<noteq> 0 \<and> 0 < f")
    case True
    then obtain w h f where "width = Some w" "height = Some h" "fps = Some f"
      and "w \<noteq> 0" "h \<noteq> 0" "0 < f" by blast
    then show ?thesis by (simp add: choose_scaling_dims_present)
  next
    case False
    have "choose_scaling_dims width height fps video_kbps = Inr None"
    proof (cases width)
      case None
      then show ?thesis by (simp add: choose_scaling_dims_absent)
    next
      case w: (Some w)
      show ?thesis
      proof (cases height)
        case None
        then show ?thesis by (simp add: choose_scaling_dims_absent)
      next
        case h: (Some h)
        show ?thesis
        proof (cases fps)
          case None
          then show ?thesis by (simp add: choose_scaling_dims_absent)
        next
          case f: (Some f)
          with False w h have "w = 0 \<or> h = 0 \<or> f \<le> 0" by auto
          with w h f show ?thesis by (auto simp: choose_scaling_dims_falsy)
        qed
      qed
    qed
    then show ?thesis by simp
  qed
next
  show "width = Some 0 \<or> height = Some 0
      \<longrightarrow> choose_scaling_dims width height fps video_kbps = Inr None"
    by (auto simp: choose_scaling_dims_falsy)
qed

theorem C10_no_division_error_witness:
  "choose_scaling_dims (Some 0) (Some 1080) (Some 30) 300 \<noteq> Inl ZeroDivisionError \<and>
   choose_scaling_dims (Some 0) (Some 1080) (Some 30) 300 = Inr None \<and>
   choose_scaling_dims (Some 1920) (Some 0) (Some 30) 300 = Inr None"
  using C10_no_division_error [of "Some 0" "Some 1080" "Some 30" 300]
    C10_no_division_error [of "Some 1920" "Some 0" "Some 30" 300]
  by simp

section \<open>Properties of the encode commands\<close>

lemma replicate_small:
  "replicate 1 x = [x]" "replicate 2 x = [x, x]" "replicate 3 x = [x, x, x]"
  by (simp_all add: numeral_2_eq_2 numeral_3_eq_3)

lemmas format_eval = format_f_def format_d_def round_half_even_def Let_def str_nat.simps
  str_int_def digit_char_def replicate_small

lemma format_f_0: "format_f 0 3 0 = ''0.000''"
  by (simp add: format_eval)

lemma format_f_10: "format_f 0 3 10 = ''10.000''"
  by (simp add: format_eval)

lemma format_f_60: "format_f 0 3 60 = ''60.000''"
  by (simp add: format_eval)

lemma str_int_examples:
  "str_int 48 = ''48''" "str_int 100 = ''100''" "str_int 137 = ''137''"
  "str_int 1233 = ''1233''" "str_int 0 = ''0''" "str_int 60 = ''60''" "str_int 10 = ''10''"
  "str_int 1 = ''1''"
  by (simp_all add: format_eval)

lemma format_f_has_point: "0 < p \<Longrightarrow> CHR ''.'' \<in> set (format_f w p x)"
  by (simp add: format_f_def Let_def)

lemma format_f_not_option: "format_f w 3 x \<noteq> ''-ss''" "format_f w 3 x \<noteq> ''-t''"
proof -
  have "CHR ''.'' \<in> set (format_f w 3 x)" by (rule format_f_has_point) simp
  then show "format_f w 3 x \<noteq> ''-ss''" and "format_f w 3 x \<noteq> ''-t''" by auto
qed

lemma log_name_not_option: "xs @ ''.log'' \<noteq> ''-ac''"
proof
  assume "xs @ ''.log'' = ''-ac''"
  then have "length (xs @ ''.log'') = length ''-ac''" by (rule arg_cong)
  then show False by simp
qed

lemma insert_mono_snoc: "insert_mono (xs @ [x]) = xs @ [''-ac'', ''1'', x]"
  by (simp add: insert_mono_def)

lemma build_two_pass_commands_shape:
  assumes "build_two_pass_commands nt src dst ss duration video_kbps audio_kbps scale_filter
             = Inr (pass1, pass2)"
  shows "pass1 =
           [''ffmpeg'', ''-y''] @ range_args ss duration @ [''-i'', path_str src] @
           vf_args scale_filter @
           [''-c:v'', ''libx264'', ''-b:v'', str_int video_kbps @ ''k'', ''-pass'', ''1'',
            ''-preset'', ''medium'', ''-pix_fmt'', ''yuv420p'', ''-an'', ''-f'', ''mp4'',
            ''-passlogfile'', path_parent dst @ path_stem dst @ ''.log'',
            (if nt then ''NUL'' else ''/dev/null'')]"
    and "pass2 =
           ([''ffmpeg'', ''-y''] @ range_args ss duration @ [''-i'', path_str src] @
            vf_args scale_filter @
            [''-c:v'', ''libx264'', ''-b:v'', str_int video_kbps @ ''k'', ''-pass'', ''2'',
             ''-preset'', ''medium'', ''-pix_fmt'', ''yuv420p'', ''-c:a'', ''aac'', ''-b:a'',
             str_int audio_kbps @ ''k'', ''-movflags'', ''+faststart'',
             ''-passlogfile'', path_parent dst @ path_stem dst @ ''.log'']) @ [path_str dst]"
  using assms
  by (simp_all add: build_two_pass_commands_def with_suffix_def path_str_def Let_def
        split: if_splits)

lemma export_commands_shape:
  assumes "export_commands nt src dst start_s clip_seconds video_kbps audio_kbps scale_filter
             = Inr (pass1, pass2)"
  shows "\<exists>built. build_two_pass_commands nt src dst (Some start_s) (Some clip_seconds)
                    video_kbps audio_kbps scale_filter = Inr (pass1, built) \<and>
                 pass2 = (if audio_kbps \<le> 64 then insert_mono built else built)"
  using assms by (auto simp: export_commands_def split: sum.splits)

lemma export_commands_low_audio:
  "export_commands False
     \<lparr>path_parent = ''/videos/'', path_stem = ''clip'', path_suffix = ''.mp4''\<rparr>
     \<lparr>path_parent = ''/home/user/Downloads/'', path_stem = ''clip_trim_0-60_1MB'',
      path_suffix = ''.mp4''\<rparr>
     0 60 100 48 None
   = Inr ([''ffmpeg'', ''-y'', ''-ss'', ''0.000'', ''-t'', ''60.000'', ''-i'', ''/videos/clip.mp4'',
           ''-c:v'', ''libx264'', ''-b:v'', ''100k'', ''-pass'', ''1'', ''-preset'', ''medium'',
           ''-pix_fmt'', ''yuv420p'', ''-an'', ''-f'', ''mp4'', ''-passlogfile'',
           ''/home/user/Downloads/clip_trim_0-60_1MB.log'', ''/dev/null''],
          [''ffmpeg'', ''-y'', ''-ss'', ''0.000'', ''-t'', ''60.000'', ''-i'', ''/videos/clip.mp4'',
           ''-c:v'', ''libx264'', ''-b:v'', ''100k'', ''-pass'', ''2'', ''-preset'', ''medium'',
           ''-pix_fmt'', ''yuv420p'', ''-c:a'', ''aac'', ''-b:a'', ''48k'', ''-movflags'',
           ''+faststart'', ''-passlogfile'', ''/home/user/Downloads/clip_trim_0-60_1MB.log'',
           ''-ac'', ''1'', ''/home/user/Downloads/clip_trim_0-60_1MB.mp4''])"
  unfolding export_commands_def build_two_pass_commands_def with_suffix_def path_name_def
    path_str_def range_args_def vf_args_def insert_mono_def
  by (simp add: format_f_0 format_f_60 str_int_examples Let_def)

lemma export_commands_high_audio:
  "export_commands False
     \<lparr>path_parent = ''/videos/'', path_stem = ''clip'', path_suffix = ''.mp4''\<rparr>
     \<lparr>path_parent = ''/home/user/Downloads/'', path_stem = ''clip_trim_0-60_10MB'',
      path_suffix = ''.mp4''\<rparr>
     0 60 1233 137 None
   = Inr ([''ffmpeg'', ''-y'', ''-ss'', ''0.000'', ''-t'', ''60.000'', ''-i'', ''/videos/clip.mp4'',
           ''-c:v'', ''libx264'', ''-b:v'', ''1233k'', ''-pass'', ''1'', ''-preset'', ''medium'',
           ''-pix_fmt'', ''yuv420p'', ''-an'', ''-f'', ''mp4'', ''-passlogfile'',
           ''/home/user/Downloads/clip_trim_0-60_10MB.log'', ''/dev/null''],
          [''ffmpeg'', ''-y'', ''-ss'', ''0.000'', ''-t'', ''60.000'', ''-i'', ''/videos/clip.mp4'',
           ''-c:v'', ''libx264'', ''-b:v'', ''1233k'', ''-pass'', ''2'', ''-preset'', ''medium'',
           ''-pix_fmt'', ''yuv420p'', ''-c:a'', ''aac'', ''-b:a'', ''137k'', ''-movflags'',
           ''+faststart'', ''-passlogfile'', ''/home/user/Downloads/clip_trim_0-60_10MB.log'',
           ''/home/user/Downloads/clip_trim_0-60_10MB.mp4''])"
  unfolding export_commands_def build_two_pass_commands_def with_suffix_def path_name_def
    path_str_def range_args_def vf_args_def insert_mono_def
  by (simp add: format_f_0 format_f_60 str_int_examples Let_def)

text \<open>
  C6 (as stated, for both passes) fails for the first pass: with an audio bitrate of
  48 kbit/s the export builds a first-pass argument list without the mono option (the
  first pass encodes no audio at all, it carries \<^verbatim>\<open>-an\<close>).
\<close>

theorem C6_pass1_counterexample:
  "export_commands False
     \<lparr>path_parent = ''/videos/'', path_stem = ''clip'', path_suffix = ''.mp4''\<rparr>
     \<lparr>path_parent = ''/home/user/Downloads/'', path_stem = ''clip_trim_0-60_1MB'',
      path_suffix = ''.mp4''\<rparr>
     0 60 100 48 None
   = Inr ([''ffmpeg'', ''-y'', ''-ss'', ''0.000'', ''-t'', ''60.000'', ''-i'', ''/videos/clip.mp4'',
           ''-c:v'', ''libx264'', ''-b:v'', ''100k'', ''-pass'', ''1'', ''-preset'', ''medium'',
           ''-pix_fmt'', ''yuv420p'', ''-an'', ''-f'', ''mp4'', ''-passlogfile'',
           ''/home/user/Downloads/clip_trim_0-60_1MB.log'', ''/dev/null''],
          [''ffmpeg'', ''-y'', ''-ss'', ''0.000'', ''-t'', ''60.000'', ''-i'', ''/videos/clip.mp4'',
           ''-c:v'', ''libx264'', ''-b:v'', ''100k'', ''-pass'', ''2'', ''-preset'', ''medium'',
           ''-pix_fmt'', ''yuv420p'', ''-c:a'', ''aac'', ''-b:a'', ''48k'', ''-movflags'',
           ''+faststart'', ''-passlogfile'', ''/home/user/Downloads/clip_trim_0-60_1MB.log'',
           ''-ac'', ''1'', ''/home/user/Downloads/clip_trim_0-60_1MB.mp4'']) \<and>
   (48::int) \<le> 64 \<and>
   \<not> mono_downmix
       [''ffmpeg'', ''-y'', ''-ss'', ''0.000'', ''-t'', ''60.000'', ''-i'', ''/videos/clip.mp4'',
        ''-c:v'', ''libx264'', ''-b:v'', ''100k'', ''-pass'', ''1'', ''-preset'', ''medium'',
        ''-pix_fmt'', ''yuv420p'', ''-an'', ''-f'', ''mp4'', ''-passlogfile'',
        ''/home/user/Downloads/clip_trim_0-60_1MB.log'', ''/dev/null'']"
  unfolding export_commands_low_audio by (simp add: mono_downmix_def)

text \<open>
  C6 (amended): for every pair of argument lists the export builds, the first-pass list
  is the one the builder returns and never contains the mono option. The second-pass
  list of the builder ends with the output path and does not contain the mono option;
  when the audio bitrate is 64 kbit/s or less the export puts \<^verbatim>\<open>-ac 1\<close> directly
  before that output path, otherwise it leaves the list as built. So the second-pass list
  contains the mono option exactly when the audio bitrate is 64 kbit/s or less.
\<close>

theorem C6_mono_downmix:
  assumes "export_commands nt src dst start_s clip_seconds video_kbps audio_kbps scale_filter
             = Inr (pass1, pass2)"
  shows "\<exists>args. build_two_pass_commands nt src dst (Some start_s) (Some clip_seconds)
                   video_kbps audio_kbps scale_filter = Inr (pass1, args @ [path_str dst]) \<and>
                \<not> mono_downmix pass1 \<and>
                \<not> mono_downmix (args @ [path_str dst]) \<and>
                pass2 = (if audio_kbps \<le> 64 then args @ [''-ac'', ''1'', path_str dst]
                         else args @ [path_str dst]) \<and>
                (mono_downmix pass2 \<longleftrightarrow> audio_kbps \<le> 64)"
proof -
  from export_commands_shape [OF assms] obtain built where
    b: "build_two_pass_commands nt src dst (Some start_s) (Some clip_seconds)
          video_kbps audio_kbps scale_filter = Inr (pass1, built)"
    and p2: "pass2 = (if audio_kbps \<le> 64 then insert_mono built else built)" by blast
  note shape = build_two_pass_commands_shape [OF b]
  from shape(2) obtain args where built: "built = args @ [path_str dst]" by (rule that)
  have log: "path_parent dst @ path_stem dst @ ''.log'' \<noteq> ''-ac''"
    using log_name_not_option [of "path_parent dst @ path_stem dst"] by simp
  have one: "\<not> mono_downmix pass1"
    unfolding shape(1) mono_downmix_def range_args_def vf_args_def
    by (simp split: option.splits)
  have plain: "\<not> mono_downmix built"
    unfolding shape(2) mono_downmix_def range_args_def vf_args_def
    using log by (simp split: option.splits)
  have mono: "mono_downmix (insert_mono built)"
    unfolding shape(2) insert_mono_snoc mono_downmix_def range_args_def vf_args_def
    by (simp split: option.splits)
  have ins: "insert_mono built = args @ [''-ac'', ''1'', path_str dst]"
    unfolding built by (rule insert_mono_snoc)
  have 1: "build_two_pass_commands nt src dst (Some start_s) (Some clip_seconds)
             video_kbps audio_kbps scale_filter = Inr (pass1, args @ [path_str dst])"
    using b unfolding built .
  have 2: "\<not> mono_downmix (args @ [path_str dst])" using plain unfolding built .
  have 3: "pass2 = (if audio_kbps \<le> 64 then args @ [''-ac'', ''1'', path_str dst]
                    else args @ [path_str dst])"
    using p2 unfolding ins unfolding built .
  have 4: "mono_downmix pass2 \<longleftrightarrow> audio_kbps \<le> 64"
    using p2 plain mono by simp
  from 1 one 2 3 4 show ?thesis by blast
qed

theorem C6_mono_downmix_witness:
  "(48::int) \<le> 64 \<and>
   (\<exists>pass1 pass2 args.
      export_commands False
        \<lparr>path_parent = ''/videos/'', path_stem = ''clip'', path_suffix = ''.mp4''\<rparr>
        \<lparr>path_parent = ''/home/user/Downloads/'', path_stem = ''clip_trim_0-60_1MB'',
         path_suffix = ''.mp4''\<rparr>
        0 60 100 48 None = Inr (pass1, pass2) \<and>
      pass2 = args @ [''-ac'', ''1'', ''/home/user/Downloads/clip_trim_0-60_1MB.mp4''] \<and>
      \<not> mono_downmix (args @ [''/home/user/Downloads/clip_trim_0-60_1MB.mp4'']) \<and>
      \<not> mono_downmix pass1 \<and> mono_downmix pass2) \<and>
   \<not> (137::int) \<le> 64 \<and>
   (\<exists>pass1 pass2 args.
      export_commands False
        \<lparr>path_parent = ''/videos/'', path_stem = ''clip'', path_suffix = ''.mp4''\<rparr>
        \<lparr>path_parent = ''/home/user/Downloads/'', path_stem = ''clip_trim_0-60_10MB'',
         path_suffix = ''.mp4''\<rparr>
        0 60 1233 137 None = Inr (pass1, pass2) \<and>
      pass2 = args @ [''/home/user/Downloads/clip_trim_0-60_10MB.mp4''] \<and>
      \<not> mono_downmix pass1 \<and> \<not> mono_downmix pass2)"
proof -
  let ?src = "\<lparr>path_parent = ''/videos/'', path_stem = ''clip'', path_suffix = ''.mp4''\<rparr>"
  let ?low = "\<lparr>path_parent = ''/home/user/Downloads/'', path_stem = ''clip_trim_0-60_1MB'',
               path_suffix = ''.mp4''\<rparr>"
  let ?high = "\<lparr>path_parent = ''/home/user/Downloads/'', path_stem = ''clip_trim_0-60_10MB'',
                path_suffix = ''.mp4''\<rparr>"
  have s1: "path_str ?low = ''/home/user/Downloads/clip_trim_0-60_1MB.mp4''"
    and s2: "path_str ?high = ''/home/user/Downloads/clip_trim_0-60_10MB.mp4''"
    by (simp_all add: path_str_def)
  obtain p1 p2 where r: "export_commands False ?src ?low 0 60 100 48 None = Inr (p1, p2)"
    using export_commands_low_audio by blast
  from C6_mono_downmix [OF r] obtain args where
    a: "\<not> mono_downmix p1" "\<not> mono_downmix (args @ [path_str ?low])"
      "p2 = (if (48::int) \<le> 64 then args @ [''-ac'', ''1'', path_str ?low]
             else args @ [path_str ?low])"
      "mono_downmix p2 \<longleftrightarrow> (48::int) \<le> 64"
    by blast
  have a3: "p2 = args @ [''-ac'', ''1'', path_str ?low]" using a(3) by simp
  have a4: "mono_downmix p2" using a(4) by simp
  have low: "\<exists>pass1 pass2 args.
      export_commands False ?src ?low 0 60 100 48 None = Inr (pass1, pass2) \<and>
      pass2 = args @ [''-ac'', ''1'', ''/home/user/Downloads/clip_trim_0-60_1MB.mp4''] \<and>
      \<not> mono_downmix (args @ [''/home/user/Downloads/clip_trim_0-60_1MB.mp4'']) \<and>
      \<not> mono_downmix pass1 \<and> mono_downmix pass2"
    using r a(1,2) a3 a4 unfolding s1 by blast
  obtain q1 q2 where q: "export_commands False ?src ?high 0 60 1233 137 None = Inr (q1, q2)"
    using export_commands_high_audio by blast
  from C6_mono_downmix [OF q] obtain args' where
    b: "\<not> mono_downmix q1"
      "q2 = (if (137::int) \<le> 64 then args' @ [''-ac'', ''1'', path_str ?high]
             else args' @ [path_str ?high])"
      "mono_downmix q2 \<longleftrightarrow> (137::int) \<le> 64"
    by blast
  have b2: "q2 = args' @ [path_str ?high]" using b(2) by simp
  have b3: "\<not> mono_downmix q2" using b(3) by simp
  have high: "\<exists>pass1 pass2 args.
      export_commands False ?src ?high 0 60 1233 137 None = Inr (pass1, pass2) \<and>
      pass2 = args @ [''/home/user/Downloads/clip_trim_0-60_10MB.mp4''] \<and>
      \<not> mono_downmix pass1 \<and> \<not> mono_downmix pass2"
    using q b(1) b2 b3 unfolding s2 by blast
  from low high show ?thesis by simp
qed

lemma range_args_options:
  "''-ss'' \<in> set (range_args ss duration) \<longleftrightarrow> ss \<noteq> None"
  "''-t'' \<in> set (range_args ss duration) \<longleftrightarrow> duration \<noteq> None"
proof -
  have a: "\<And>x. ''-ss'' \<noteq> format_f 0 3 x" and b: "\<And>x. ''-t'' \<noteq> format_f 0 3 x"
    using format_f_not_option [of 0] by (metis, metis)
  show "''-ss'' \<in> set (range_args ss duration) \<longleftrightarrow> ss \<noteq> None"
    by (cases ss; cases duration) (simp_all add: range_args_def a)
  show "''-t'' \<in> set (range_args ss duration) \<longleftrightarrow> duration \<noteq> None"
    by (cases ss; cases duration) (simp_all add: range_args_def b)
qed

text \<open>
  C7 (as stated, \<^verbatim>\<open>-ss\<close> only for a start above 0) fails: for a start of exactly 0 the
  export builds both argument lists with \<^verbatim>\<open>-ss 0.000\<close>.
\<close>

theorem C7_start_zero_counterexample:
  "export_commands False
     \<lparr>path_parent = ''/videos/'', path_stem = ''clip'', path_suffix = ''.mp4''\<rparr>
     \<lparr>path_parent = ''/home/user/Downloads/'', path_stem = ''clip_trim_0-60_10MB'',
      path_suffix = ''.mp4''\<rparr>
     0 60 1233 137 None
   = Inr ([''ffmpeg'', ''-y'', ''-ss'', ''0.000'', ''-t'', ''60.000'', ''-i'', ''/videos/clip.mp4'',
           ''-c:v'', ''libx264'', ''-b:v'', ''1233k'', ''-pass'', ''1'', ''-preset'', ''medium'',
           ''-pix_fmt'', ''yuv420p'', ''-an'', ''-f'', ''mp4'', ''-passlogfile'',
           ''/home/user/Downloads/clip_trim_0-60_10MB.log'', ''/dev/null''],
          [''ffmpeg'', ''-y'', ''-ss'', ''0.000'', ''-t'', ''60.000'', ''-i'', ''/videos/clip.mp4'',
           ''-c:v'', ''libx264'', ''-b:v'', ''1233k'', ''-pass'', ''2'', ''-preset'', ''medium'',
           ''-pix_fmt'', ''yuv420p'', ''-c:a'', ''aac'', ''-b:a'', ''137k'', ''-movflags'',
           ''+faststart'', ''-passlogfile'', ''/home/user/Downloads/clip_trim_0-60_10MB.log'',
           ''/home/user/Downloads/clip_trim_0-60_10MB.mp4'']) \<and>
   has_option ''-ss'' ''0.000''
     [''ffmpeg'', ''-y'', ''-ss'', ''0.000'', ''-t'', ''60.000'', ''-i'', ''/videos/clip.mp4'',
      ''-c:v'', ''libx264'', ''-b:v'', ''1233k'', ''-pass'', ''1'', ''-preset'', ''medium'',
      ''-pix_fmt'', ''yuv420p'', ''-an'', ''-f'', ''mp4'', ''-passlogfile'',
      ''/home/user/Downloads/clip_trim_0-60_10MB.log'', ''/dev/null'']"
  unfolding export_commands_high_audio by simp

text \<open>
  C7 (amended): in every built command pair both argument lists start with
  \<^verbatim>\<open>ffmpeg -y\<close>, the range arguments and \<^verbatim>\<open>-i\<close>; the range arguments contain
  \<^verbatim>\<open>-ss\<close> exactly when a start is passed to the builder, whatever its value, and
  \<^verbatim>\<open>-t\<close> exactly when a duration is passed. The export passes both, so its lists
  always carry \<^verbatim>\<open>-ss\<close> with the start to three decimals (\<^verbatim>\<open>-ss 0.000\<close> for a
  start of exactly 0) and \<^verbatim>\<open>-t\<close> with the clip length.
\<close>

theorem C7_range_arguments:
  "(''-ss'' \<in> set (range_args ss duration) \<longleftrightarrow> ss \<noteq> None) \<and>
   (''-t'' \<in> set (range_args ss duration) \<longleftrightarrow> duration \<noteq> None) \<and>
   (\<forall>pass1 pass2.
      build_two_pass_commands nt src dst ss duration video_kbps audio_kbps scale_filter
        = Inr (pass1, pass2)
      \<longrightarrow> (\<exists>rest1 rest2.
             pass1 = [''ffmpeg'', ''-y''] @ range_args ss duration @ ''-i'' # rest1 \<and>
             pass2 = [''ffmpeg'', ''-y''] @ range_args ss duration @ ''-i'' # rest2)) \<and>
   (\<forall>pass1 pass2.
      export_commands nt src dst start_s clip_seconds video_kbps audio_kbps scale_filter
        = Inr (pass1, pass2)
      \<longrightarrow> take 6 pass1 = [''ffmpeg'', ''-y'', ''-ss'', format_f 0 3 start_s,
                            ''-t'', format_f 0 3 clip_seconds] \<and>
          take 6 pass2 = [''ffmpeg'', ''-y'', ''-ss'', format_f 0 3 start_s,
                            ''-t'', format_f 0 3 clip_seconds])"
proof (intro conjI allI impI)
  show "''-ss'' \<in> set (range_args ss duration) \<longleftrightarrow> ss \<noteq> None"
    by (rule range_args_options)
  show "''-t'' \<in> set (range_args ss duration) \<longleftrightarrow> duration \<noteq> None"
    by (rule range_args_options)
next
  fix pass1 pass2
  assume "build_two_pass_commands nt src dst ss duration video_kbps audio_kbps scale_filter
            = Inr (pass1, pass2)"
  note shape = build_two_pass_commands_shape [OF this]
  show "\<exists>rest1 rest2.
          pass1 = [''ffmpeg'', ''-y''] @ range_args ss duration @ ''-i'' # rest1 \<and>
          pass2 = [''ffmpeg'', ''-y''] @ range_args ss duration @ ''-i'' # rest2"
    unfolding shape by simp
next
  fix pass1 pass2
  assume e: "export_commands nt src dst start_s clip_seconds video_kbps audio_kbps scale_filter
            = Inr (pass1, pass2)"
  from export_commands_shape [OF e] obtain built where
    b: "build_two_pass_commands nt src dst (Some start_s) (Some clip_seconds)
          video_kbps audio_kbps scale_filter = Inr (pass1, built)"
    and p2: "pass2 = (if audio_kbps \<le> 64 then insert_mono built else built)" by blast
  note shape = build_two_pass_commands_shape [OF b]
  show "take 6 pass1 = [''ffmpeg'', ''-y'', ''-ss'', format_f 0 3 start_s,
                         ''-t'', format_f 0 3 clip_seconds]"
    unfolding shape(1) range_args_def by simp
  have "take 6 built = [''ffmpeg'', ''-y'', ''-ss'', format_f 0 3 start_s,
                         ''-t'', format_f 0 3 clip_seconds]"
    unfolding shape(2) range_args_def by simp
  moreover have "take 6 (insert_mono built) = [''ffmpeg'', ''-y'', ''-ss'', format_f 0 3 start_s,
                         ''-t'', format_f 0 3 clip_seconds]"
    unfolding shape(2) insert_mono_snoc range_args_def by simp
  ultimately show "take 6 pass2 = [''ffmpeg'', ''-y'', ''-ss'', format_f 0 3 start_s,
                         ''-t'', format_f 0 3 clip_seconds]"
    unfolding p2 by simp
qed

theorem C7_range_arguments_witness:
  "''-ss'' \<notin> set (range_args None (Some 10)) \<and> ''-t'' \<in> set (range_args None (Some 10)) \<and>
   ''-ss'' \<in> set (range_args (Some 0) None) \<and> ''-t'' \<notin> set (range_args (Some 0) None) \<and>
   (case export_commands False
           \<lparr>path_parent = ''/videos/'', path_stem = ''clip'', path_suffix = ''.mp4''\<rparr>
           \<lparr>path_parent = ''/home/user/Downloads/'', path_stem = ''clip_trim_0-60_10MB'',
            path_suffix = ''.mp4''\<rparr>
           0 60 1233 137 None of
      Inl e \<Rightarrow> False
    | Inr (pass1, pass2) \<Rightarrow>
        take 6 pass1 = [''ffmpeg'', ''-y'', ''-ss'', ''0.000'', ''-t'', ''60.000''] \<and>
        take 6 pass2 = [''ffmpeg'', ''-y'', ''-ss'', ''0.000'', ''-t'', ''60.000''])"
proof -
  note a = C7_range_arguments [where ss = None and duration = "Some 10"]
  note b = C7_range_arguments [where ss = "Some 0" and duration = None]
  note c = C7_range_arguments [where start_s = 0 and clip_seconds = 60 and nt = False
      and src = "\<lparr>path_parent = ''/videos/'', path_stem = ''clip'', path_suffix = ''.mp4''\<rparr>"
      and dst = "\<lparr>path_parent = ''/home/user/Downloads/'', path_stem = ''clip_trim_0-60_10MB'',
            path_suffix = ''.mp4''\<rparr>"
      and video_kbps = 1233 and audio_kbps = 137 and scale_filter = None]
  have r1: "''-ss'' \<notin> set (range_args None (Some 10)) \<and> ''-t'' \<in> set (range_args None (Some 10))"
    using a by simp
  have r2: "''-ss'' \<in> set (range_args (Some 0) None) \<and> ''-t'' \<notin> set (range_args (Some 0) None)"
    using b by simp
  from c export_commands_high_audio have
    "take 6 [''ffmpeg'', ''-y'', ''-ss'', ''0.000'', ''-t'', ''60.000'', ''-i'', ''/videos/clip.mp4'',
           ''-c:v'', ''libx264'', ''-b:v'', ''1233k'', ''-pass'', ''1'', ''-preset'', ''medium'',
           ''-pix_fmt'', ''yuv420p'', ''-an'', ''-f'', ''mp4'', ''-passlogfile'',
           ''/home/user/Downloads/clip_trim_0-60_10MB.log'', ''/dev/null'']
       = [''ffmpeg'', ''-y'', ''-ss'', format_f 0 3 0, ''-t'', format_f 0 3 60]"
    by blast
  then have r3: "(case export_commands False
           \<lparr>path_parent = ''/videos/'', path_stem = ''clip'', path_suffix = ''.mp4''\<rparr>
           \<lparr>path_parent = ''/home/user/Downloads/'', path_stem = ''clip_trim_0-60_10MB'',
            path_suffix = ''.mp4''\<rparr>
           0 60 1233 137 None of
      Inl e \<Rightarrow> False
    | Inr (pass1, pass2) \<Rightarrow>
        take 6 pass1 = [''ffmpeg'', ''-y'', ''-ss'', ''0.000'', ''-t'', ''60.000''] \<and>
        take 6 pass2 = [''ffmpeg'', ''-y'', ''-ss'', ''0.000'', ''-t'', ''60.000''])"
    unfolding export_commands_high_audio by simp
  from r1 r2 r3 show ?thesis by blast
qed

section \<open>Properties of the export\<close>

lemma commands_run_append: "commands_run (xs @ ys) = commands_run xs @ commands_run ys"
  by (induction xs rule: commands_run.induct) simp_all

lemma error_details_append: "error_details (xs @ ys) = error_details xs @ error_details ys"
  by (induction xs rule: error_details.induct) simp_all

lemma info_notes_append: "info_notes (xs @ ys) = info_notes xs @ info_notes ys"
  by (induction xs rule: info_notes.induct) simp_all

lemma statuses_append: "statuses (xs @ ys) = statuses xs @ statuses ys"
  by (induction xs rule: statuses.induct) simp_all

lemma clean_pass_logs_silent:
  "commands_run (clean_pass_logs env dst) = []"
  "error_details (clean_pass_logs env dst) = []"
  "info_notes (clean_pass_logs env dst) = []"
  "statuses (clean_pass_logs env dst) = []"
  by (simp_all add: clean_pass_logs_def Let_def split: sum.splits)

lemma run_two_passes_failed_first:
  assumes "run_command env pass1 = (code1, out1, err1)" and "code1 \<noteq> 0"
  shows "run_two_passes env dst target_mb pass1 pass2 =
           [RunCommand pass1, ShowError ''ffmpeg error (pass 1)'' (str_or err1 out1)]"
  using assms by (simp add: run_two_passes_def)

lemma run_two_passes_succeeded:
  assumes "run_command env pass1 = (0, out1, err1)" and "run_command env pass2 = (0, out2, err2)"
  shows "run_two_passes env dst target_mb pass1 pass2 =
           [RunCommand pass1, RunCommand pass2] @ clean_pass_logs env dst @
           (case stat_size env of
              None \<Rightarrow> [SetStatus ''Done'']
            | Some final_size \<Rightarrow>
                [SetStatus (''Done: '' @ path_name dst @ '' ('' @ human_readable_size final_size @ '')'')] @
                (if deviation_ratio final_size (py_int (target_mb * 1024 * 1024)) > 8 / 100
                 then [ShowInfo ''Note'' size_note] else []))"
  using assms
  by (simp add: run_two_passes_def deviation_ratio_def Let_def split: option.splits)

text \<open>
  The handler in the sample surrounding: the fields parse to a start of 0, an end of 60
  and a target of 10 MB, the plan is 1233 and 137 kbit/s with a downscale to 1102x620,
  and what follows is the run of the two passes.
\<close>

lemma sample_fields:
  "py_strip ''0'' = ''0''" "py_strip ''01:00.000'' = ''01:00.000''"
  by (simp_all add: py_strip_def is_space_def)

lemma sample_start: "parse_time_to_seconds ''0'' = Inr 0"
  by code_simp

lemma sample_end: "parse_time_to_seconds ''01:00.000'' = Inr 60"
  by code_simp

lemma sample_size: "py_float ''10'' = Inr 10"
  by code_simp

lemma str_int_dims: "str_int 1102 = ''1102''" "str_int 620 = ''620''"
  by (simp_all add: format_eval)

lemma choose_scaling_for_bitrate_1080p_1233:
  "choose_scaling_for_bitrate (Some 1920) (Some 1080) (Some 30) 1233
     = Inr (Some ''scale=1102:620:flags=lanczos'')"
  unfolding choose_scaling_for_bitrate_def choose_scaling_dims_1080p_1233
  by (simp add: scale_filter_text_def str_int_dims)

lemma py_int_examples: "py_int 0 = 0" "py_int 60 = 60" "py_int 10 = 10"
  by (simp_all add: py_int_def)

lemma export_dst_sample:
  "export_dst (sample_env code out err sz) 0 (Some 60) 10 = sample_dst"
  by (simp add: export_dst_def sample_env_def sample_dst_def py_int_examples str_int_examples)

lemma export_commands_sample:
  "export_commands False
     \<lparr>path_parent = ''/videos/'', path_stem = ''clip'', path_suffix = ''.mp4''\<rparr>
     sample_dst 0 60 1233 137 (Some ''scale=1102:620:flags=lanczos'')
   = Inr (sample_pass1, sample_pass2)"
  unfolding export_commands_def build_two_pass_commands_def with_suffix_def path_name_def
    path_str_def range_args_def vf_args_def insert_mono_def sample_dst_def sample_pass1_def
    sample_pass2_def
  by (simp add: format_f_0 format_f_60 str_int_examples Let_def)

lemma human_readable_size_examples:
  "human_readable_size 10485760 = ''10.00 MB''" "human_readable_size 12582912 = ''12.00 MB''"
proof -
  have "human_readable_loop (of_nat 10485760) 0 = (10, 2)"
    by (simp add: human_readable_loop.simps)
  moreover have "format_f 0 2 10 = ''10.00''" by (simp add: format_eval)
  ultimately show "human_readable_size 10485760 = ''10.00 MB''"
    by (simp add: human_readable_size_def)
  have "human_readable_loop (of_nat 12582912) 0 = (12, 2)"
    by (simp add: human_readable_loop.simps)
  moreover have "format_f 0 2 12 = ''12.00''" by (simp add: format_eval)
  ultimately show "human_readable_size 12582912 = ''12.00 MB''"
    by (simp add: human_readable_size_def)
qed

lemma export_encode_sample:
  "export_encode (sample_env code out err sz) 0 (Some 60) 10 60 =
     ([Mkdir ''/home/user/Downloads/'', SetStatus encoding_status] @
      run_two_passes (sample_env code out err sz) sample_dst 10 sample_pass1 sample_pass2,
      None)"
proof -
  have probe: "probe_resolution_fps (sample_env code out err sz) = (Some 1920, Some 1080, Some 30)"
    and nt: "os_nt (sample_env code out err sz) = False"
    and src: "src_path (sample_env code out err sz) =
      \<lparr>path_parent = ''/videos/'', path_stem = ''clip'', path_suffix = ''.mp4''\<rparr>"
    and dir: "downloads_dir (sample_env code out err sz) = ''/home/user/Downloads/''"
    by (simp_all add: sample_env_def)
  show ?thesis
    unfolding export_encode_def probe nt src dir prod.case compute_target_bitrates_60_10 sum.case
      choose_scaling_for_bitrate_1080p_1233 Let_def export_dst_sample export_commands_sample
    by simp
qed

lemma on_export_sample:
  "on_export (sample_env code out err sz) =
     ([Mkdir ''/home/user/Downloads/'', SetStatus encoding_status] @
      run_two_passes (sample_env code out err sz) sample_dst 10 sample_pass1 sample_pass2,
      None)"
proof -
  have f: "src_exists (sample_env code out err sz)" "tools_found (sample_env code out err sz)"
    "start_var (sample_env code out err sz) = ''0''"
    "end_var (sample_env code out err sz) = ''01:00.000''"
    "size_mb_var (sample_env code out err sz) = ''10''"
    by (simp_all add: sample_env_def)
  have "on_export (sample_env code out err sz) =
     export_encode (sample_env code out err sz) 0 (Some 60) 10 60"
    unfolding on_export_def f(3-5) sample_fields sample_start sample_end sample_size
    using f(1,2) by simp
  then show ?thesis by (simp only: export_encode_sample)
qed

lemma sample_env_fields:
  "run_command (sample_env code out err sz) cmd = (code, out, err)"
  "stat_size (sample_env code out err sz) = sz"
  "clean_pass_logs (sample_env code out err sz) dst = []"
  by (simp_all add: sample_env_def clean_pass_logs_def with_suffix_def Let_def)

text \<open>
  C8 (as stated, with the captured error stream as the detail) fails when the error
  stream is empty: the dialog then shows the captured standard output.
\<close>

theorem C8_error_detail_counterexample:
  "run_two_passes (sample_env 1 ''frame=  10'' [] None)
     \<lparr>path_parent = ''/home/user/Downloads/'', path_stem = ''clip_trim_0-60_10MB'',
      path_suffix = ''.mp4''\<rparr>
     10 [''ffmpeg'', ''-pass'', ''1''] [''ffmpeg'', ''-pass'', ''2'']
   = [RunCommand [''ffmpeg'', ''-pass'', ''1''],
      ShowError ''ffmpeg error (pass 1)'' ''frame=  10''] \<and>
   ''frame=  10'' \<noteq> []"
  by (simp add: run_two_passes_def sample_env_def str_or_def)

text \<open>
  C8 (amended): for every run in which the first pass exits with a non-zero code, the
  only command run is the first-pass command (the second-pass command is never run), and
  the only thing reported is one error dialog for pass 1 whose detail is the captured
  error stream, or the captured standard output when the error stream is empty.
\<close>

theorem C8_pass1_failure:
  assumes "run_command env pass1 = (code1, out1, err1)" and "code1 \<noteq> 0"
  shows "run_two_passes env dst target_mb pass1 pass2 =
           [RunCommand pass1,
            ShowError ''ffmpeg error (pass 1)'' (if err1 \<noteq> [] then err1 else out1)] \<and>
         commands_run (run_two_passes env dst target_mb pass1 pass2) = [pass1] \<and>
         error_details (run_two_passes env dst target_mb pass1 pass2) =
           [if err1 \<noteq> [] then err1 else out1]"
  unfolding run_two_passes_failed_first [OF assms] by (simp add: str_or_def)

theorem C8_pass1_failure_witness:
  "run_command (sample_env 1 [] ''Conversion failed!'' None) sample_pass1
     = (1, [], ''Conversion failed!'') \<and> (1::int) \<noteq> 0 \<and>
   on_export (sample_env 1 [] ''Conversion failed!'' None) =
     ([Mkdir ''/home/user/Downloads/'', SetStatus encoding_status, RunCommand sample_pass1,
       ShowError ''ffmpeg error (pass 1)'' ''Conversion failed!''], None) \<and>
   commands_run (fst (on_export (sample_env 1 [] ''Conversion failed!'' None))) = [sample_pass1]"
proof -
  have r: "run_command (sample_env 1 [] ''Conversion failed!'' None) sample_pass1
     = (1, [], ''Conversion failed!'')"
    by (rule sample_env_fields)
  have c: "(1::int) \<noteq> 0" by simp
  from C8_pass1_failure [OF r c, of sample_dst 10 sample_pass2]
  have run: "run_two_passes (sample_env 1 [] ''Conversion failed!'' None) sample_dst 10
               sample_pass1 sample_pass2
             = [RunCommand sample_pass1,
                ShowError ''ffmpeg error (pass 1)'' ''Conversion failed!'']"
    by simp
  have trace: "on_export (sample_env 1 [] ''Conversion failed!'' None) =
     ([Mkdir ''/home/user/Downloads/'', SetStatus encoding_status, RunCommand sample_pass1,
       ShowError ''ffmpeg error (pass 1)'' ''Conversion failed!''], None)"
    unfolding on_export_sample run by simp
  have "commands_run (fst (on_export (sample_env 1 [] ''Conversion failed!'' None)))
          = [sample_pass1]"
    unfolding trace by simp
  with r c trace show ?thesis by blast
qed

text \<open>
  C9: for every run in which both passes exit with code 0, no error is reported and the
  status ends as \<^verbatim>\<open>Done\<close>, whatever the size of the output. When the size can be
  read, the note about the size is shown exactly when
  \<open>|actual - target_bytes| / max(target_bytes, 1) > 0.08\<close>, with
  \<open>target_bytes = int(target_mb * 1024 * 1024)\<close>; an output of exactly \<open>target_bytes\<close>
  gets no note. When the size cannot be read there is no note.
\<close>

theorem C9_size_validation:
  assumes "run_command env pass1 = (0, out1, err1)" and "run_command env pass2 = (0, out2, err2)"
  shows "error_details (run_two_passes env dst target_mb pass1 pass2) = [] \<and>
         commands_run (run_two_passes env dst target_mb pass1 pass2) = [pass1, pass2] \<and>
         take 4 (last (statuses (run_two_passes env dst target_mb pass1 pass2))) = ''Done'' \<and>
         (\<forall>actual. stat_size env = Some actual \<longrightarrow>
            info_notes (run_two_passes env dst target_mb pass1 pass2) =
              (if deviation_ratio actual (py_int (target_mb * 1024 * 1024)) > 8 / 100
               then [size_note] else [])) \<and>
         (\<forall>actual. stat_size env = Some actual \<and> int actual = py_int (target_mb * 1024 * 1024)
            \<longrightarrow> info_notes (run_two_passes env dst target_mb pass1 pass2) = []) \<and>
         (stat_size env = None
            \<longrightarrow> info_notes (run_two_passes env dst target_mb pass1 pass2) = [])"
proof -
  note run = run_two_passes_succeeded [OF assms, of dst target_mb]
  note app = commands_run_append error_details_append info_notes_append statuses_append
  have e: "error_details (run_two_passes env dst target_mb pass1 pass2) = []"
    unfolding run by (simp add: app clean_pass_logs_silent split: option.splits)
  have c: "commands_run (run_two_passes env dst target_mb pass1 pass2) = [pass1, pass2]"
    unfolding run by (simp add: app clean_pass_logs_silent split: option.splits)
  have s: "take 4 (last (statuses (run_two_passes env dst target_mb pass1 pass2))) = ''Done''"
    unfolding run by (simp add: app clean_pass_logs_silent split: option.splits)
  have n: "\<And>actual. stat_size env = Some actual \<Longrightarrow>
            info_notes (run_two_passes env dst target_mb pass1 pass2) =
              (if deviation_ratio actual (py_int (target_mb * 1024 * 1024)) > 8 / 100
               then [size_note] else [])"
    unfolding run by (simp add: app clean_pass_logs_silent)
  have z: "\<And>actual. int actual = py_int (target_mb * 1024 * 1024) \<Longrightarrow>
             \<not> deviation_ratio actual (py_int (target_mb * 1024 * 1024)) > 8 / 100"
  proof -
    fix actual :: nat
    assume "int actual = py_int (target_mb * 1024 * 1024)"
    then have "real actual = real_of_int (py_int (target_mb * 1024 * 1024))"
      by (metis of_int_of_nat_eq)
    then show "\<not> deviation_ratio actual (py_int (target_mb * 1024 * 1024)) > 8 / 100"
      by (simp add: deviation_ratio_def)
  qed
  have u: "stat_size env = None \<Longrightarrow>
            info_notes (run_two_passes env dst target_mb pass1 pass2) = []"
    unfolding run by (simp add: app clean_pass_logs_silent)
  from e c s n z u show ?thesis by simp
qed

theorem C9_size_validation_witness:
  "run_command (sample_env 0 [] [] (Some 10485760)) sample_pass1 = (0, [], []) \<and>
   run_command (sample_env 0 [] [] (Some 10485760)) sample_pass2 = (0, [], []) \<and>
   py_int (10 * 1024 * 1024) = 10485760 \<and>
   deviation_ratio 10485760 10485760 = 0 \<and>
   on_export (sample_env 0 [] [] (Some 10485760)) =
     ([Mkdir ''/home/user/Downloads/'', SetStatus encoding_status, RunCommand sample_pass1,
       RunCommand sample_pass2, SetStatus ''Done: clip_trim_0-60_10MB.mp4 (10.00 MB)''],
      None) \<and>
   deviation_ratio 12582912 10485760 = 1 / 5 \<and>
   on_export (sample_env 0 [] [] (Some 12582912)) =
     ([Mkdir ''/home/user/Downloads/'', SetStatus encoding_status, RunCommand sample_pass1,
       RunCommand sample_pass2, SetStatus ''Done: clip_trim_0-60_10MB.mp4 (12.00 MB)'',
       ShowInfo ''Note'' size_note],
      None) \<and>
   info_notes (run_two_passes (sample_env 0 [] [] (Some 10485760)) sample_dst 10
     sample_pass1 sample_pass2) = [] \<and>
   info_notes (run_two_passes (sample_env 0 [] [] (Some 12582912)) sample_dst 10
     sample_pass1 sample_pass2) = [size_note] \<and>
   error_details (run_two_passes (sample_env 0 [] [] (Some 12582912)) sample_dst 10
     sample_pass1 sample_pass2) = []"
proof -
  have r: "\<And>sz cmd. run_command (sample_env 0 [] [] sz) cmd = (0, [], [])"
    by (rule sample_env_fields)
  note st = sample_env_fields(2)
  have tb: "py_int (10 * 1024 * 1024) = 10485760" by (simp add: py_int_def)
  have d0: "deviation_ratio 10485760 10485760 = 0"
    by (simp add: deviation_ratio_def)
  have d1: "deviation_ratio 12582912 10485760 = 1 / 5"
    by (simp add: deviation_ratio_def)
  note exact = C9_size_validation
      [OF r [of "Some 10485760" sample_pass1] r [of "Some 10485760" sample_pass2],
       where dst = sample_dst and target_mb = 10]
  note off = C9_size_validation
      [OF r [of "Some 12582912" sample_pass1] r [of "Some 12582912" sample_pass2],
       where dst = sample_dst and target_mb = 10]
  have n1: "info_notes (run_two_passes (sample_env 0 [] [] (Some 10485760)) sample_dst 10
      sample_pass1 sample_pass2) = []"
    using exact st tb d0 by simp
  have n2: "info_notes (run_two_passes (sample_env 0 [] [] (Some 12582912)) sample_dst 10
      sample_pass1 sample_pass2) = [size_note]"
    using off st tb d1 by simp
  have e2: "error_details (run_two_passes (sample_env 0 [] [] (Some 12582912)) sample_dst 10
      sample_pass1 sample_pass2) = []"
    using off by blast
  have name: "path_name sample_dst = ''clip_trim_0-60_10MB.mp4''"
    by (simp add: path_name_def sample_dst_def)
  have t1: "on_export (sample_env 0 [] [] (Some 10485760)) =
     ([Mkdir ''/home/user/Downloads/'', SetStatus encoding_status, RunCommand sample_pass1,
       RunCommand sample_pass2, SetStatus ''Done: clip_trim_0-60_10MB.mp4 (10.00 MB)''],
      None)"
    unfolding on_export_sample run_two_passes_succeeded [OF r r] sample_env_fields tb
    by (simp add: d0 name human_readable_size_examples)
  have t2: "on_export (sample_env 0 [] [] (Some 12582912)) =
     ([Mkdir ''/home/user/Downloads/'', SetStatus encoding_status, RunCommand sample_pass1,
       RunCommand sample_pass2, SetStatus ''Done: clip_trim_0-60_10MB.mp4 (12.00 MB)'',
       ShowInfo ''Note'' size_note],
      None)"
    unfolding on_export_sample run_two_passes_succeeded [OF r r] sample_env_fields tb
    by (simp add: d1 name human_readable_size_examples)
  from r tb d0 t1 d1 t2 n1 n2 e2 show ?thesis by simp
qed

end
